theory Spec2Isabelle
  imports Main "HOL-Library.Word"
begin

unbundle bit_operations_syntax

section \<open>Vulkan handles, result codes and descriptor kinds\<close>

text \<open>
  Driver handles (\<open>VkDescriptorPool\<close>, \<open>VkDescriptorSet\<close>, \<open>VkImageView\<close>, ...) are opaque
  numbers; \<open>VK_NULL_HANDLE\<close> is 0.  Sizes and indices that are only compared, stored and
  incremented by one far below their width are natural numbers; the per-sub-pool live
  counters, which the code decrements, are 32-bit words so that \<open>--\<close> and \<open>++\<close> wrap as in C++.
\<close>

definition VK_NULL_HANDLE :: nat where
  "VK_NULL_HANDLE = 0"

datatype VkResult = VK_SUCCESS | VK_INCOMPLETE | VK_ERROR int

datatype VkDescriptorType =
    VK_DESCRIPTOR_TYPE_SAMPLER
  | VK_DESCRIPTOR_TYPE_COMBINED_IMAGE_SAMPLER
  | VK_DESCRIPTOR_TYPE_SAMPLED_IMAGE
  | VK_DESCRIPTOR_TYPE_STORAGE_IMAGE
  | VK_DESCRIPTOR_TYPE_UNIFORM_TEXEL_BUFFER
  | VK_DESCRIPTOR_TYPE_STORAGE_TEXEL_BUFFER
  | VK_DESCRIPTOR_TYPE_UNIFORM_BUFFER
  | VK_DESCRIPTOR_TYPE_STORAGE_BUFFER
  | VK_DESCRIPTOR_TYPE_UNIFORM_BUFFER_DYNAMIC
  | VK_DESCRIPTOR_TYPE_STORAGE_BUFFER_DYNAMIC
  | VK_DESCRIPTOR_TYPE_INPUT_ATTACHMENT

text \<open>The three flag bits the code tests or sets (values of the Vulkan headers).\<close>

definition VK_DESCRIPTOR_BINDING_UPDATE_AFTER_BIND_BIT_EXT :: "32 word" where
  "VK_DESCRIPTOR_BINDING_UPDATE_AFTER_BIND_BIT_EXT = 1"

definition VK_DESCRIPTOR_POOL_CREATE_UPDATE_AFTER_BIND_BIT_EXT :: "32 word" where
  "VK_DESCRIPTOR_POOL_CREATE_UPDATE_AFTER_BIND_BIT_EXT = 2"

definition VK_DESCRIPTOR_SET_LAYOUT_CREATE_UPDATE_AFTER_BIND_POOL_BIT_EXT :: "32 word" where
  "VK_DESCRIPTOR_SET_LAYOUT_CREATE_UPDATE_AFTER_BIND_POOL_BIT_EXT = 2"

text \<open>
  \<open>std::unordered_map::emplace\<close> and \<open>erase\<close> on a map kept as an association list whose
  order is the container's iteration order: \<open>emplace\<close> inserts only when the key is absent.
\<close>

definition emplace :: "'k \<Rightarrow> 'v \<Rightarrow> ('k \<times> 'v) list \<Rightarrow> ('k \<times> 'v) list" where
  "emplace k v m = (if map_of m k = None then m @ [(k, v)] else m)"


section \<open>Descriptor set layout (core/DescriptorSetLayout.cpp)\<close>

text \<open>
  The enumerators of \<open>ShaderResourceType\<close> are those the constructor and
  \<open>FindDescriptorType\<close> name; \<open>All\<close> stands for the remaining enumerator that reaches the
  \<open>default\<close> branch of the switch.
\<close>

datatype ShaderResourceType =
    Input | InputAttachment | Output | Image | ImageSampler | ImageStorage | Sampler
  | BufferUniform | BufferStorage | PushConstant | SpecializationConstant | All

datatype ShaderResourceMode = Static | Dynamic | UpdateAfterBind

record ShaderResource =
  sr_stages :: "32 word"
  sr_type :: ShaderResourceType
  sr_mode :: ShaderResourceMode
  sr_binding :: nat
  sr_array_size :: nat
  sr_name :: string

record VkDescriptorSetLayoutBinding =
  lb_binding :: nat
  lb_descriptorType :: VkDescriptorType
  lb_descriptorCount :: nat
  lb_stageFlags :: "32 word"

text \<open>
  What the code throws: the three \<open>std::runtime_error\<close>s of the layout, \<open>VulkanException\<close> with
  the driver's result code, and the \<open>std::out_of_range\<close> of \<open>unordered_map::at\<close>.
\<close>

datatype exn =
    NoConversionPossible
  | DynamicWithUpdateAfterBind
  | InvalidBinding
  | VulkanException VkResult
  | OutOfRange

record VkDescriptorSetLayoutCreateInfo =
  ci_flags :: "32 word"
  ci_bindings :: "VkDescriptorSetLayoutBinding list"
  ci_pBindingFlags :: "32 word list option"

record DescriptorSetLayout =
  m_handle :: nat
  m_setIndex :: nat
  m_bindings :: "VkDescriptorSetLayoutBinding list"
  m_bindingFlags :: "32 word list"
  m_bindingsLookup :: "(nat \<times> VkDescriptorSetLayoutBinding) list"
  m_bindingFlagsLookup :: "(nat \<times> 32 word) list"
  m_resourcesLookup :: "(string \<times> nat) list"
  m_shaderModules :: "nat list"

fun FindDescriptorType :: "ShaderResourceType \<Rightarrow> bool \<Rightarrow> exn + VkDescriptorType" where
  "FindDescriptorType InputAttachment isDynamic = Inr VK_DESCRIPTOR_TYPE_INPUT_ATTACHMENT"
| "FindDescriptorType Image isDynamic = Inr VK_DESCRIPTOR_TYPE_SAMPLED_IMAGE"
| "FindDescriptorType ImageSampler isDynamic = Inr VK_DESCRIPTOR_TYPE_COMBINED_IMAGE_SAMPLER"
| "FindDescriptorType ImageStorage isDynamic = Inr VK_DESCRIPTOR_TYPE_STORAGE_IMAGE"
| "FindDescriptorType Sampler isDynamic = Inr VK_DESCRIPTOR_TYPE_SAMPLER"
| "FindDescriptorType BufferUniform isDynamic =
     (if isDynamic then Inr VK_DESCRIPTOR_TYPE_UNIFORM_BUFFER_DYNAMIC
      else Inr VK_DESCRIPTOR_TYPE_UNIFORM_BUFFER)"
| "FindDescriptorType BufferStorage isDynamic =
     (if isDynamic then Inr VK_DESCRIPTOR_TYPE_STORAGE_BUFFER_DYNAMIC
      else Inr VK_DESCRIPTOR_TYPE_STORAGE_BUFFER)"
| "FindDescriptorType other isDynamic = Inl NoConversionPossible"

definition ValidateFlags :: "VkDescriptorSetLayoutBinding list \<Rightarrow> 32 word list \<Rightarrow> bool" where
  "ValidateFlags bindings flags =
     (if flags = [] then True
      else if length bindings \<noteq> length flags then False
      else True)"

definition no_binding_point :: "ShaderResource \<Rightarrow> bool" where
  "no_binding_point resource =
     (sr_type resource = Input \<or> sr_type resource = Output \<or>
      sr_type resource = PushConstant \<or> sr_type resource = SpecializationConstant)"

text \<open>The constructor's loop over \<open>resourceSet\<close>; a throw of \<open>FindDescriptorType\<close> ends it.\<close>

fun add_resources :: "ShaderResource list \<Rightarrow> DescriptorSetLayout \<Rightarrow> exn + DescriptorSetLayout" where
  "add_resources [] l = Inr l"
| "add_resources (resource # rest) l =
     (if no_binding_point resource then add_resources rest l
      else
        (case FindDescriptorType (sr_type resource) (sr_mode resource = Dynamic) of
           Inl e \<Rightarrow> Inl e
         | Inr descriptor_type \<Rightarrow>
             (let flag = (if sr_mode resource = UpdateAfterBind
                          then VK_DESCRIPTOR_BINDING_UPDATE_AFTER_BIND_BIT_EXT else 0);
                  layout_binding = \<lparr> lb_binding = sr_binding resource,
                                     lb_descriptorType = descriptor_type,
                                     lb_descriptorCount = sr_array_size resource,
                                     lb_stageFlags = sr_stages resource \<rparr>
              in add_resources rest
                   (l\<lparr> m_bindingFlags := m_bindingFlags l @ [flag],
                       m_bindings := m_bindings l @ [layout_binding],
                       m_bindingsLookup := emplace (sr_binding resource) layout_binding (m_bindingsLookup l),
                       m_bindingFlagsLookup := emplace (sr_binding resource) flag (m_bindingFlagsLookup l),
                       m_resourcesLookup := emplace (sr_name resource) (sr_binding resource) (m_resourcesLookup l) \<rparr>))))"

definition is_mode :: "ShaderResourceMode \<Rightarrow> ShaderResource \<Rightarrow> bool" where
  "is_mode m shaderResource = (sr_mode shaderResource = m)"

text \<open>
  The constructor after its loop: the two update-after-bind checks, the create info and
  the driver call.  \<open>vkCreateDescriptorSetLayout\<close> is the driver's: its result code and
  the handle it writes are the argument \<open>created\<close>.  A throw is \<open>Inl\<close>.
\<close>

definition create_layout_handle ::
  "VkResult \<times> nat \<Rightarrow> ShaderResource list \<Rightarrow> DescriptorSetLayout \<Rightarrow>
     exn + (DescriptorSetLayout \<times> VkDescriptorSetLayoutCreateInfo)" where
  "create_layout_handle created resourceSet l =
     (let create_info = \<lparr> ci_flags = 0, ci_bindings = m_bindings l, ci_pBindingFlags = None \<rparr>;
          finish = (\<lambda>info. if fst created \<noteq> VK_SUCCESS then Inl (VulkanException (fst created))
                            else Inr (l\<lparr> m_handle := snd created \<rparr>, info))
      in if find (is_mode UpdateAfterBind) resourceSet \<noteq> None then
           (if find (is_mode Dynamic) resourceSet \<noteq> None then Inl DynamicWithUpdateAfterBind
            else if \<not> ValidateFlags (m_bindings l) (m_bindingFlags l) then Inl InvalidBinding
            else finish (create_info
                   \<lparr> ci_pBindingFlags := Some (m_bindingFlags l),
                     ci_flags := ci_flags create_info OR
                       (if find (\<lambda>f. f = VK_DESCRIPTOR_BINDING_UPDATE_AFTER_BIND_BIT_EXT)
                              (m_bindingFlags l) \<noteq> None
                        then VK_DESCRIPTOR_SET_LAYOUT_CREATE_UPDATE_AFTER_BIND_POOL_BIT_EXT else 0) \<rparr>))
         else finish create_info)"

definition DescriptorSetLayout_ctor ::
  "VkResult \<times> nat \<Rightarrow> nat \<Rightarrow> nat list \<Rightarrow> ShaderResource list \<Rightarrow>
     exn + (DescriptorSetLayout \<times> VkDescriptorSetLayoutCreateInfo)" where
  "DescriptorSetLayout_ctor created setIndex shaderModules resourceSet =
     (case add_resources resourceSet
             \<lparr> m_handle = VK_NULL_HANDLE, m_setIndex = setIndex, m_bindings = [],
               m_bindingFlags = [], m_bindingsLookup = [], m_bindingFlagsLookup = [],
               m_resourcesLookup = [], m_shaderModules = shaderModules \<rparr> of
        Inl e \<Rightarrow> Inl e
      | Inr l \<Rightarrow> create_layout_handle created resourceSet l)"

definition GetLayoutBinding :: "DescriptorSetLayout \<Rightarrow> nat \<Rightarrow> VkDescriptorSetLayoutBinding option" where
  "GetLayoutBinding l bindingIndex = map_of (m_bindingsLookup l) bindingIndex"

definition GetLayoutBindingFlag :: "DescriptorSetLayout \<Rightarrow> nat \<Rightarrow> 32 word" where
  "GetLayoutBindingFlag l bindingIndex =
     (case map_of (m_bindingFlagsLookup l) bindingIndex of None \<Rightarrow> 0 | Some f \<Rightarrow> f)"

section \<open>Descriptor pool (core/DescriptorPool.cpp)\<close>

text \<open>
  The calls the pool issues to the driver are appended to \<open>m_device\<close>, so that a theorem
  can say which calls an operation made.  What the driver answers (result code, handle
  written) is an argument of the operation that calls it.
\<close>

datatype device_call =
    vkCreateDescriptorPool "32 word" "32 word" "(VkDescriptorType \<times> 32 word) list"
  | vkAllocateDescriptorSets nat nat
  | vkFreeDescriptorSets nat nat
  | vkResetDescriptorPool nat

record DescriptorPool =
  m_device :: "device_call list"
  m_descriptorSetLayout :: DescriptorSetLayout
  m_poolSizes :: "(VkDescriptorType \<times> 32 word) list"
  m_poolMaxSets :: "32 word"
  m_pools :: "nat list"
  m_poolSetsCount :: "32 word list"
  m_poolIndex :: nat
  m_setPoolMapping :: "nat \<rightharpoonup> nat"

text \<open>
  The constructor sums the descriptor counts per descriptor type in a \<open>std::map\<close> (which
  iterates in the order of the enumerators' values) and multiplies each by the pool size,
  in \<open>uint32_t\<close>.
\<close>

definition descriptor_types_in_order :: "VkDescriptorType list" where
  "descriptor_types_in_order =
     [VK_DESCRIPTOR_TYPE_SAMPLER, VK_DESCRIPTOR_TYPE_COMBINED_IMAGE_SAMPLER,
      VK_DESCRIPTOR_TYPE_SAMPLED_IMAGE, VK_DESCRIPTOR_TYPE_STORAGE_IMAGE,
      VK_DESCRIPTOR_TYPE_UNIFORM_TEXEL_BUFFER, VK_DESCRIPTOR_TYPE_STORAGE_TEXEL_BUFFER,
      VK_DESCRIPTOR_TYPE_UNIFORM_BUFFER, VK_DESCRIPTOR_TYPE_STORAGE_BUFFER,
      VK_DESCRIPTOR_TYPE_UNIFORM_BUFFER_DYNAMIC, VK_DESCRIPTOR_TYPE_STORAGE_BUFFER_DYNAMIC,
      VK_DESCRIPTOR_TYPE_INPUT_ATTACHMENT]"

definition pool_sizes ::
  "VkDescriptorSetLayoutBinding list \<Rightarrow> 32 word \<Rightarrow> (VkDescriptorType \<times> 32 word) list" where
  "pool_sizes bindings poolSize =
     map (\<lambda>t. (t, sum_list (map (\<lambda>b. of_nat (lb_descriptorCount b))
                               (filter (\<lambda>b. lb_descriptorType b = t) bindings)) * poolSize))
         (filter (\<lambda>t. list_ex (\<lambda>b. lb_descriptorType b = t) bindings) descriptor_types_in_order)"

definition DescriptorPool_ctor :: "DescriptorSetLayout \<Rightarrow> 32 word \<Rightarrow> DescriptorPool" where
  "DescriptorPool_ctor descriptorSetLayout poolSize =
     \<lparr> m_device = [], m_descriptorSetLayout = descriptorSetLayout,
       m_poolSizes = pool_sizes (m_bindings descriptorSetLayout) poolSize, m_poolMaxSets = poolSize,
       m_pools = [], m_poolSetsCount = [], m_poolIndex = 0, m_setPoolMapping = Map.empty \<rparr>"

definition MAX_SETS_PER_POOL :: "32 word" where
  "MAX_SETS_PER_POOL = 16"

definition pool_create_flags :: "32 word list \<Rightarrow> 32 word" where
  "pool_create_flags bindingFlags =
     fold (\<lambda>bindingFlag flags.
             if bindingFlag AND VK_DESCRIPTOR_BINDING_UPDATE_AFTER_BIND_BIT_EXT \<noteq> 0
             then flags OR VK_DESCRIPTOR_POOL_CREATE_UPDATE_AFTER_BIND_BIT_EXT else flags)
          bindingFlags 0"

text \<open>
  \<open>FindAvailablePool\<close>.  \<open>created\<close> is the driver's answer to \<open>vkCreateDescriptorPool\<close>.
  The result is \<open>None\<close> where the C++ indexes \<open>m_poolSetsCount\<close> out of range (undefined
  behaviour); the two vectors grow together, so that does not happen in a pool the
  operations built.  The recursion ends because an index below \<open>m_pools.size()\<close> only grows.
\<close>

function FindAvailablePool ::
  "VkResult \<times> nat \<Rightarrow> DescriptorPool \<Rightarrow> nat \<Rightarrow> (nat \<times> DescriptorPool) option" where
  "FindAvailablePool created p searchIndex =
     (if length (m_pools p) \<le> searchIndex then
        (let p1 = p\<lparr> m_device := m_device p @
                     [vkCreateDescriptorPool (m_poolMaxSets p)
                        (pool_create_flags (m_bindingFlags (m_descriptorSetLayout p)))
                        (m_poolSizes p)] \<rparr>
         in if fst created \<noteq> VK_SUCCESS then Some (0, p1)
            else Some (searchIndex,
                       p1\<lparr> m_pools := m_pools p1 @ [snd created],
                           m_poolSetsCount := m_poolSetsCount p1 @ [0] \<rparr>))
      else if length (m_poolSetsCount p) \<le> searchIndex then None
      else if m_poolSetsCount p ! searchIndex < m_poolMaxSets p then Some (searchIndex, p)
      else FindAvailablePool created p (searchIndex + 1))"
  by pat_completeness auto
termination
  by (relation "measure (\<lambda>(created, p, searchIndex). length (m_pools p) - searchIndex)") auto

declare FindAvailablePool.simps [simp del]

record driver_reply =
  create_reply :: "VkResult \<times> nat"
  allocate_reply :: "VkResult \<times> nat"

text \<open>
  \<open>AllocateDescriptorSet\<close>; \<open>None\<close> again is an out-of-range vector access (the index 0 that
  a failed pool creation returns, in a pool that has no sub-pool yet).
\<close>

definition AllocateDescriptorSet ::
  "driver_reply \<Rightarrow> DescriptorPool \<Rightarrow> (nat \<times> DescriptorPool) option" where
  "AllocateDescriptorSet d p =
     (case FindAvailablePool (create_reply d) p (m_poolIndex p) of
        None \<Rightarrow> None
      | Some (i, p1) \<Rightarrow>
          (let p2 = p1\<lparr> m_poolIndex := i \<rparr> in
           if length (m_poolSetsCount p2) \<le> i \<or> length (m_pools p2) \<le> i then None
           else
             (let p3 = p2\<lparr> m_poolSetsCount := (m_poolSetsCount p2)[i := m_poolSetsCount p2 ! i + 1],
                            m_device := m_device p2 @
                              [vkAllocateDescriptorSets (m_pools p2 ! i)
                                 (m_handle (m_descriptorSetLayout p2))] \<rparr>
              in if fst (allocate_reply d) \<noteq> VK_SUCCESS then
                   Some (VK_NULL_HANDLE,
                         p3\<lparr> m_poolSetsCount := (m_poolSetsCount p3)[i := m_poolSetsCount p3 ! i - 1] \<rparr>)
                 else
                   Some (snd (allocate_reply d),
                         p3\<lparr> m_setPoolMapping :=
                               (if m_setPoolMapping p3 (snd (allocate_reply d)) = None
                                then (m_setPoolMapping p3)(snd (allocate_reply d) \<mapsto> i)
                                else m_setPoolMapping p3) \<rparr>))))"

definition FreeDescriptorSet :: "DescriptorPool \<Rightarrow> nat \<Rightarrow> (VkResult \<times> DescriptorPool) option" where
  "FreeDescriptorSet p descriptorSet =
     (case m_setPoolMapping p descriptorSet of
        None \<Rightarrow> Some (VK_INCOMPLETE, p)
      | Some descPoolIndex \<Rightarrow>
          if length (m_pools p) \<le> descPoolIndex \<or> length (m_poolSetsCount p) \<le> descPoolIndex
          then None
          else Some (VK_SUCCESS,
                 p\<lparr> m_device := m_device p @
                       [vkFreeDescriptorSets (m_pools p ! descPoolIndex) descriptorSet],
                    m_setPoolMapping := (m_setPoolMapping p)(descriptorSet := None),
                    m_poolSetsCount := (m_poolSetsCount p)
                       [descPoolIndex := m_poolSetsCount p ! descPoolIndex - 1],
                    m_poolIndex := descPoolIndex \<rparr>))"









section \<open>Descriptor set (DescriptorSet.cpp)\<close>

text \<open>
  \<open>BindingMap<T>\<close> is \<open>std::map<uint32_t, std::map<uint32_t, T>>\<close>: binding number, then array
  element.  Both levels are association lists in the order the loops visit them.  A
  write-descriptor entry points into the set's own maps (\<open>pBufferInfo = &bufferInfo\<close>), so
  \<open>pInfo\<close> names the slot it points to and \<open>deref\<close> reads what is stored there at the time
  of the read.
\<close>

type_synonym 'a BindingMap = "(nat \<times> (nat \<times> 'a) list) list"

record VkDescriptorBufferInfo =
  bi_buffer :: nat
  bi_offset :: nat
  bi_range :: nat

record VkDescriptorImageInfo =
  ii_sampler :: nat
  ii_imageView :: nat
  ii_imageLayout :: nat

datatype info_ptr = pBufferInfo nat nat | pImageInfo nat nat

record VkWriteDescriptorSet =
  dstSet :: nat
  dstBinding :: nat
  dstArrayElement :: nat
  descriptorCount :: nat
  descriptorType :: VkDescriptorType
  pInfo :: info_ptr

datatype diagnostic =
    LOGW_already_prepared
  | LOGW_reset_without_infos
  | LOGE_uniform_buffer_range_limit nat nat nat nat
  | LOGE_storage_buffer_range_limit nat nat nat nat
  | LOGE_no_buffer_binding nat
  | LOGE_no_image_binding nat

record device_limits =
  maxUniformBufferRange :: nat
  maxStorageBufferRange :: nat

text \<open>
  \<open>m_setLayout\<close> is the member \<open>m_descriptorSetLayout\<close> and \<open>m_setHandle\<close> the member
  \<open>m_handle\<close> of the C++ class (the names are taken by the pool and the layout above).
\<close>

record DescriptorSet =
  m_setLayout :: DescriptorSetLayout
  m_bufferInfos :: "VkDescriptorBufferInfo BindingMap"
  m_imageInfos :: "VkDescriptorImageInfo BindingMap"
  m_setHandle :: nat
  m_writeDescriptorSets :: "VkWriteDescriptorSet list"
  m_updatedBindings :: "nat \<rightharpoonup> nat"

text \<open>The range check of \<open>Prepare\<close>: the range to store and the diagnostic logged, if any.\<close>

definition clip_buffer_range ::
  "device_limits \<Rightarrow> nat \<Rightarrow> nat \<Rightarrow> VkDescriptorType \<Rightarrow> nat \<Rightarrow> nat \<times> diagnostic list" where
  "clip_buffer_range limits setIndex bindingIndex descriptor_type range_requested =
     (let uniformBufferRangeLimit = maxUniformBufferRange limits;
          storageBufferRangeLimit = maxStorageBufferRange limits;
          bufferRangeLimit = range_requested
      in if (descriptor_type = VK_DESCRIPTOR_TYPE_UNIFORM_BUFFER \<or>
             descriptor_type = VK_DESCRIPTOR_TYPE_UNIFORM_BUFFER_DYNAMIC) \<and>
            bufferRangeLimit > uniformBufferRangeLimit
         then (uniformBufferRangeLimit,
               [LOGE_uniform_buffer_range_limit setIndex bindingIndex range_requested
                  uniformBufferRangeLimit])
         else if (descriptor_type = VK_DESCRIPTOR_TYPE_STORAGE_BUFFER \<or>
                  descriptor_type = VK_DESCRIPTOR_TYPE_STORAGE_BUFFER_DYNAMIC) \<and>
                 bufferRangeLimit > storageBufferRangeLimit
         then (storageBufferRangeLimit,
               [LOGE_storage_buffer_range_limit setIndex bindingIndex range_requested
                  storageBufferRangeLimit])
         else (bufferRangeLimit, []))"

definition prepare_buffer_element ::
  "device_limits \<Rightarrow> nat \<Rightarrow> nat \<Rightarrow> nat \<Rightarrow> VkDescriptorSetLayoutBinding \<Rightarrow>
     nat \<times> VkDescriptorBufferInfo \<Rightarrow>
     (nat \<times> VkDescriptorBufferInfo) \<times> VkWriteDescriptorSet \<times> diagnostic list" where
  "prepare_buffer_element limits setIndex handle bindingIndex bindingInfo elementIt =
     (let bufferInfo = snd elementIt;
          clipped = clip_buffer_range limits setIndex bindingIndex (lb_descriptorType bindingInfo)
                      (bi_range bufferInfo)
      in ((fst elementIt, bufferInfo\<lparr> bi_range := fst clipped \<rparr>),
          \<lparr> dstSet = handle, dstBinding = bindingIndex, dstArrayElement = fst elementIt,
            descriptorCount = 1, descriptorType = lb_descriptorType bindingInfo,
            pInfo = pBufferInfo bindingIndex (fst elementIt) \<rparr>,
          snd clipped))"

definition prepare_buffer_binding ::
  "device_limits \<Rightarrow> DescriptorSet \<Rightarrow> nat \<times> (nat \<times> VkDescriptorBufferInfo) list \<Rightarrow>
     (nat \<times> (nat \<times> VkDescriptorBufferInfo) list) \<times> VkWriteDescriptorSet list \<times> diagnostic list" where
  "prepare_buffer_binding limits ds bindingIt =
     (let bindingIndex = fst bindingIt; bufferBindings = snd bindingIt in
      case GetLayoutBinding (m_setLayout ds) bindingIndex of
        Some bindingInfo \<Rightarrow>
          (let rs = map (prepare_buffer_element limits (m_setIndex (m_setLayout ds)) (m_setHandle ds)
                           bindingIndex bindingInfo) bufferBindings
           in ((bindingIndex, map fst rs), map (\<lambda>r. fst (snd r)) rs, concat (map (\<lambda>r. snd (snd r)) rs)))
      | None \<Rightarrow> ((bindingIndex, bufferBindings), [], [LOGE_no_buffer_binding bindingIndex]))"

definition prepare_image_binding ::
  "DescriptorSet \<Rightarrow> nat \<times> (nat \<times> VkDescriptorImageInfo) list \<Rightarrow>
     VkWriteDescriptorSet list \<times> diagnostic list" where
  "prepare_image_binding ds bindingIt =
     (let bindingIndex = fst bindingIt; bindingResources = snd bindingIt in
      case GetLayoutBinding (m_setLayout ds) bindingIndex of
        Some bindingInfo \<Rightarrow>
          (map (\<lambda>elementIt.
                  \<lparr> dstSet = m_setHandle ds, dstBinding = bindingIndex,
                    dstArrayElement = fst elementIt, descriptorCount = 1,
                    descriptorType = lb_descriptorType bindingInfo,
                    pInfo = pImageInfo bindingIndex (fst elementIt) \<rparr>)
               bindingResources, [])
      | None \<Rightarrow> ([], [LOGE_no_image_binding bindingIndex]))"

text \<open>\<open>Prepare\<close> returns the set and the diagnostics it logged, in the order it logged them.\<close>

definition Prepare :: "device_limits \<Rightarrow> DescriptorSet \<Rightarrow> DescriptorSet \<times> diagnostic list" where
  "Prepare limits ds =
     (if m_writeDescriptorSets ds \<noteq> [] then (ds, [LOGW_already_prepared])
      else
        (let bs = map (prepare_buffer_binding limits ds) (m_bufferInfos ds);
             imgs = map (prepare_image_binding ds) (m_imageInfos ds)
         in (ds\<lparr> m_bufferInfos := map fst bs,
                 m_writeDescriptorSets :=
                   m_writeDescriptorSets ds @ concat (map (\<lambda>r. fst (snd r)) bs) @ concat (map fst imgs) \<rparr>,
             concat (map (\<lambda>r. snd (snd r)) bs) @ concat (map snd imgs))))"

text \<open>
  The constructor allocates the handle from the pool and prepares.  It has no throw of its
  own; \<open>None\<close> is the pool's out-of-range access.
\<close>

definition DescriptorSet_ctor ::
  "device_limits \<Rightarrow> driver_reply \<Rightarrow> DescriptorSetLayout \<Rightarrow> DescriptorPool \<Rightarrow>
     VkDescriptorBufferInfo BindingMap \<Rightarrow> VkDescriptorImageInfo BindingMap \<Rightarrow>
     (DescriptorSet \<times> DescriptorPool \<times> diagnostic list) option" where
  "DescriptorSet_ctor limits d descriptorSetLayout descriptorPool bufferInfos imageInfos =
     (case AllocateDescriptorSet d descriptorPool of
        None \<Rightarrow> None
      | Some (handle, pool1) \<Rightarrow>
          (let r = Prepare limits
                     \<lparr> m_setLayout = descriptorSetLayout, m_bufferInfos = bufferInfos,
                       m_imageInfos = imageInfos, m_setHandle = handle,
                       m_writeDescriptorSets = [], m_updatedBindings = Map.empty \<rparr>
           in Some (fst r, pool1, snd r)))"

definition Reset_set ::
  "device_limits \<Rightarrow> DescriptorSet \<Rightarrow> VkDescriptorBufferInfo BindingMap \<Rightarrow>
     VkDescriptorImageInfo BindingMap \<Rightarrow> DescriptorSet \<times> diagnostic list" where
  "Reset_set limits ds newBufferInfos newImageInfos =
     (let ds1 = (if newBufferInfos \<noteq> [] \<or> newImageInfos \<noteq> []
                 then ds\<lparr> m_bufferInfos := newBufferInfos, m_imageInfos := newImageInfos \<rparr> else ds);
          logs1 = (if newBufferInfos \<noteq> [] \<or> newImageInfos \<noteq> [] then [] else [LOGW_reset_without_infos]);
          r = Prepare limits (ds1\<lparr> m_writeDescriptorSets := [], m_updatedBindings := Map.empty \<rparr>)
      in (fst r, logs1 @ snd r))"

text \<open>
  What a write-descriptor entry points to, and the entry as the driver and the hasher read
  it: its fields together with the info behind the pointer.
\<close>

datatype descriptor_info = BufferInfo VkDescriptorBufferInfo | ImageInfo VkDescriptorImageInfo

definition lookup2 :: "'a BindingMap \<Rightarrow> nat \<Rightarrow> nat \<Rightarrow> 'a option" where
  "lookup2 m b e = (case map_of m b of None \<Rightarrow> None | Some array \<Rightarrow> map_of array e)"

fun deref :: "DescriptorSet \<Rightarrow> info_ptr \<Rightarrow> descriptor_info option" where
  "deref ds (pBufferInfo b e) = map_option BufferInfo (lookup2 (m_bufferInfos ds) b e)"
| "deref ds (pImageInfo b e) = map_option ImageInfo (lookup2 (m_imageInfos ds) b e)"

type_synonym write_entry = "VkWriteDescriptorSet \<times> descriptor_info option"

definition entry_of :: "DescriptorSet \<Rightarrow> VkWriteDescriptorSet \<Rightarrow> write_entry" where
  "entry_of ds w = (w, deref ds (pInfo w))"

text \<open>
  \<open>Update\<close>.  \<open>hash_param\<close> over a \<open>VkWriteDescriptorSet\<close> is defined in
  common/resource_caching.h, which is not among the sources: it is the argument
  \<open>hash_param\<close>, a function of the entry as read through its pointer.  The result is the
  set and the batched calls made to \<open>vkUpdateDescriptorSets\<close> (none or one), each the list of
  entries it was given.
\<close>

definition needs_write :: "(write_entry \<Rightarrow> nat) \<Rightarrow> DescriptorSet \<Rightarrow> VkWriteDescriptorSet \<Rightarrow> bool" where
  "needs_write hash_param ds writeOperation =
     (case m_updatedBindings ds (dstBinding writeOperation) of
        None \<Rightarrow> True
      | Some applied \<Rightarrow> applied \<noteq> hash_param (entry_of ds writeOperation))"

definition Update ::
  "(write_entry \<Rightarrow> nat) \<Rightarrow> DescriptorSet \<Rightarrow> nat list \<Rightarrow> DescriptorSet \<times> write_entry list list" where
  "Update hash_param ds bindingsToUpdate =
     (let writeOperations =
            (if bindingsToUpdate = []
             then filter (needs_write hash_param ds) (m_writeDescriptorSets ds)
             else filter (\<lambda>w. dstBinding w \<in> set bindingsToUpdate \<and> needs_write hash_param ds w)
                         (m_writeDescriptorSets ds))
      in (ds\<lparr> m_updatedBindings :=
                fold (\<lambda>w m. m(dstBinding w \<mapsto> hash_param (entry_of ds w))) writeOperations
                     (m_updatedBindings ds) \<rparr>,
          if writeOperations \<noteq> [] then [map (entry_of ds) writeOperations] else []))"

definition ApplyWrites :: "DescriptorSet \<Rightarrow> write_entry list list" where
  "ApplyWrites ds = [map (entry_of ds) (m_writeDescriptorSets ds)]"

text \<open>
  The entries \<open>Update\<close> is to send, in the words of its description: the candidates (all
  entries when \<open>bindingsToUpdate\<close> is empty, otherwise those whose binding is listed) whose
  binding has no applied hash or whose hash differs from the applied one.
\<close>

definition sent_by_Update :: "(write_entry \<Rightarrow> nat) \<Rightarrow> DescriptorSet \<Rightarrow> nat list \<Rightarrow> VkWriteDescriptorSet list" where
  "sent_by_Update hash_param ds bindingsToUpdate =
     filter (\<lambda>w. (bindingsToUpdate = [] \<or> dstBinding w \<in> set bindingsToUpdate) \<and>
                 (m_updatedBindings ds (dstBinding w) = None \<or>
                  m_updatedBindings ds (dstBinding w) \<noteq> Some (hash_param (entry_of ds w))))
            (m_writeDescriptorSets ds)"

text \<open>
  Modelled from the spec: the content hasher (common/resource_caching.h is not among the
  sources), "a deterministic, order-sensitive combination of a value's structural fields into
  a fixed-width key", here over the fields of a write-descriptor entry and of the info it
  points to, in 64 bits.  The theorems about \<open>Update\<close> hold for every hash function; this
  one is used to run \<open>Update\<close> on concrete sets.
\<close>

definition descriptor_type_number :: "VkDescriptorType \<Rightarrow> nat" where
  "descriptor_type_number t = (case t of
       VK_DESCRIPTOR_TYPE_SAMPLER \<Rightarrow> 0
     | VK_DESCRIPTOR_TYPE_COMBINED_IMAGE_SAMPLER \<Rightarrow> 1
     | VK_DESCRIPTOR_TYPE_SAMPLED_IMAGE \<Rightarrow> 2
     | VK_DESCRIPTOR_TYPE_STORAGE_IMAGE \<Rightarrow> 3
     | VK_DESCRIPTOR_TYPE_UNIFORM_TEXEL_BUFFER \<Rightarrow> 4
     | VK_DESCRIPTOR_TYPE_STORAGE_TEXEL_BUFFER \<Rightarrow> 5
     | VK_DESCRIPTOR_TYPE_UNIFORM_BUFFER \<Rightarrow> 6
     | VK_DESCRIPTOR_TYPE_STORAGE_BUFFER \<Rightarrow> 7
     | VK_DESCRIPTOR_TYPE_UNIFORM_BUFFER_DYNAMIC \<Rightarrow> 8
     | VK_DESCRIPTOR_TYPE_STORAGE_BUFFER_DYNAMIC \<Rightarrow> 9
     | VK_DESCRIPTOR_TYPE_INPUT_ATTACHMENT \<Rightarrow> 10)"

fun info_fields :: "descriptor_info option \<Rightarrow> nat list" where
  "info_fields None = []"
| "info_fields (Some (BufferInfo i)) = [bi_buffer i, bi_offset i, bi_range i]"
| "info_fields (Some (ImageInfo i)) = [ii_sampler i, ii_imageView i, ii_imageLayout i]"

definition hash_fields :: "nat list \<Rightarrow> nat" where
  "hash_fields vs = fold (\<lambda>v seed. (seed * 31 + v + 1) mod 2 ^ 64) vs 0"

definition content_hash :: "write_entry \<Rightarrow> nat" where
  "content_hash entry =
     hash_fields ([dstSet (fst entry), dstBinding (fst entry), dstArrayElement (fst entry),
                   descriptorCount (fst entry), descriptor_type_number (descriptorType (fst entry))]
                  @ info_fields (snd entry))"

text \<open>The buffer info \<open>Prepare\<close> stores back for an element of binding \<open>b\<close>.\<close>

definition clip_info :: "device_limits \<Rightarrow> DescriptorSet \<Rightarrow> nat \<Rightarrow> VkDescriptorBufferInfo \<Rightarrow> VkDescriptorBufferInfo" where
  "clip_info limits ds b info = 
     (case GetLayoutBinding (m_setLayout ds) b of None \<Rightarrow> info
      | Some bi \<Rightarrow> info\<lparr> bi_range := fst (clip_buffer_range limits (m_setIndex (m_setLayout ds)) b (lb_descriptorType bi) (bi_range info)) \<rparr>)"

section \<open>Resource record (ResourceRecord.cpp)\<close>

text \<open>
  \<open>write\<close> (common/helpers.h) is not among the sources, so the byte layout of the stream is
  not modelled: an entry is the tag and the values one \<open>Register\<close> function passes to
  \<open>write\<close>, in its order, and stands for the bytes written for them.  \<open>Attachment\<close>,
  \<open>LoadStoreInfo\<close> and the state structs of \<open>PipelineState\<close> are plain data, kept as the list
  of their fields.  Pointers to cached objects are addresses, natural numbers.
\<close>

datatype ResourceType = ShaderModule | PipelineLayout | RenderPass | GraphicsPipeline

record ShaderVariant =
  preamble :: string
  processes :: "string list"

record SubpassInfo =
  input_attachments :: "nat list"
  output_attachments :: "nat list"

record pipeline_fields =
  subpass_index :: nat
  specialization_constant_state :: "(nat \<times> nat list) list"
  vertex_attributes :: "nat list list"
  vertex_bindings :: "nat list list"
  input_assembly_state :: "nat list"
  rasterization_state :: "nat list"
  viewport_state :: "nat list"
  multisample_state :: "nat list"
  depth_stencil_state :: "nat list"
  logic_op :: nat
  logic_op_enable :: bool
  color_blend_attachments :: "nat list list"

record PipelineState =
  pipeline_layout :: nat
  render_pass :: nat
  state_fields :: pipeline_fields

datatype log_entry =
    ShaderModuleEntry nat string string string "string list"
  | PipelineLayoutEntry "nat list"
  | RenderPassEntry "nat list list" "nat list list" "(nat list \<times> nat list) list"
  | GraphicsPipelineEntry nat nat pipeline_fields

fun entry_tag :: "log_entry \<Rightarrow> ResourceType" where
  "entry_tag (ShaderModuleEntry stage source entryPoint pre procs) = ShaderModule"
| "entry_tag (PipelineLayoutEntry shaderIndices) = PipelineLayout"
| "entry_tag (RenderPassEntry attachments loadStoreInfos subpasses) = RenderPass"
| "entry_tag (GraphicsPipelineEntry layoutIndex passIndex pipelineFields) = GraphicsPipeline"

text \<open>
  The content of the stream and of the byte vectors \<open>GetData\<close> returns and \<open>SetData\<close> takes:
  \<open>Entries es\<close> is the bytes of the entries \<open>es\<close>, one after the other; \<open>Overwritten es old\<close>
  is the bytes \<open>old\<close> with the bytes of \<open>es\<close> written over them from the first byte on (and
  past their end, when they are longer).  \<open>m_stream\<close> is a \<open>std::ostringstream\<close> in its default
  mode: a write puts its bytes at the put position, which is the end of what was written
  so far, and \<open>str(s)\<close> replaces the content by \<open>s\<close> and leaves the put position at its
  start.  \<open>entries_of\<close> reads the entries back where the bytes are those of whole entries;
  \<open>None\<close> is a content whose division into entries depends on the byte layout.
\<close>

datatype bytes = Entries "log_entry list" | Overwritten "log_entry list" bytes

fun write_stream :: "bytes \<Rightarrow> log_entry \<Rightarrow> bytes" where
  "write_stream (Entries es) e = Entries (es @ [e])"
| "write_stream (Overwritten es old) e = Overwritten (es @ [e]) old"

fun entries_of :: "bytes \<Rightarrow> log_entry list option" where
  "entries_of (Entries es) = Some es"
| "entries_of (Overwritten es old) =
     (if es = [] then entries_of old
      else if entries_of old = Some [] then Some es
      else None)"

record ResourceRecord =
  m_stream :: bytes
  m_shaderModuleIndices :: "nat list"
  m_pipelineLayoutIndices :: "nat list"
  m_renderPassIndices :: "nat list"
  m_graphicsPipelineIndices :: "nat list"
  m_shaderModuleToIndex :: "nat \<rightharpoonup> nat"
  m_pipelineLayoutToIndex :: "nat \<rightharpoonup> nat"
  m_renderPassToIndex :: "nat \<rightharpoonup> nat"
  m_graphicsPipelineToIndex :: "nat \<rightharpoonup> nat"

definition new_ResourceRecord :: ResourceRecord where
  "new_ResourceRecord =
     \<lparr> m_stream = Entries [], m_shaderModuleIndices = [], m_pipelineLayoutIndices = [],
       m_renderPassIndices = [], m_graphicsPipelineIndices = [],
       m_shaderModuleToIndex = Map.empty, m_pipelineLayoutToIndex = Map.empty,
       m_renderPassToIndex = Map.empty, m_graphicsPipelineToIndex = Map.empty \<rparr>"

definition SetData :: "ResourceRecord \<Rightarrow> bytes \<Rightarrow> ResourceRecord" where
  "SetData r data = r\<lparr> m_stream := Overwritten [] data \<rparr>"

definition GetData :: "ResourceRecord \<Rightarrow> bytes" where
  "GetData r = m_stream r"

text \<open>
  The \<open>Register\<close> functions return the recorder as they leave it and either the index or
  the exception they throw.  \<open>std::transform\<close> with \<open>m_shaderModuleToIndex.at\<close> throws at the
  first pointer that is not in the table, after the index vector has grown.
\<close>

definition RegisterShaderModule ::
  "ResourceRecord \<Rightarrow> nat \<Rightarrow> string \<Rightarrow> string \<Rightarrow> ShaderVariant \<Rightarrow> ResourceRecord \<times> (exn + nat)" where
  "RegisterShaderModule r stage glslSource entryPoint shaderVariant =
     (let r1 = r\<lparr> m_shaderModuleIndices := m_shaderModuleIndices r @ [length (m_shaderModuleIndices r)] \<rparr>;
          r2 = r1\<lparr> m_stream := write_stream (m_stream r1)
                  (ShaderModuleEntry stage glslSource entryPoint (preamble shaderVariant)
                     (processes shaderVariant)) \<rparr>
      in (r2, Inr (last (m_shaderModuleIndices r2))))"

fun transform_at :: "(nat \<rightharpoonup> nat) \<Rightarrow> nat list \<Rightarrow> nat list option" where
  "transform_at table [] = Some []"
| "transform_at table (p # ps) =
     (case table p of
        None \<Rightarrow> None
      | Some i \<Rightarrow> (case transform_at table ps of None \<Rightarrow> None | Some is \<Rightarrow> Some (i # is)))"

definition RegisterPipelineLayout ::
  "ResourceRecord \<Rightarrow> nat list \<Rightarrow> ResourceRecord \<times> (exn + nat)" where
  "RegisterPipelineLayout r shaderModules =
     (let r1 = r\<lparr> m_pipelineLayoutIndices :=
                     m_pipelineLayoutIndices r @ [length (m_pipelineLayoutIndices r)] \<rparr>
      in case transform_at (m_shaderModuleToIndex r1) shaderModules of
           None \<Rightarrow> (r1, Inl OutOfRange)
         | Some shaderIndices \<Rightarrow>
             (let r2 = r1\<lparr> m_stream := write_stream (m_stream r1) (PipelineLayoutEntry shaderIndices) \<rparr>
              in (r2, Inr (last (m_pipelineLayoutIndices r2)))))"

definition RegisterRenderPass ::
  "ResourceRecord \<Rightarrow> nat list list \<Rightarrow> nat list list \<Rightarrow> SubpassInfo list \<Rightarrow>
     ResourceRecord \<times> (exn + nat)" where
  "RegisterRenderPass r attachments loadStoreInfos subpasses =
     (let r1 = r\<lparr> m_renderPassIndices := m_renderPassIndices r @ [length (m_renderPassIndices r)] \<rparr>;
          r2 = r1\<lparr> m_stream := write_stream (m_stream r1)
                  (RenderPassEntry attachments loadStoreInfos
                     (map (\<lambda>item. (input_attachments item, output_attachments item)) subpasses)) \<rparr>
      in (r2, Inr (last (m_renderPassIndices r2))))"

definition RegisterGraphicsPipeline ::
  "ResourceRecord \<Rightarrow> nat \<Rightarrow> PipelineState \<Rightarrow> ResourceRecord \<times> (exn + nat)" where
  "RegisterGraphicsPipeline r pipelineCache pipelineState =
     (let r1 = r\<lparr> m_graphicsPipelineIndices :=
                     m_graphicsPipelineIndices r @ [length (m_graphicsPipelineIndices r)] \<rparr>
      in case m_pipelineLayoutToIndex r1 (pipeline_layout pipelineState) of
           None \<Rightarrow> (r1, Inl OutOfRange)
         | Some layoutIndex \<Rightarrow>
             (case m_renderPassToIndex r1 (render_pass pipelineState) of
                None \<Rightarrow> (r1, Inl OutOfRange)
              | Some passIndex \<Rightarrow>
                  (let r2 = r1\<lparr> m_stream := write_stream (m_stream r1)
                              (GraphicsPipelineEntry layoutIndex passIndex (state_fields pipelineState)) \<rparr>
                   in (r2, Inr (last (m_graphicsPipelineIndices r2))))))"

definition SetShaderModule :: "ResourceRecord \<Rightarrow> nat \<Rightarrow> nat \<Rightarrow> ResourceRecord" where
  "SetShaderModule r index shaderModule =
     r\<lparr> m_shaderModuleToIndex := (m_shaderModuleToIndex r)(shaderModule \<mapsto> index) \<rparr>"

definition SetPipelineLayout :: "ResourceRecord \<Rightarrow> nat \<Rightarrow> nat \<Rightarrow> ResourceRecord" where
  "SetPipelineLayout r index pipelineLayout =
     r\<lparr> m_pipelineLayoutToIndex := (m_pipelineLayoutToIndex r)(pipelineLayout \<mapsto> index) \<rparr>"

definition SetRenderPass :: "ResourceRecord \<Rightarrow> nat \<Rightarrow> nat \<Rightarrow> ResourceRecord" where
  "SetRenderPass r index renderPass =
     r\<lparr> m_renderPassToIndex := (m_renderPassToIndex r)(renderPass \<mapsto> index) \<rparr>"

definition SetGraphicsPipeline :: "ResourceRecord \<Rightarrow> nat \<Rightarrow> nat \<Rightarrow> ResourceRecord" where
  "SetGraphicsPipeline r index graphicsPipeline =
     r\<lparr> m_graphicsPipelineToIndex := (m_graphicsPipelineToIndex r)(graphicsPipeline \<mapsto> index) \<rparr>"

text \<open>
  A caller's use of the recorder, one call after another; a call that throws leaves the
  recorder as it was at the throw.
\<close>

datatype record_call =
    CallRegisterShaderModule nat string string ShaderVariant
  | CallRegisterPipelineLayout "nat list"
  | CallRegisterRenderPass "nat list list" "nat list list" "SubpassInfo list"
  | CallRegisterGraphicsPipeline nat PipelineState
  | CallSetShaderModule nat nat
  | CallSetPipelineLayout nat nat
  | CallSetRenderPass nat nat
  | CallSetGraphicsPipeline nat nat
  | CallSetData bytes

fun do_call :: "ResourceRecord \<Rightarrow> record_call \<Rightarrow> ResourceRecord" where
  "do_call r (CallRegisterShaderModule stage source entryPoint variant) =
     fst (RegisterShaderModule r stage source entryPoint variant)"
| "do_call r (CallRegisterPipelineLayout shaderModules) = fst (RegisterPipelineLayout r shaderModules)"
| "do_call r (CallRegisterRenderPass attachments loadStoreInfos subpasses) =
     fst (RegisterRenderPass r attachments loadStoreInfos subpasses)"
| "do_call r (CallRegisterGraphicsPipeline pipelineCache pipelineState) =
     fst (RegisterGraphicsPipeline r pipelineCache pipelineState)"
| "do_call r (CallSetShaderModule index p) = SetShaderModule r index p"
| "do_call r (CallSetPipelineLayout index p) = SetPipelineLayout r index p"
| "do_call r (CallSetRenderPass index p) = SetRenderPass r index p"
| "do_call r (CallSetGraphicsPipeline index p) = SetGraphicsPipeline r index p"
| "do_call r (CallSetData data) = SetData r data"

definition do_calls :: "record_call list \<Rightarrow> ResourceRecord" where
  "do_calls calls = foldl do_call new_ResourceRecord calls"

fun registers :: "ResourceType \<Rightarrow> record_call \<Rightarrow> bool" where
  "registers t (CallRegisterShaderModule stage source entryPoint variant) = (t = ShaderModule)"
| "registers t (CallRegisterPipelineLayout shaderModules) = (t = PipelineLayout)"
| "registers t (CallRegisterRenderPass attachments loadStoreInfos subpasses) = (t = RenderPass)"
| "registers t (CallRegisterGraphicsPipeline pipelineCache pipelineState) = (t = GraphicsPipeline)"
| "registers t other = False"

text \<open>
  Whether a call returns (the two \<open>Register\<close> functions that look pointers up throw for a
  pointer that is not in the table), whether every call of a list returns when made one
  after the other, and whether a call replaces the content of the stream.
\<close>

fun returns :: "ResourceRecord \<Rightarrow> record_call \<Rightarrow> bool" where
  "returns r (CallRegisterPipelineLayout shaderModules) =
     (transform_at (m_shaderModuleToIndex r) shaderModules \<noteq> None)"
| "returns r (CallRegisterGraphicsPipeline pipelineCache pipelineState) =
     (m_pipelineLayoutToIndex r (pipeline_layout pipelineState) \<noteq> None \<and>
      m_renderPassToIndex r (render_pass pipelineState) \<noteq> None)"
| "returns r other = True"

fun all_return :: "ResourceRecord \<Rightarrow> record_call list \<Rightarrow> bool" where
  "all_return r [] = True"
| "all_return r (c # cs) = (returns r c \<and> all_return (do_call r c) cs)"

fun sets_data :: "record_call \<Rightarrow> bool" where
  "sets_data (CallSetData data) = True"
| "sets_data other = False"

section \<open>Resource cache (ResourceCache.h, ResourceCache.cpp)\<close>

text \<open>
  The classes \<open>ShaderModule\<close>, \<open>PipelineLayout\<close>, \<open>RenderPass\<close>, \<open>GraphicsPipeline\<close>,
  \<open>ComputePipeline\<close> and \<open>Framebuffer\<close> are not among the sources.  Modelled from the spec:
  the collaborator build contract, "for each resource kind, a pure function
  \<open>build(device, args...) -> T\<close>", so an object of these classes is the arguments it was
  built from.  Every \<open>std::unordered_map<std::size_t, T>\<close> is an association list in the
  container's iteration order, with distinct keys.
\<close>

datatype built =
    BuiltShaderModule nat string string ShaderVariant
  | BuiltPipelineLayout "nat list"
  | BuiltRenderPass "nat list list" "nat list list" "SubpassInfo list"
  | BuiltGraphicsPipeline nat PipelineState
  | BuiltComputePipeline nat PipelineState
  | BuiltFramebuffer "nat list" nat

record ResourceCacheState =
  shader_modules :: "(nat \<times> built) list"
  pipeline_layouts :: "(nat \<times> built) list"
  descriptor_set_layouts :: "(nat \<times> DescriptorSetLayout) list"
  descriptor_pools :: "(nat \<times> DescriptorPool) list"
  render_passes :: "(nat \<times> built) list"
  graphics_pipelines :: "(nat \<times> built) list"
  compute_pipelines :: "(nat \<times> built) list"
  descriptor_sets :: "(nat \<times> DescriptorSet) list"
  framebuffers :: "(nat \<times> built) list"

definition empty_state :: ResourceCacheState where
  "empty_state =
     \<lparr> shader_modules = [], pipeline_layouts = [], descriptor_set_layouts = [],
       descriptor_pools = [], render_passes = [], graphics_pipelines = [],
       compute_pipelines = [], descriptor_sets = [], framebuffers = [] \<rparr>"

definition ClearPipelines :: "ResourceCacheState \<Rightarrow> ResourceCacheState" where
  "ClearPipelines s = s\<lparr> graphics_pipelines := [], compute_pipelines := [] \<rparr>"

definition ClearFramebuffers :: "ResourceCacheState \<Rightarrow> ResourceCacheState" where
  "ClearFramebuffers s = s\<lparr> framebuffers := [] \<rparr>"

definition Clear :: "ResourceCacheState \<Rightarrow> ResourceCacheState" where
  "Clear s =
     ClearFramebuffers (ClearPipelines
       (s\<lparr> shader_modules := [], pipeline_layouts := [], descriptor_sets := [],
           descriptor_set_layouts := [], render_passes := [] \<rparr>))"

subsection \<open>UpdateDescriptorSets\<close>








definition map_views :: "(nat \<Rightarrow> nat) \<Rightarrow> DescriptorSet \<Rightarrow> DescriptorSet" where
  "map_views f ds =
     ds\<lparr> m_imageInfos :=
          map (\<lambda>bindingIt. (fst bindingIt,
                 map (\<lambda>element. (fst element, (snd element)\<lparr> ii_imageView := f (ii_imageView (snd element)) \<rparr>))
                     (snd bindingIt)))
              (m_imageInfos ds) \<rparr>"




text \<open>
  What the loop over the pairs does to one image view: each pair in turn replaces the view
  when it equals the pair's old view.  \<open>image_write\<close> is the write the innermost loop pushes
  for array element \<open>e\<close> of binding \<open>b\<close> of a set whose layout knows the binding as \<open>bi\<close>.
\<close>

definition swap1 :: "nat \<Rightarrow> nat \<Rightarrow> nat \<Rightarrow> nat" where
  "swap1 oldView newView v = (if v = oldView then newView else v)"

definition seq_view :: "(nat \<times> nat) list \<Rightarrow> nat \<Rightarrow> nat" where
  "seq_view pairs v = fold (\<lambda>views. swap1 (fst views) (snd views)) pairs v"

definition image_write :: "DescriptorSet \<Rightarrow> nat \<Rightarrow> nat \<Rightarrow> VkDescriptorSetLayoutBinding \<Rightarrow> VkWriteDescriptorSet" where
  "image_write ds b e bi =
     \<lparr> dstSet = m_setHandle ds, dstBinding = b, dstArrayElement = e, descriptorCount = 1,
       descriptorType = lb_descriptorType bi, pInfo = pImageInfo b e \<rparr>"







subsection \<open>The mutexes of the request operations\<close>

text \<open>
  The eight \<open>std::mutex\<close> members of \<open>ResourceCache\<close>, the nine maps of its state, and for
  each public request operation what it does with them: \<open>RequestResource\<close> takes the mutex
  it is given (\<open>std::lock_guard\<close>), looks the object up or builds and inserts it in the map
  it is given (\<open>request_resource\<close>), and releases the mutex on return.
\<close>

datatype mutex =
    m_descriptorSetMutex | m_pipelineLayoutMutex | m_shaderModuleMutex
  | m_descriptorSetLayoutMutex | m_graphicsPipelineMutex | m_renderPassMutex
  | m_computePipelineMutex | m_framebufferMutex

datatype resource_kind =
    KindShaderModule | KindPipelineLayout | KindDescriptorSetLayout | KindDescriptorPool
  | KindDescriptorSet | KindRenderPass | KindGraphicsPipeline | KindComputePipeline
  | KindFramebuffer

datatype lock_event = Acquire mutex | Release mutex | LookupOrBuildAndInsert resource_kind

definition RequestResource_events :: "mutex \<Rightarrow> resource_kind \<Rightarrow> lock_event list" where
  "RequestResource_events resourceMutex resources =
     [Acquire resourceMutex, LookupOrBuildAndInsert resources, Release resourceMutex]"

datatype request_operation =
    RequestShaderModule | RequestPipelineLayout | RequestDescriptorSetLayout
  | RequestGraphicsPipeline | RequestComputePipeline | RequestDescriptorSet
  | RequestRenderPass | RequestFramebuffer

fun request_events :: "request_operation \<Rightarrow> lock_event list" where
  "request_events RequestShaderModule = RequestResource_events m_shaderModuleMutex KindShaderModule"
| "request_events RequestPipelineLayout = RequestResource_events m_pipelineLayoutMutex KindPipelineLayout"
| "request_events RequestDescriptorSetLayout =
     RequestResource_events m_descriptorSetLayoutMutex KindDescriptorSetLayout"
| "request_events RequestGraphicsPipeline =
     RequestResource_events m_graphicsPipelineMutex KindGraphicsPipeline"
| "request_events RequestComputePipeline =
     RequestResource_events m_computePipelineMutex KindComputePipeline"
| "request_events RequestDescriptorSet =
     RequestResource_events m_descriptorSetMutex KindDescriptorPool @
     RequestResource_events m_descriptorSetMutex KindDescriptorSet"
| "request_events RequestRenderPass = RequestResource_events m_renderPassMutex KindRenderPass"
| "request_events RequestFramebuffer = RequestResource_events m_framebufferMutex KindFramebuffer"

definition all_request_operations :: "request_operation list" where
  "all_request_operations =
     [RequestShaderModule, RequestPipelineLayout, RequestDescriptorSetLayout,
      RequestGraphicsPipeline, RequestComputePipeline, RequestDescriptorSet,
      RequestRenderPass, RequestFramebuffer]"

text \<open>
  The mutexes held at each access to a map, reading a thread's events from the left, and
  the mutexes under which the request operations access the map of a kind.
\<close>

fun held_at_access :: "mutex list \<Rightarrow> lock_event list \<Rightarrow> (resource_kind \<times> mutex list) list" where
  "held_at_access held [] = []"
| "held_at_access held (Acquire m # es) = held_at_access (m # held) es"
| "held_at_access held (Release m # es) = held_at_access (remove1 m held) es"
| "held_at_access held (LookupOrBuildAndInsert k # es) = (k, held) # held_at_access held es"

definition guards :: "resource_kind \<Rightarrow> mutex list list" where
  "guards k =
     map snd (filter (\<lambda>a. fst a = k)
                (concat (map (\<lambda>operation. held_at_access [] (request_events operation))
                             all_request_operations)))"

text \<open>
  The mutex each request operation passes to \<open>RequestResource\<close> together with the map of a
  kind.
\<close>

fun mutex_of :: "resource_kind \<Rightarrow> mutex" where
  "mutex_of KindShaderModule = m_shaderModuleMutex"
| "mutex_of KindPipelineLayout = m_pipelineLayoutMutex"
| "mutex_of KindDescriptorSetLayout = m_descriptorSetLayoutMutex"
| "mutex_of KindDescriptorPool = m_descriptorSetMutex"
| "mutex_of KindDescriptorSet = m_descriptorSetMutex"
| "mutex_of KindRenderPass = m_renderPassMutex"
| "mutex_of KindGraphicsPipeline = m_graphicsPipelineMutex"
| "mutex_of KindComputePipeline = m_computePipelineMutex"
| "mutex_of KindFramebuffer = m_framebufferMutex"

text \<open>
  Several threads calling the request operations.  A request carries the key of the object
  it asks for in each map.  A thread runs the events of its requests in order.  Taking a
  mutex (\<open>std::lock_guard\<close> in \<open>RequestResource\<close>) is possible only while no thread owns it,
  and the thread owns it until the release at the return of \<open>RequestResource\<close>.  Modelled
  from the spec: inside \<open>request_resource\<close> the thread "looks up the key; on hit, returns
  the existing reference; on miss, constructs \<open>T\<close> [...], inserts it into the kind's map";
  these are separate steps of the thread (\<open>Looking\<close>, \<open>Constructing\<close>, \<open>Inserting\<close>), and the
  steps of the other threads may fall between them.  \<open>run_builds\<close> lists the constructions
  in the order they happen, \<open>run_cached\<close> holds the keys present in the maps.  A schedule
  names the thread that takes each step; a step that the thread cannot take (its events are
  over, or the mutex it asks for is owned) ends the run with \<open>None\<close>.
\<close>

datatype phase = Looking | Constructing | Inserting

definition thread_events ::
  "request_operation \<times> (resource_kind \<Rightarrow> nat) \<Rightarrow> (lock_event \<times> nat) list" where
  "thread_events request =
     map (\<lambda>e. (e, case e of LookupOrBuildAndInsert k \<Rightarrow> snd request k | other \<Rightarrow> 0))
         (request_events (fst request))"

definition program :: "(request_operation \<times> (resource_kind \<Rightarrow> nat)) list \<Rightarrow> (lock_event \<times> nat) list" where
  "program requests = concat (map thread_events requests)"

record cache_run =
  run_threads :: "((lock_event \<times> nat) list \<times> phase) list"
  run_owner :: "mutex \<Rightarrow> nat option"
  run_cached :: "(resource_kind \<times> nat) set"
  run_builds :: "(resource_kind \<times> nat) list"

definition start :: "(lock_event \<times> nat) list list \<Rightarrow> (resource_kind \<times> nat) set \<Rightarrow> cache_run" where
  "start programs c0 =
     \<lparr> run_threads = map (\<lambda>events. (events, Looking)) programs, run_owner = (\<lambda>m. None),
       run_cached = c0, run_builds = [] \<rparr>"

fun step_event ::
  "nat \<Rightarrow> cache_run \<Rightarrow> lock_event \<times> nat \<Rightarrow> (lock_event \<times> nat) list \<Rightarrow> phase \<Rightarrow> cache_run option" where
  "step_event t s (Acquire m, x) es ph =
     (if run_owner s m = None
      then Some (s\<lparr> run_threads := (run_threads s)[t := (es, Looking)],
                     run_owner := (run_owner s)(m \<mapsto> t) \<rparr>)
      else None)"
| "step_event t s (Release m, x) es ph =
     (if run_owner s m = Some t
      then Some (s\<lparr> run_threads := (run_threads s)[t := (es, Looking)],
                     run_owner := (run_owner s)(m := None) \<rparr>)
      else None)"
| "step_event t s (LookupOrBuildAndInsert k, key) es Looking =
     (if (k, key) \<in> run_cached s
      then Some (s\<lparr> run_threads := (run_threads s)[t := (es, Looking)] \<rparr>)
      else Some (s\<lparr> run_threads :=
                       (run_threads s)[t := ((LookupOrBuildAndInsert k, key) # es, Constructing)] \<rparr>))"
| "step_event t s (LookupOrBuildAndInsert k, key) es Constructing =
     Some (s\<lparr> run_threads := (run_threads s)[t := ((LookupOrBuildAndInsert k, key) # es, Inserting)],
               run_builds := run_builds s @ [(k, key)] \<rparr>)"
| "step_event t s (LookupOrBuildAndInsert k, key) es Inserting =
     Some (s\<lparr> run_threads := (run_threads s)[t := (es, Looking)],
               run_cached := insert (k, key) (run_cached s) \<rparr>)"

definition step_thread :: "nat \<Rightarrow> cache_run \<Rightarrow> cache_run option" where
  "step_thread t s =
     (if t < length (run_threads s) then
        (case fst (run_threads s ! t) of
           [] \<Rightarrow> None
         | e # es \<Rightarrow> step_event t s e es (snd (run_threads s ! t)))
      else None)"

fun run_schedule :: "nat list \<Rightarrow> cache_run \<Rightarrow> cache_run option" where
  "run_schedule [] s = Some s"
| "run_schedule (t # ts) s =
     (case step_thread t s of None \<Rightarrow> None | Some s1 \<Rightarrow> run_schedule ts s1)"

definition accessing :: "cache_run \<Rightarrow> nat \<Rightarrow> resource_kind option" where
  "accessing s t =
     (if t < length (run_threads s) then
        (case fst (run_threads s ! t) of
           (LookupOrBuildAndInsert k, key) # es \<Rightarrow> Some k
         | other \<Rightarrow> None)
      else None)"

text \<open>
  What holds in every state of a run: each thread is at a place of its events where the
  mutex it owns is the one its next event needs, a thread past its lookup is at a key that
  is not in the map, and every construction is either in the map or in the hands of the
  thread that is about to insert it.
\<close>

fun expects :: "(lock_event \<times> nat) list \<Rightarrow> mutex option" where
  "expects [] = None"
| "expects ((Acquire m, x) # es) = None"
| "expects ((Release m, x) # es) = Some m"
| "expects ((LookupOrBuildAndInsert k, x) # es) = Some (mutex_of k)"

fun follows_protocol :: "mutex option \<Rightarrow> (lock_event \<times> nat) list \<Rightarrow> bool" where
  "follows_protocol held [] = (held = None)"
| "follows_protocol held ((Acquire m, x) # es) = (held = None \<and> follows_protocol (Some m) es)"
| "follows_protocol held ((Release m, x) # es) = (held = Some m \<and> follows_protocol None es)"
| "follows_protocol held ((LookupOrBuildAndInsert k, x) # es) =
     (held = Some (mutex_of k) \<and> follows_protocol held es)"

definition thread_inv :: "cache_run \<Rightarrow> nat \<Rightarrow> bool" where
  "thread_inv s t \<longleftrightarrow>
     follows_protocol (expects (fst (run_threads s ! t))) (fst (run_threads s ! t)) \<and>
     (\<forall>m. run_owner s m = Some t \<longleftrightarrow> expects (fst (run_threads s ! t)) = Some m) \<and>
     (snd (run_threads s ! t) \<noteq> Looking \<longrightarrow>
        (\<exists>k key es. fst (run_threads s ! t) = (LookupOrBuildAndInsert k, key) # es \<and>
                    (k, key) \<notin> run_cached s \<and>
                    ((k, key) \<in> set (run_builds s) \<longleftrightarrow> snd (run_threads s ! t) = Inserting)))"

definition run_inv :: "(resource_kind \<times> nat) set \<Rightarrow> cache_run \<Rightarrow> bool" where
  "run_inv c0 s \<longleftrightarrow>
     (\<forall>t < length (run_threads s). thread_inv s t) \<and>
     distinct (run_builds s) \<and> c0 \<subseteq> run_cached s \<and> set (run_builds s) \<inter> c0 = {} \<and>
     (\<forall>b \<in> set (run_builds s).
        b \<in> run_cached s \<or>
        (\<exists>t < length (run_threads s). \<exists>es.
           run_threads s ! t = ((LookupOrBuildAndInsert (fst b), snd b) # es, Inserting)))"

text \<open>
  The mutexes a request operation takes.
\<close>

definition mutexes_of :: "request_operation \<Rightarrow> mutex list" where
  "mutexes_of operation =
     concat (map (\<lambda>e. case e of Acquire m \<Rightarrow> [m] | other \<Rightarrow> []) (request_events operation))"

subsection \<open>Requests, Serialize and Warmup\<close>

text \<open>
  Modelled from the spec: \<open>request_resource\<close> and the hashing (common/resource_caching.h)
  are not among the sources.  "Computes \<open>CacheKey = hash(args...)\<close>; [...] looks up the key;
  on hit, returns the existing reference; on miss, constructs \<open>T\<close> by delegating to the
  kind-specific build logic, inserts it into the kind's map, appends a record to the
  attached recorder (if any) describing the same \<open>args\<close>, and returns a reference to the
  newly inserted object."  The hash of each kind's arguments is a field of \<open>hasher\<close>.  The
  keys being content-addressed, a reference to a cached object is its key in the map of its
  kind.  The record is appended with the \<open>Register\<close> and \<open>Set\<close> functions of the recorder,
  which exist for four kinds; a throw is \<open>Inl\<close> and ends the run of the caller.
\<close>

record hasher =
  hash_shader_module :: "nat \<Rightarrow> string \<Rightarrow> string \<Rightarrow> ShaderVariant \<Rightarrow> nat"
  hash_pipeline_layout :: "nat list \<Rightarrow> nat"
  hash_descriptor_set_layout :: "nat \<Rightarrow> nat list \<Rightarrow> ShaderResource list \<Rightarrow> nat"
  hash_graphics_pipeline :: "nat \<Rightarrow> PipelineState \<Rightarrow> nat"
  hash_compute_pipeline :: "nat \<Rightarrow> PipelineState \<Rightarrow> nat"
  hash_descriptor_pool :: "DescriptorSetLayout \<Rightarrow> nat"
  hash_descriptor_set ::
    "DescriptorSetLayout \<Rightarrow> DescriptorPool \<Rightarrow> VkDescriptorBufferInfo BindingMap \<Rightarrow>
       VkDescriptorImageInfo BindingMap \<Rightarrow> nat"
  hash_render_pass :: "nat list list \<Rightarrow> nat list list \<Rightarrow> SubpassInfo list \<Rightarrow> nat"
  hash_framebuffer :: "nat list \<Rightarrow> nat \<Rightarrow> nat"

definition request_resource ::
  "ResourceRecord \<Rightarrow> (nat \<times> 'a) list \<Rightarrow> nat \<Rightarrow> exn + 'a \<Rightarrow>
     (ResourceRecord \<Rightarrow> nat \<Rightarrow> exn + ResourceRecord) \<Rightarrow>
     exn + ResourceRecord \<times> (nat \<times> 'a) list \<times> nat" where
  "request_resource recorder resources key build record_helper =
     (case map_of resources key of
        Some resource \<Rightarrow> Inr (recorder, resources, key)
      | None \<Rightarrow>
          (case build of
             Inl e \<Rightarrow> Inl e
           | Inr resource \<Rightarrow>
               (case record_helper recorder key of
                  Inl e \<Rightarrow> Inl e
                | Inr recorder1 \<Rightarrow> Inr (recorder1, emplace key resource resources, key))))"

definition record_index ::
  "ResourceRecord \<times> (exn + nat) \<Rightarrow> (ResourceRecord \<Rightarrow> nat \<Rightarrow> nat \<Rightarrow> ResourceRecord) \<Rightarrow> nat \<Rightarrow>
     exn + ResourceRecord" where
  "record_index registered set_index resource =
     (case snd registered of
        Inl e \<Rightarrow> Inl e
      | Inr index \<Rightarrow> Inr (set_index (fst registered) index resource))"

definition no_record :: "ResourceRecord \<Rightarrow> nat \<Rightarrow> exn + ResourceRecord" where
  "no_record recorder resource = Inr recorder"

text \<open>
  The cache: its state, its recorder and the pipeline cache handle.  The request
  operations of ResourceCache.cpp pass the map of the kind and the arguments to
  \<open>request_resource\<close>; they return the cache and the reference to the object.
\<close>

record ResourceCache =
  m_state :: ResourceCacheState
  m_recorder :: ResourceRecord
  m_pipelineCache :: nat

definition new_ResourceCache :: ResourceCache where
  "new_ResourceCache =
     \<lparr> m_state = empty_state, m_recorder = new_ResourceRecord, m_pipelineCache = VK_NULL_HANDLE \<rparr>"

definition Serialize :: "ResourceCache \<Rightarrow> bytes" where
  "Serialize c = GetData (m_recorder c)"

definition SetPipelineCache :: "ResourceCache \<Rightarrow> nat \<Rightarrow> ResourceCache" where
  "SetPipelineCache c newPipelineCache = c\<lparr> m_pipelineCache := newPipelineCache \<rparr>"

definition ResourceCache_RequestShaderModule ::
  "hasher \<Rightarrow> ResourceCache \<Rightarrow> nat \<Rightarrow> string \<Rightarrow> ShaderVariant \<Rightarrow> exn + ResourceCache \<times> nat" where
  "ResourceCache_RequestShaderModule h c stage glslSource shaderVariant =
     (let entryPoint = ''main'' in
      case request_resource (m_recorder c) (shader_modules (m_state c))
             (hash_shader_module h stage glslSource entryPoint shaderVariant)
             (Inr (BuiltShaderModule stage glslSource entryPoint shaderVariant))
             (\<lambda>recorder. record_index
                (RegisterShaderModule recorder stage glslSource entryPoint shaderVariant)
                SetShaderModule) of
        Inl e \<Rightarrow> Inl e
      | Inr res \<Rightarrow>
          Inr (c\<lparr> m_recorder := fst res,
                  m_state := (m_state c)\<lparr> shader_modules := fst (snd res) \<rparr> \<rparr>, snd (snd res)))"

definition ResourceCache_RequestPipelineLayout ::
  "hasher \<Rightarrow> ResourceCache \<Rightarrow> nat list \<Rightarrow> exn + ResourceCache \<times> nat" where
  "ResourceCache_RequestPipelineLayout h c shaderModules =
     (case request_resource (m_recorder c) (pipeline_layouts (m_state c))
             (hash_pipeline_layout h shaderModules)
             (Inr (BuiltPipelineLayout shaderModules))
             (\<lambda>recorder. record_index (RegisterPipelineLayout recorder shaderModules) SetPipelineLayout) of
        Inl e \<Rightarrow> Inl e
      | Inr res \<Rightarrow>
          Inr (c\<lparr> m_recorder := fst res,
                  m_state := (m_state c)\<lparr> pipeline_layouts := fst (snd res) \<rparr> \<rparr>, snd (snd res)))"

definition ResourceCache_RequestDescriptorSetLayout ::
  "hasher \<Rightarrow> ResourceCache \<Rightarrow> VkResult \<times> nat \<Rightarrow> nat \<Rightarrow> nat list \<Rightarrow> ShaderResource list \<Rightarrow>
     exn + ResourceCache \<times> nat" where
  "ResourceCache_RequestDescriptorSetLayout h c created setIndex shaderModules setResources =
     (case request_resource (m_recorder c) (descriptor_set_layouts (m_state c))
             (hash_descriptor_set_layout h setIndex shaderModules setResources)
             (map_sum (\<lambda>e. e) fst (DescriptorSetLayout_ctor created setIndex shaderModules setResources))
             no_record of
        Inl e \<Rightarrow> Inl e
      | Inr res \<Rightarrow>
          Inr (c\<lparr> m_recorder := fst res,
                  m_state := (m_state c)\<lparr> descriptor_set_layouts := fst (snd res) \<rparr> \<rparr>, snd (snd res)))"

definition ResourceCache_RequestGraphicsPipeline ::
  "hasher \<Rightarrow> ResourceCache \<Rightarrow> PipelineState \<Rightarrow> exn + ResourceCache \<times> nat" where
  "ResourceCache_RequestGraphicsPipeline h c pipelineState =
     (case request_resource (m_recorder c) (graphics_pipelines (m_state c))
             (hash_graphics_pipeline h (m_pipelineCache c) pipelineState)
             (Inr (BuiltGraphicsPipeline (m_pipelineCache c) pipelineState))
             (\<lambda>recorder. record_index
                (RegisterGraphicsPipeline recorder (m_pipelineCache c) pipelineState)
                SetGraphicsPipeline) of
        Inl e \<Rightarrow> Inl e
      | Inr res \<Rightarrow>
          Inr (c\<lparr> m_recorder := fst res,
                  m_state := (m_state c)\<lparr> graphics_pipelines := fst (snd res) \<rparr> \<rparr>, snd (snd res)))"

definition ResourceCache_RequestComputePipeline ::
  "hasher \<Rightarrow> ResourceCache \<Rightarrow> PipelineState \<Rightarrow> exn + ResourceCache \<times> nat" where
  "ResourceCache_RequestComputePipeline h c pipelineState =
     (case request_resource (m_recorder c) (compute_pipelines (m_state c))
             (hash_compute_pipeline h (m_pipelineCache c) pipelineState)
             (Inr (BuiltComputePipeline (m_pipelineCache c) pipelineState))
             no_record of
        Inl e \<Rightarrow> Inl e
      | Inr res \<Rightarrow>
          Inr (c\<lparr> m_recorder := fst res,
                  m_state := (m_state c)\<lparr> compute_pipelines := fst (snd res) \<rparr> \<rparr>, snd (snd res)))"

text \<open>
  \<open>RequestDescriptorSet\<close> requests the pool of the layout, then the set.  The set's
  constructor allocates from the pool it is given, the one in the map: when the set is
  built, the pool in the map is the pool after the allocation.  The pool's out-of-range
  access ends the run like a throw.
\<close>

definition ResourceCache_RequestDescriptorSet ::
  "hasher \<Rightarrow> ResourceCache \<Rightarrow> device_limits \<Rightarrow> driver_reply \<Rightarrow> DescriptorSetLayout \<Rightarrow>
     VkDescriptorBufferInfo BindingMap \<Rightarrow> VkDescriptorImageInfo BindingMap \<Rightarrow>
     exn + ResourceCache \<times> nat" where
  "ResourceCache_RequestDescriptorSet h c limits d descriptorSetLayout bufferInfos imageInfos =
     (case request_resource (m_recorder c) (descriptor_pools (m_state c))
             (hash_descriptor_pool h descriptorSetLayout)
             (Inr (DescriptorPool_ctor descriptorSetLayout MAX_SETS_PER_POOL))
             no_record of
        Inl e \<Rightarrow> Inl e
      | Inr pool_res \<Rightarrow>
          (case map_of (fst (snd pool_res)) (snd (snd pool_res)) of
             None \<Rightarrow> Inl OutOfRange
           | Some descriptorPool \<Rightarrow>
               (let key = hash_descriptor_set h descriptorSetLayout descriptorPool bufferInfos imageInfos;
                    built = DescriptorSet_ctor limits d descriptorSetLayout descriptorPool
                              bufferInfos imageInfos;
                    hit = (map_of (descriptor_sets (m_state c)) key \<noteq> None)
                in case request_resource (fst pool_res) (descriptor_sets (m_state c)) key
                          (case built of None \<Rightarrow> Inl OutOfRange | Some b \<Rightarrow> Inr (fst b))
                          no_record of
                     Inl e \<Rightarrow> Inl e
                   | Inr res \<Rightarrow>
                       Inr (c\<lparr> m_recorder := fst res,
                               m_state := (m_state c)
                                 \<lparr> descriptor_pools :=
                                     (case built of
                                        Some b \<Rightarrow>
                                          if hit then fst (snd pool_res)
                                          else map (\<lambda>entry. if fst entry = snd (snd pool_res)
                                                            then (fst entry, fst (snd b)) else entry)
                                                   (fst (snd pool_res))
                                      | None \<Rightarrow> fst (snd pool_res)),
                                   descriptor_sets := fst (snd res) \<rparr> \<rparr>,
                            snd (snd res)))))"

definition ResourceCache_RequestRenderPass ::
  "hasher \<Rightarrow> ResourceCache \<Rightarrow> nat list list \<Rightarrow> nat list list \<Rightarrow> SubpassInfo list \<Rightarrow>
     exn + ResourceCache \<times> nat" where
  "ResourceCache_RequestRenderPass h c attachments loadStoreInfos subpasses =
     (case request_resource (m_recorder c) (render_passes (m_state c))
             (hash_render_pass h attachments loadStoreInfos subpasses)
             (Inr (BuiltRenderPass attachments loadStoreInfos subpasses))
             (\<lambda>recorder. record_index
                (RegisterRenderPass recorder attachments loadStoreInfos subpasses) SetRenderPass) of
        Inl e \<Rightarrow> Inl e
      | Inr res \<Rightarrow>
          Inr (c\<lparr> m_recorder := fst res,
                  m_state := (m_state c)\<lparr> render_passes := fst (snd res) \<rparr> \<rparr>, snd (snd res)))"

definition ResourceCache_RequestFramebuffer ::
  "hasher \<Rightarrow> ResourceCache \<Rightarrow> nat list \<Rightarrow> nat \<Rightarrow> exn + ResourceCache \<times> nat" where
  "ResourceCache_RequestFramebuffer h c renderTarget renderPass =
     (case request_resource (m_recorder c) (framebuffers (m_state c))
             (hash_framebuffer h renderTarget renderPass)
             (Inr (BuiltFramebuffer renderTarget renderPass))
             no_record of
        Inl e \<Rightarrow> Inl e
      | Inr res \<Rightarrow>
          Inr (c\<lparr> m_recorder := fst res,
                  m_state := (m_state c)\<lparr> framebuffers := fst (snd res) \<rparr> \<rparr>, snd (snd res)))"

text \<open>
  A run of request operations on a cache: each request with its arguments and, where the
  constructor asks the driver, the driver's answers.
\<close>

datatype request =
    ShaderModuleRequest nat string ShaderVariant
  | PipelineLayoutRequest "nat list"
  | DescriptorSetLayoutRequest "VkResult \<times> nat" nat "nat list" "ShaderResource list"
  | GraphicsPipelineRequest PipelineState
  | ComputePipelineRequest PipelineState
  | DescriptorSetRequest device_limits driver_reply DescriptorSetLayout
      "VkDescriptorBufferInfo BindingMap" "VkDescriptorImageInfo BindingMap"
  | RenderPassRequest "nat list list" "nat list list" "SubpassInfo list"
  | FramebufferRequest "nat list" nat

fun do_request :: "hasher \<Rightarrow> ResourceCache \<Rightarrow> request \<Rightarrow> exn + ResourceCache \<times> nat" where
  "do_request h c (ShaderModuleRequest stage glslSource shaderVariant) =
     ResourceCache_RequestShaderModule h c stage glslSource shaderVariant"
| "do_request h c (PipelineLayoutRequest shaderModules) =
     ResourceCache_RequestPipelineLayout h c shaderModules"
| "do_request h c (DescriptorSetLayoutRequest created setIndex shaderModules setResources) =
     ResourceCache_RequestDescriptorSetLayout h c created setIndex shaderModules setResources"
| "do_request h c (GraphicsPipelineRequest pipelineState) =
     ResourceCache_RequestGraphicsPipeline h c pipelineState"
| "do_request h c (ComputePipelineRequest pipelineState) =
     ResourceCache_RequestComputePipeline h c pipelineState"
| "do_request h c (DescriptorSetRequest limits d descriptorSetLayout bufferInfos imageInfos) =
     ResourceCache_RequestDescriptorSet h c limits d descriptorSetLayout bufferInfos imageInfos"
| "do_request h c (RenderPassRequest attachments loadStoreInfos subpasses) =
     ResourceCache_RequestRenderPass h c attachments loadStoreInfos subpasses"
| "do_request h c (FramebufferRequest renderTarget renderPass) =
     ResourceCache_RequestFramebuffer h c renderTarget renderPass"

fun do_requests :: "hasher \<Rightarrow> ResourceCache \<Rightarrow> request list \<Rightarrow> exn + ResourceCache" where
  "do_requests h c [] = Inr c"
| "do_requests h c (r # rs) =
     (case do_request h c r of
        Inl e \<Rightarrow> Inl e
      | Inr res \<Rightarrow> do_requests h (fst res) rs)"

text \<open>
  Modelled from the spec: Resource Replay (resource_replay.h is not among the sources).
  "Replay iterates the log in order and, for each entry, invokes the corresponding
  \<open>request\<close> operation on a target cache"; an entry of a composite kind names the objects it
  depends on by their indices, so the replay keeps, for each kind, the objects its requests
  returned, in the order of the log.  An index with no object is \<open>OutOfRange\<close>.
\<close>

record ResourceReplay =
  replayed_shader_modules :: "nat list"
  replayed_pipeline_layouts :: "nat list"
  replayed_render_passes :: "nat list"
  replayed_graphics_pipelines :: "nat list"

definition new_ResourceReplay :: ResourceReplay where
  "new_ResourceReplay =
     \<lparr> replayed_shader_modules = [], replayed_pipeline_layouts = [], replayed_render_passes = [], replayed_graphics_pipelines = [] \<rparr>"

fun play_entry ::
  "hasher \<Rightarrow> ResourceCache \<times> ResourceReplay \<Rightarrow> log_entry \<Rightarrow> exn + ResourceCache \<times> ResourceReplay" where
  "play_entry h st (ShaderModuleEntry stage glslSource entryPoint pre procs) =
     (case ResourceCache_RequestShaderModule h (fst st) stage glslSource
             \<lparr> preamble = pre, processes = procs \<rparr> of
        Inl e \<Rightarrow> Inl e
      | Inr res \<Rightarrow>
          Inr (fst res, (snd st)\<lparr> replayed_shader_modules := replayed_shader_modules (snd st) @ [snd res] \<rparr>))"
| "play_entry h st (PipelineLayoutEntry shaderIndices) =
     (if list_all (\<lambda>i. i < length (replayed_shader_modules (snd st))) shaderIndices then
        (case ResourceCache_RequestPipelineLayout h (fst st)
                (map (\<lambda>i. replayed_shader_modules (snd st) ! i) shaderIndices) of
           Inl e \<Rightarrow> Inl e
         | Inr res \<Rightarrow>
             Inr (fst res, (snd st)\<lparr> replayed_pipeline_layouts := replayed_pipeline_layouts (snd st) @ [snd res] \<rparr>))
      else Inl OutOfRange)"
| "play_entry h st (RenderPassEntry attachments loadStoreInfos subpasses) =
     (case ResourceCache_RequestRenderPass h (fst st) attachments loadStoreInfos
             (map (\<lambda>item. \<lparr> input_attachments = fst item, output_attachments = snd item \<rparr>) subpasses) of
        Inl e \<Rightarrow> Inl e
      | Inr res \<Rightarrow>
          Inr (fst res, (snd st)\<lparr> replayed_render_passes := replayed_render_passes (snd st) @ [snd res] \<rparr>))"
| "play_entry h st (GraphicsPipelineEntry layoutIndex passIndex pipelineFields) =
     (if layoutIndex < length (replayed_pipeline_layouts (snd st)) \<and>
         passIndex < length (replayed_render_passes (snd st)) then
        (case ResourceCache_RequestGraphicsPipeline h (fst st)
                \<lparr> pipeline_layout = replayed_pipeline_layouts (snd st) ! layoutIndex,
                  render_pass = replayed_render_passes (snd st) ! passIndex,
                  state_fields = pipelineFields \<rparr> of
           Inl e \<Rightarrow> Inl e
         | Inr res \<Rightarrow>
             Inr (fst res,
                  (snd st)\<lparr> replayed_graphics_pipelines := replayed_graphics_pipelines (snd st) @ [snd res] \<rparr>))
      else Inl OutOfRange)"

fun play_entries ::
  "hasher \<Rightarrow> ResourceCache \<times> ResourceReplay \<Rightarrow> log_entry list \<Rightarrow> exn + ResourceCache \<times> ResourceReplay" where
  "play_entries h st [] = Inr st"
| "play_entries h st (e # es) =
     (case play_entry h st e of
        Inl x \<Rightarrow> Inl x
      | Inr st1 \<Rightarrow> play_entries h st1 es)"

text \<open>
  \<open>Warmup\<close>: the data is given to the recorder and the recorder's stream is replayed into
  the cache.  The replay reads the entries of the stream as it is when the replay starts;
  the requests it makes write to the same recorder.  \<open>None\<close> is a stream that \<open>entries_of\<close>
  cannot read.
\<close>

definition Warmup :: "hasher \<Rightarrow> ResourceCache \<Rightarrow> bytes \<Rightarrow> (exn + ResourceCache) option" where
  "Warmup h c data =
     (let c1 = c\<lparr> m_recorder := SetData (m_recorder c) data \<rparr>
      in case entries_of (GetData (m_recorder c1)) of
           None \<Rightarrow> None
         | Some entries \<Rightarrow>
             Some (case play_entries h (c1, new_ResourceReplay) entries of
                     Inl e \<Rightarrow> Inl e
                   | Inr st \<Rightarrow> Inr (fst st)))"

text \<open>
  The keys of the cache, kind by kind, and the kinds the recorder has \<open>Register\<close> functions
  for.
\<close>

definition recorded_kinds :: "resource_kind set" where
  "recorded_kinds = {KindShaderModule, KindPipelineLayout, KindRenderPass, KindGraphicsPipeline}"

fun cache_keys :: "ResourceCacheState \<Rightarrow> resource_kind \<Rightarrow> nat set" where
  "cache_keys s KindShaderModule = fst ` set (shader_modules s)"
| "cache_keys s KindPipelineLayout = fst ` set (pipeline_layouts s)"
| "cache_keys s KindDescriptorSetLayout = fst ` set (descriptor_set_layouts s)"
| "cache_keys s KindDescriptorPool = fst ` set (descriptor_pools s)"
| "cache_keys s KindDescriptorSet = fst ` set (descriptor_sets s)"
| "cache_keys s KindRenderPass = fst ` set (render_passes s)"
| "cache_keys s KindGraphicsPipeline = fst ` set (graphics_pipelines s)"
| "cache_keys s KindComputePipeline = fst ` set (compute_pipelines s)"
| "cache_keys s KindFramebuffer = fst ` set (framebuffers s)"

text \<open>
  What a replay of the log of a live cache keeps true, entry after entry: the maps of the
  recorded kinds and the pipeline cache handle of the target are those of the live cache,
  and the target holds nothing of the other kinds (\<open>same_recorded\<close>); the object the live
  recorder registered under an index is the object the replay holds at that index
  (\<open>table_agrees\<close>); and the target's recorder knows every object the replay holds
  (\<open>known_objects\<close>).  \<open>recorded_part\<close> is what these depend on in the live cache.
\<close>

definition same_recorded :: "ResourceCache \<Rightarrow> ResourceCache \<Rightarrow> bool" where
  "same_recorded live warm \<longleftrightarrow>
     shader_modules (m_state warm) = shader_modules (m_state live) \<and>
     pipeline_layouts (m_state warm) = pipeline_layouts (m_state live) \<and>
     render_passes (m_state warm) = render_passes (m_state live) \<and>
     graphics_pipelines (m_state warm) = graphics_pipelines (m_state live) \<and>
     m_pipelineCache warm = m_pipelineCache live \<and>
     descriptor_set_layouts (m_state warm) = [] \<and> descriptor_pools (m_state warm) = [] \<and>
     descriptor_sets (m_state warm) = [] \<and> compute_pipelines (m_state warm) = [] \<and>
     framebuffers (m_state warm) = []"

definition table_agrees :: "(nat \<rightharpoonup> nat) \<Rightarrow> nat list \<Rightarrow> nat list \<Rightarrow> bool" where
  "table_agrees table indices objects \<longleftrightarrow>
     length objects = length indices \<and>
     (\<forall>p i. table p = Some i \<longrightarrow> i < length objects \<and> objects ! i = p)"

definition known_objects :: "(nat \<rightharpoonup> nat) \<Rightarrow> nat list \<Rightarrow> bool" where
  "known_objects table objects \<longleftrightarrow> (\<forall>p \<in> set objects. table p \<noteq> None)"

definition replay_inv :: "ResourceCache \<Rightarrow> ResourceCache \<times> ResourceReplay \<Rightarrow> bool" where
  "replay_inv live st \<longleftrightarrow>
     same_recorded live (fst st) \<and>
     table_agrees (m_shaderModuleToIndex (m_recorder live)) (m_shaderModuleIndices (m_recorder live))
       (replayed_shader_modules (snd st)) \<and>
     table_agrees (m_pipelineLayoutToIndex (m_recorder live)) (m_pipelineLayoutIndices (m_recorder live))
       (replayed_pipeline_layouts (snd st)) \<and>
     table_agrees (m_renderPassToIndex (m_recorder live)) (m_renderPassIndices (m_recorder live))
       (replayed_render_passes (snd st)) \<and>
     known_objects (m_shaderModuleToIndex (m_recorder (fst st))) (replayed_shader_modules (snd st)) \<and>
     known_objects (m_pipelineLayoutToIndex (m_recorder (fst st))) (replayed_pipeline_layouts (snd st)) \<and>
     known_objects (m_renderPassToIndex (m_recorder (fst st))) (replayed_render_passes (snd st))"

definition recorded_part ::
  "ResourceCache \<Rightarrow> ResourceRecord \<times> nat \<times> (nat \<times> built) list \<times> (nat \<times> built) list \<times>
     (nat \<times> built) list \<times> (nat \<times> built) list" where
  "recorded_part c =
     (m_recorder c, m_pipelineCache c, shader_modules (m_state c), pipeline_layouts (m_state c),
      render_passes (m_state c), graphics_pipelines (m_state c))"

subsection \<open>A small pool used to run the operations\<close>

definition example_layout :: DescriptorSetLayout where
  "example_layout =
     \<lparr> m_handle = 50, m_setIndex = 0,
       m_bindings = [\<lparr> lb_binding = 0, lb_descriptorType = VK_DESCRIPTOR_TYPE_UNIFORM_BUFFER,
                       lb_descriptorCount = 1, lb_stageFlags = 1 \<rparr>],
       m_bindingFlags = [0],
       m_bindingsLookup = [(0, \<lparr> lb_binding = 0, lb_descriptorType = VK_DESCRIPTOR_TYPE_UNIFORM_BUFFER,
                       lb_descriptorCount = 1, lb_stageFlags = 1 \<rparr>)],
       m_bindingFlagsLookup = [(0, 0)], m_resourcesLookup = [(''ubo'', 0)], m_shaderModules = [] \<rparr>"

definition example_replies :: "driver_reply list" where
  "example_replies =
     [\<lparr> create_reply = (VK_SUCCESS, 100), allocate_reply = (VK_SUCCESS, 1) \<rparr>,
      \<lparr> create_reply = (VK_SUCCESS, 101), allocate_reply = (VK_SUCCESS, 2) \<rparr>,
      \<lparr> create_reply = (VK_SUCCESS, 102), allocate_reply = (VK_SUCCESS, 3) \<rparr>]"

definition example_pool :: DescriptorPool where
  "example_pool =
     \<lparr> m_device = [], m_descriptorSetLayout = example_layout, m_poolSizes = [],
       m_poolMaxSets = 2, m_pools = [100, 102], m_poolSetsCount = [2, 1], m_poolIndex = 1,
       m_setPoolMapping = [1 \<mapsto> 0, 2 \<mapsto> 0, 3 \<mapsto> 1] \<rparr>"


definition example_resource :: "ShaderResourceType \<Rightarrow> ShaderResourceMode \<Rightarrow> nat \<Rightarrow> string \<Rightarrow> ShaderResource" where
  "example_resource t m b n =
     \<lparr> sr_stages = 1, sr_type = t, sr_mode = m, sr_binding = b, sr_array_size = 1, sr_name = n \<rparr>"

definition conflicting_resources :: "ShaderResource list" where
  "conflicting_resources =
     [example_resource ImageSampler UpdateAfterBind 0 ''tex'',
      example_resource BufferUniform Dynamic 1 ''ubo'']"

definition static_resources :: "ShaderResource list" where
  "static_resources =
     [example_resource PushConstant Static 0 ''pc'',
      example_resource BufferUniform Static 0 ''ubo'']"


subsection \<open>A descriptor set used to run the operations\<close>

definition example_set_layout :: DescriptorSetLayout where
  "example_set_layout =
     \<lparr> m_handle = 51, m_setIndex = 0,
       m_bindings =
         [\<lparr> lb_binding = 0, lb_descriptorType = VK_DESCRIPTOR_TYPE_UNIFORM_BUFFER,
             lb_descriptorCount = 1, lb_stageFlags = 1 \<rparr>,
          \<lparr> lb_binding = 1, lb_descriptorType = VK_DESCRIPTOR_TYPE_STORAGE_BUFFER,
             lb_descriptorCount = 1, lb_stageFlags = 1 \<rparr>,
          \<lparr> lb_binding = 2, lb_descriptorType = VK_DESCRIPTOR_TYPE_COMBINED_IMAGE_SAMPLER,
             lb_descriptorCount = 2, lb_stageFlags = 16 \<rparr>],
       m_bindingFlags = [0, 0, 0],
       m_bindingsLookup =
         [(0, \<lparr> lb_binding = 0, lb_descriptorType = VK_DESCRIPTOR_TYPE_UNIFORM_BUFFER,
                 lb_descriptorCount = 1, lb_stageFlags = 1 \<rparr>),
          (1, \<lparr> lb_binding = 1, lb_descriptorType = VK_DESCRIPTOR_TYPE_STORAGE_BUFFER,
                 lb_descriptorCount = 1, lb_stageFlags = 1 \<rparr>),
          (2, \<lparr> lb_binding = 2, lb_descriptorType = VK_DESCRIPTOR_TYPE_COMBINED_IMAGE_SAMPLER,
                 lb_descriptorCount = 2, lb_stageFlags = 16 \<rparr>)],
       m_bindingFlagsLookup = [(0, 0), (1, 0), (2, 0)],
       m_resourcesLookup = [(''ubo'', 0), (''ssbo'', 1), (''tex'', 2)], m_shaderModules = [] \<rparr>"

definition example_limits :: device_limits where
  "example_limits = \<lparr> maxUniformBufferRange = 65536, maxStorageBufferRange = 134217728 \<rparr>"

definition example_buffer_infos :: "VkDescriptorBufferInfo BindingMap" where
  "example_buffer_infos =
     [(0, [(0, \<lparr> bi_buffer = 21, bi_offset = 0, bi_range = 70000 \<rparr>)]),
      (1, [(0, \<lparr> bi_buffer = 22, bi_offset = 0, bi_range = 200000000 \<rparr>)]),
      (7, [(0, \<lparr> bi_buffer = 23, bi_offset = 0, bi_range = 16 \<rparr>)])]"

definition example_image_infos :: "VkDescriptorImageInfo BindingMap" where
  "example_image_infos =
     [(2, [(0, \<lparr> ii_sampler = 31, ii_imageView = 11, ii_imageLayout = 5 \<rparr>),
           (1, \<lparr> ii_sampler = 31, ii_imageView = 12, ii_imageLayout = 5 \<rparr>)]),
      (9, [(0, \<lparr> ii_sampler = 31, ii_imageView = 13, ii_imageLayout = 5 \<rparr>)])]"

definition unprepared_set :: DescriptorSet where
  "unprepared_set =
     \<lparr> m_setLayout = example_set_layout, m_bufferInfos = example_buffer_infos,
       m_imageInfos = example_image_infos, m_setHandle = 1,
       m_writeDescriptorSets = [], m_updatedBindings = Map.empty \<rparr>"

definition array_set :: DescriptorSet where
  "array_set = fst (Prepare example_limits unprepared_set)"

definition plain_set :: DescriptorSet where
  "plain_set =
     fst (Prepare example_limits
            (unprepared_set\<lparr> m_imageInfos :=
               [(2, [(0, \<lparr> ii_sampler = 31, ii_imageView = 11, ii_imageLayout = 5 \<rparr>)])] \<rparr>))"

definition changed_set :: DescriptorSet where
  "changed_set =
     (fst (Update content_hash plain_set []))
       \<lparr> m_bufferInfos :=
           [(0, [(0, \<lparr> bi_buffer = 99, bi_offset = 0, bi_range = 65536 \<rparr>)]),
            (1, [(0, \<lparr> bi_buffer = 22, bi_offset = 0, bi_range = 134217728 \<rparr>)]),
            (7, [(0, \<lparr> bi_buffer = 23, bi_offset = 0, bi_range = 16 \<rparr>)])] \<rparr>"

subsection \<open>A cache of two descriptor sets used to run the view swap\<close>

text \<open>
  \<open>example_set_key\<close> stands for \<open>hash_param\<close> over a layout and the infos of a set: the
  handle of the layout plus the image views.
\<close>

definition example_set_key ::
  "DescriptorSetLayout \<Rightarrow> VkDescriptorBufferInfo BindingMap \<Rightarrow> VkDescriptorImageInfo BindingMap \<Rightarrow> nat" where
  "example_set_key layout bufferInfos imageInfos =
     m_handle layout +
     sum_list (concat (map (\<lambda>bindingIt. map (\<lambda>element. ii_imageView (snd element)) (snd bindingIt)) imageInfos))"



subsection \<open>A recorder session used to run the operations\<close>

definition example_variant :: ShaderVariant where
  "example_variant = \<lparr> preamble = ''#define A'', processes = [''DA''] \<rparr>"

definition example_fields :: pipeline_fields where
  "example_fields =
     \<lparr> subpass_index = 0, specialization_constant_state = [(0, [1, 0, 0, 0])],
       vertex_attributes = [[0, 0, 106, 0]], vertex_bindings = [[0, 12, 0]],
       input_assembly_state = [3, 0], rasterization_state = [0, 0, 0, 2, 1, 0],
       viewport_state = [1, 1], multisample_state = [1, 0, 0, 0, 0, 0],
       depth_stencil_state = [1, 1, 3, 0, 0], logic_op = 0, logic_op_enable = False,
       color_blend_attachments = [[0, 1, 0, 0, 1, 0, 0, 15]] \<rparr>"

definition example_calls :: "record_call list" where
  "example_calls =
     [CallRegisterShaderModule 1 ''void main() {}'' ''main'' example_variant,
      CallSetShaderModule 0 1000,
      CallRegisterShaderModule 16 ''void main() { }'' ''main'' example_variant,
      CallSetShaderModule 1 1001,
      CallRegisterPipelineLayout [1000, 1001],
      CallSetPipelineLayout 0 2000,
      CallRegisterRenderPass [[37, 1, 16, 0]] [[1, 0]] [\<lparr> input_attachments = [], output_attachments = [0] \<rparr>],
      CallSetRenderPass 0 3000]"

subsection \<open>A run of requests used to run the replay\<close>

text \<open>\<open>example_hasher\<close> stands for the hashes of the arguments of each kind.\<close>

definition example_hasher :: hasher where
  "example_hasher =
     \<lparr> hash_shader_module = (\<lambda>stage glslSource entryPoint shaderVariant.
          stage + length glslSource + length entryPoint + length (preamble shaderVariant)),
       hash_pipeline_layout = (\<lambda>shaderModules. sum_list shaderModules),
       hash_descriptor_set_layout = (\<lambda>setIndex shaderModules setResources.
          setIndex + sum_list shaderModules + length setResources),
       hash_graphics_pipeline = (\<lambda>pipelineCache pipelineState.
          pipelineCache + pipeline_layout pipelineState + render_pass pipelineState),
       hash_compute_pipeline = (\<lambda>pipelineCache pipelineState.
          pipelineCache + pipeline_layout pipelineState),
       hash_descriptor_pool = (\<lambda>descriptorSetLayout. m_handle descriptorSetLayout),
       hash_descriptor_set = (\<lambda>descriptorSetLayout descriptorPool bufferInfos imageInfos.
          example_set_key descriptorSetLayout bufferInfos imageInfos),
       hash_render_pass = (\<lambda>attachments loadStoreInfos subpasses.
          length attachments + length loadStoreInfos + length subpasses),
       hash_framebuffer = (\<lambda>renderTarget renderPass. sum_list renderTarget + renderPass) \<rparr>"

definition example_requests :: "request list" where
  "example_requests =
     [ShaderModuleRequest 1 ''void main() {}'' example_variant,
      ShaderModuleRequest 16 ''void main() { }'' example_variant,
      PipelineLayoutRequest [28, 44],
      RenderPassRequest [[37, 1, 16, 0]] [[1, 0]] [\<lparr> input_attachments = [], output_attachments = [0] \<rparr>],
      GraphicsPipelineRequest \<lparr> pipeline_layout = 72, render_pass = 3, state_fields = example_fields \<rparr>,
      ShaderModuleRequest 1 ''void main() {}'' example_variant,
      FramebufferRequest [5, 6] 3]"

subsection \<open>Two threads used to run the request operations\<close>

text \<open>
  Two threads that each request the shader module of key 5.
\<close>

definition example_threads :: "(request_operation \<times> (resource_kind \<Rightarrow> nat)) list list" where
  "example_threads = [[(RequestShaderModule, \<lambda>k. 5)], [(RequestShaderModule, \<lambda>k. 5)]]"


section \<open>Properties of the resource cache\<close>

text \<open>
  C9.  \<open>Clear()\<close> empties the shader-module, pipeline-layout, descriptor-set,
  descriptor-set-layout, render-pass, graphics-pipeline, compute-pipeline and framebuffer
  maps and leaves the descriptor-pool map as it was: every pool cached before is still
  there under its key.
\<close>

theorem Clear_keeps_descriptor_pools:
  "shader_modules (Clear s) = [] \<and> pipeline_layouts (Clear s) = [] \<and>
   descriptor_sets (Clear s) = [] \<and> descriptor_set_layouts (Clear s) = [] \<and>
   render_passes (Clear s) = [] \<and> graphics_pipelines (Clear s) = [] \<and>
   compute_pipelines (Clear s) = [] \<and> framebuffers (Clear s) = [] \<and>
   descriptor_pools (Clear s) = descriptor_pools s \<and>
   map_of (descriptor_pools (Clear s)) key = map_of (descriptor_pools s) key"
  by (simp add: Clear_def ClearPipelines_def ClearFramebuffers_def)

lemma follows_expects: "follows_protocol held es \<Longrightarrow> expects es = held"
  by (induction held es rule: follows_protocol.induct) auto

lemma follows_append:
  "follows_protocol held xs \<Longrightarrow> follows_protocol None ys \<Longrightarrow> follows_protocol held (xs @ ys)"
  by (induction held xs rule: follows_protocol.induct) auto

lemma follows_thread_events: "follows_protocol None (thread_events request)"
  by (cases "fst request") (simp_all add: thread_events_def RequestResource_events_def)

lemma follows_program: "follows_protocol None (program requests)"
proof (induction requests)
  case Nil
  then show ?case by (simp add: program_def)
next
  case (Cons r rs)
  have "follows_protocol None (thread_events r @ program rs)"
    using follows_thread_events [of r] Cons.IH by (rule follows_append)
  then show ?case by (simp add: program_def)
qed

lemma run_inv_start:
  assumes "\<forall>events \<in> set programs. follows_protocol None events"
  shows "run_inv c0 (start programs c0)"
proof -
  have "thread_inv (start programs c0) t" if "t < length programs" for t
  proof -
    have f: "follows_protocol None (programs ! t)"
      using assms that by simp
    from follows_expects [OF f] f show ?thesis
      using that by (simp add: thread_inv_def start_def)
  qed
  then show ?thesis
    by (simp add: run_inv_def start_def)
qed

lemma thread_invD:
  assumes "run_inv c0 s" "t < length (run_threads s)"
  shows "follows_protocol (expects (fst (run_threads s ! t))) (fst (run_threads s ! t))"
    and "\<And>m. run_owner s m = Some t \<longleftrightarrow> expects (fst (run_threads s ! t)) = Some m"
    and "snd (run_threads s ! t) \<noteq> Looking \<Longrightarrow>
         \<exists>k key es. fst (run_threads s ! t) = (LookupOrBuildAndInsert k, key) # es \<and>
                    (k, key) \<notin> run_cached s \<and>
                    ((k, key) \<in> set (run_builds s) \<longleftrightarrow> snd (run_threads s ! t) = Inserting)"
  using assms unfolding run_inv_def thread_inv_def by blast+

lemma run_invD:
  assumes "run_inv c0 s"
  shows "distinct (run_builds s)" and "c0 \<subseteq> run_cached s" and "set (run_builds s) \<inter> c0 = {}"
    and "\<And>b. b \<in> set (run_builds s) \<Longrightarrow> b \<in> run_cached s \<or>
        (\<exists>t < length (run_threads s). \<exists>es.
           run_threads s ! t = ((LookupOrBuildAndInsert (fst b), snd b) # es, Inserting))"
  using assms unfolding run_inv_def by blast+

lemma access_owner:
  assumes "run_inv c0 s" "t < length (run_threads s)"
    and "fst (run_threads s ! t) = (LookupOrBuildAndInsert k, key) # es"
  shows "run_owner s (mutex_of k) = Some t"
  using thread_invD(2) [OF assms(1,2), of "mutex_of k"] assms(3) by simp

lemma access_exclusive:
  assumes "run_inv c0 s" "t < length (run_threads s)" "u < length (run_threads s)"
    and "fst (run_threads s ! t) = (LookupOrBuildAndInsert k, key) # es"
    and "fst (run_threads s ! u) = (LookupOrBuildAndInsert k', key') # es'"
    and "mutex_of k = mutex_of k'"
  shows "t = u"
  using access_owner [OF assms(1,2,4)] access_owner [OF assms(1,3,5)] assms(6) by simp

lemma thread_inv_other:
  assumes old: "thread_inv s u" and ne: "u \<noteq> t"
    and ts: "run_threads s' = (run_threads s)[t := new]"
    and ow: "\<And>m. run_owner s' m = Some u \<longleftrightarrow> run_owner s m = Some u"
    and ca: "\<And>k key es. fst (run_threads s ! u) = (LookupOrBuildAndInsert k, key) # es \<Longrightarrow>
               ((k, key) \<in> run_cached s' \<longleftrightarrow> (k, key) \<in> run_cached s) \<and>
               ((k, key) \<in> set (run_builds s') \<longleftrightarrow> (k, key) \<in> set (run_builds s))"
  shows "thread_inv s' u"
proof -
  have same: "run_threads s' ! u = run_threads s ! u"
    using ne ts by simp
  show ?thesis
    unfolding thread_inv_def same ow
    using old ca unfolding thread_inv_def by blast
qed

lemma builders_kept:
  assumes old: "b \<in> run_cached s \<or>
        (\<exists>u < length (run_threads s). \<exists>es.
           run_threads s ! u = ((LookupOrBuildAndInsert (fst b), snd b) # es, Inserting))"
    and t: "snd (run_threads s ! t) \<noteq> Inserting"
  shows "b \<in> run_cached s \<or>
        (\<exists>u < length ((run_threads s)[t := new]). \<exists>es.
           (run_threads s)[t := new] ! u = ((LookupOrBuildAndInsert (fst b), snd b) # es, Inserting))"
proof (cases "b \<in> run_cached s")
  case True
  then show ?thesis by simp
next
  case False
  with old obtain u es where u: "u < length (run_threads s)"
    and at: "run_threads s ! u = ((LookupOrBuildAndInsert (fst b), snd b) # es, Inserting)"
    by blast
  from at t have "u \<noteq> t" by auto
  with u at have "u < length ((run_threads s)[t := new]) \<and>
     (run_threads s)[t := new] ! u = ((LookupOrBuildAndInsert (fst b), snd b) # es, Inserting)"
    by simp
  then show ?thesis by blast
qed

lemma inv_acquire:
  assumes inv: "run_inv c0 s" and t: "t < length (run_threads s)"
    and th: "run_threads s ! t = ((Acquire m, x) # es, ph)" and free: "run_owner s m = None"
  shows "run_inv c0 (s\<lparr> run_threads := (run_threads s)[t := (es, Looking)],
                         run_owner := (run_owner s)(m \<mapsto> t) \<rparr>)"
    (is "run_inv c0 ?s'")
proof -
  have ph: "ph = Looking"
    using thread_invD(3) [OF inv t] th by auto
  have fol: "follows_protocol (Some m) es"
    using thread_invD(1) [OF inv t] th by simp
  have own: "\<And>m'. run_owner s m' \<noteq> Some t"
    using thread_invD(2) [OF inv t] th by simp
  have "thread_inv ?s' u" if u: "u < length (run_threads s)" for u
  proof (cases "u = t")
    case True
    then show ?thesis
      using fol follows_expects [OF fol] own t by (auto simp: thread_inv_def)
  next
    case False
    have old: "thread_inv s u"
      using inv u by (simp add: run_inv_def)
    show ?thesis
      using False free by (intro thread_inv_other [OF old False, of _ "(es, Looking)"]) auto
  qed
  moreover have "snd (run_threads s ! t) \<noteq> Inserting"
    using th ph by simp
  note builders_kept [OF run_invD(4) [OF inv] this, of _ "(es, Looking)"]
  ultimately show ?thesis
    using run_invD(1-3) [OF inv] by (simp add: run_inv_def)
qed

lemma inv_release:
  assumes inv: "run_inv c0 s" and t: "t < length (run_threads s)"
    and th: "run_threads s ! t = ((Release m, x) # es, ph)" and mine: "run_owner s m = Some t"
  shows "run_inv c0 (s\<lparr> run_threads := (run_threads s)[t := (es, Looking)],
                         run_owner := (run_owner s)(m := None) \<rparr>)"
    (is "run_inv c0 ?s'")
proof -
  have ph: "ph = Looking"
    using thread_invD(3) [OF inv t] th by auto
  have fol: "follows_protocol None es"
    using thread_invD(1) [OF inv t] th by simp
  have own: "\<And>m'. run_owner s m' = Some t \<longleftrightarrow> m' = m"
    using thread_invD(2) [OF inv t] th by auto
  have "thread_inv ?s' u" if u: "u < length (run_threads s)" for u
  proof (cases "u = t")
    case True
    then show ?thesis
      using fol follows_expects [OF fol] own t by (auto simp: thread_inv_def)
  next
    case False
    have old: "thread_inv s u"
      using inv u by (simp add: run_inv_def)
    show ?thesis
      using False mine by (intro thread_inv_other [OF old False, of _ "(es, Looking)"]) auto
  qed
  moreover have "snd (run_threads s ! t) \<noteq> Inserting"
    using th ph by simp
  note builders_kept [OF run_invD(4) [OF inv] this, of _ "(es, Looking)"]
  ultimately show ?thesis
    using run_invD(1-3) [OF inv] by (simp add: run_inv_def)
qed

lemma inv_hit:
  assumes inv: "run_inv c0 s" and t: "t < length (run_threads s)"
    and th: "run_threads s ! t = ((LookupOrBuildAndInsert k, key) # es, Looking)"
  shows "run_inv c0 (s\<lparr> run_threads := (run_threads s)[t := (es, Looking)] \<rparr>)"
    (is "run_inv c0 ?s'")
proof -
  have fol: "follows_protocol (Some (mutex_of k)) es"
    using thread_invD(1) [OF inv t] th by simp
  have own: "\<And>m'. run_owner s m' = Some t \<longleftrightarrow> Some (mutex_of k) = Some m'"
    using thread_invD(2) [OF inv t] th by simp
  have "thread_inv ?s' u" if u: "u < length (run_threads s)" for u
  proof (cases "u = t")
    case True
    then show ?thesis
      using fol follows_expects [OF fol] own t by (simp add: thread_inv_def)
  next
    case False
    have old: "thread_inv s u"
      using inv u by (simp add: run_inv_def)
    show ?thesis
      using False by (intro thread_inv_other [OF old False, of _ "(es, Looking)"]) auto
  qed
  moreover have "snd (run_threads s ! t) \<noteq> Inserting"
    using th by simp
  note builders_kept [OF run_invD(4) [OF inv] this, of _ "(es, Looking)"]
  ultimately show ?thesis
    using run_invD(1-3) [OF inv] by (simp add: run_inv_def)
qed

lemma not_built_while_held:
  assumes inv: "run_inv c0 s" and t: "t < length (run_threads s)"
    and th: "fst (run_threads s ! t) = (LookupOrBuildAndInsert k, key) # es"
    and ph: "snd (run_threads s ! t) \<noteq> Inserting"
    and miss: "(k, key) \<notin> run_cached s"
  shows "(k, key) \<notin> set (run_builds s)"
proof
  assume "(k, key) \<in> set (run_builds s)"
  from run_invD(4) [OF inv this] miss obtain u es' where u: "u < length (run_threads s)"
    and at: "run_threads s ! u = ((LookupOrBuildAndInsert k, key) # es', Inserting)"
    by auto
  have "fst (run_threads s ! u) = (LookupOrBuildAndInsert k, key) # es'"
    using at by simp
  from access_exclusive [OF inv t u th this] have "t = u" by simp
  with at ph show False by simp
qed

lemma inv_miss:
  assumes inv: "run_inv c0 s" and t: "t < length (run_threads s)"
    and th: "run_threads s ! t = ((LookupOrBuildAndInsert k, key) # es, Looking)"
    and miss: "(k, key) \<notin> run_cached s"
  shows "run_inv c0 (s\<lparr> run_threads :=
            (run_threads s)[t := ((LookupOrBuildAndInsert k, key) # es, Constructing)] \<rparr>)"
    (is "run_inv c0 ?s'")
proof -
  have fol: "follows_protocol (Some (mutex_of k)) ((LookupOrBuildAndInsert k, key) # es)"
    using thread_invD(1) [OF inv t] th by simp
  have own: "\<And>m'. run_owner s m' = Some t \<longleftrightarrow> Some (mutex_of k) = Some m'"
    using thread_invD(2) [OF inv t] th by simp
  have nb: "(k, key) \<notin> set (run_builds s)"
    using not_built_while_held [OF inv t _ _ miss] th by simp
  have "thread_inv ?s' u" if u: "u < length (run_threads s)" for u
  proof (cases "u = t")
    case True
    then show ?thesis
      using fol own t miss nb by (simp add: thread_inv_def)
  next
    case False
    have old: "thread_inv s u"
      using inv u by (simp add: run_inv_def)
    show ?thesis
      using False
      by (intro thread_inv_other [OF old False, of _ "((LookupOrBuildAndInsert k, key) # es, Constructing)"]) auto
  qed
  moreover have "snd (run_threads s ! t) \<noteq> Inserting"
    using th by simp
  note builders_kept [OF run_invD(4) [OF inv] this,
      of _ "((LookupOrBuildAndInsert k, key) # es, Constructing)"]
  ultimately show ?thesis
    using run_invD(1-3) [OF inv] by (simp add: run_inv_def)
qed

lemma inv_construct:
  assumes inv: "run_inv c0 s" and t: "t < length (run_threads s)"
    and th: "run_threads s ! t = ((LookupOrBuildAndInsert k, key) # es, Constructing)"
  shows "run_inv c0 (s\<lparr> run_threads :=
            (run_threads s)[t := ((LookupOrBuildAndInsert k, key) # es, Inserting)],
            run_builds := run_builds s @ [(k, key)] \<rparr>)"
    (is "run_inv c0 ?s'")
proof -
  have fol: "follows_protocol (Some (mutex_of k)) ((LookupOrBuildAndInsert k, key) # es)"
    using thread_invD(1) [OF inv t] th by simp
  have own: "\<And>m'. run_owner s m' = Some t \<longleftrightarrow> Some (mutex_of k) = Some m'"
    using thread_invD(2) [OF inv t] th by simp
  have miss: "(k, key) \<notin> run_cached s" and nb: "(k, key) \<notin> set (run_builds s)"
    using thread_invD(3) [OF inv t] th by auto
  have thr0: "thread_inv ?s' u" if u: "u < length (run_threads s)" for u
  proof (cases "u = t")
    case True
    then show ?thesis
      using fol own t miss nb by (simp add: thread_inv_def)
  next
    case False
    have old: "thread_inv s u"
      using inv u by (simp add: run_inv_def)
    have other: "(k', key') \<noteq> (k, key)"
      if "fst (run_threads s ! u) = (LookupOrBuildAndInsert k', key') # es'" for k' key' es'
    proof
      assume "(k', key') = (k, key)"
      with that have "fst (run_threads s ! u) = (LookupOrBuildAndInsert k, key) # es'" by simp
      moreover have "fst (run_threads s ! t) = (LookupOrBuildAndInsert k, key) # es"
        using th by simp
      ultimately have "t = u"
        using access_exclusive [OF inv t u] by blast
      with False show False by simp
    qed
    show ?thesis
      using False other
      by (intro thread_inv_other [OF old False, of _ "((LookupOrBuildAndInsert k, key) # es, Inserting)"]) auto
  qed
  have bk: "b \<in> run_cached s \<or>
        (\<exists>u < length (run_threads s). \<exists>es'.
           (run_threads s)[t := ((LookupOrBuildAndInsert k, key) # es, Inserting)] ! u =
             ((LookupOrBuildAndInsert (fst b), snd b) # es', Inserting))"
    if b: "b \<in> set (run_builds s) \<or> b = (k, key)" for b
  proof (cases "b = (k, key)")
    case True
    then show ?thesis
      using t by (intro disjI2 exI [of _ t]) simp
  next
    case False
    with b have "b \<in> set (run_builds s)" by simp
    moreover have "snd (run_threads s ! t) \<noteq> Inserting"
      using th by simp
    ultimately show ?thesis
      using builders_kept [OF run_invD(4) [OF inv], of b t
          "((LookupOrBuildAndInsert k, key) # es, Inserting)"] by simp
  qed
  have thr: "\<forall>u < length (run_threads ?s'). thread_inv ?s' u"
    using thr0 by simp
  have bld: "\<forall>b \<in> set (run_builds ?s'). b \<in> run_cached ?s' \<or>
        (\<exists>u < length (run_threads ?s'). \<exists>es'.
           run_threads ?s' ! u = ((LookupOrBuildAndInsert (fst b), snd b) # es', Inserting))"
  proof
    fix b
    assume "b \<in> set (run_builds ?s')"
    then have "b \<in> set (run_builds s) \<or> b = (k, key)" by auto
    from bk [OF this] show "b \<in> run_cached ?s' \<or>
        (\<exists>u < length (run_threads ?s'). \<exists>es'.
           run_threads ?s' ! u = ((LookupOrBuildAndInsert (fst b), snd b) # es', Inserting))"
      by simp
  qed
  have "distinct (run_builds ?s')" "c0 \<subseteq> run_cached ?s'" "set (run_builds ?s') \<inter> c0 = {}"
    using run_invD(1-3) [OF inv] miss nb by auto
  with thr bld show ?thesis
    unfolding run_inv_def by (intro conjI)
qed

lemma inv_insert:
  assumes inv: "run_inv c0 s" and t: "t < length (run_threads s)"
    and th: "run_threads s ! t = ((LookupOrBuildAndInsert k, key) # es, Inserting)"
  shows "run_inv c0 (s\<lparr> run_threads := (run_threads s)[t := (es, Looking)],
            run_cached := insert (k, key) (run_cached s) \<rparr>)"
    (is "run_inv c0 ?s'")
proof -
  have fol: "follows_protocol (Some (mutex_of k)) es"
    using thread_invD(1) [OF inv t] th by simp
  have own: "\<And>m'. run_owner s m' = Some t \<longleftrightarrow> Some (mutex_of k) = Some m'"
    using thread_invD(2) [OF inv t] th by simp
  have "thread_inv ?s' u" if u: "u < length (run_threads s)" for u
  proof (cases "u = t")
    case True
    then show ?thesis
      using fol follows_expects [OF fol] own t by (simp add: thread_inv_def)
  next
    case False
    have old: "thread_inv s u"
      using inv u by (simp add: run_inv_def)
    have other: "(k', key') \<noteq> (k, key)"
      if "fst (run_threads s ! u) = (LookupOrBuildAndInsert k', key') # es'" for k' key' es'
    proof
      assume "(k', key') = (k, key)"
      with that have "fst (run_threads s ! u) = (LookupOrBuildAndInsert k, key) # es'" by simp
      moreover have "fst (run_threads s ! t) = (LookupOrBuildAndInsert k, key) # es"
        using th by simp
      ultimately have "t = u"
        using access_exclusive [OF inv t u] by blast
      with False show False by simp
    qed
    show ?thesis
      using False other
      by (intro thread_inv_other [OF old False, of _ "(es, Looking)"]) auto
  qed
  moreover have "b \<in> insert (k, key) (run_cached s) \<or>
        (\<exists>u < length (run_threads s). \<exists>es'.
           (run_threads s)[t := (es, Looking)] ! u =
             ((LookupOrBuildAndInsert (fst b), snd b) # es', Inserting))"
    if b: "b \<in> set (run_builds s)" for b
  proof (cases "b \<in> run_cached s")
    case True
    then show ?thesis by simp
  next
    case False
    with run_invD(4) [OF inv b] obtain u es' where u: "u < length (run_threads s)"
      and at: "run_threads s ! u = ((LookupOrBuildAndInsert (fst b), snd b) # es', Inserting)"
      by blast
    show ?thesis
    proof (cases "u = t")
      case True
      with at th have "b = (k, key)" by (cases b) simp
      then show ?thesis by simp
    next
      case False
      with u at have "u < length (run_threads s) \<and> (run_threads s)[t := (es, Looking)] ! u =
             ((LookupOrBuildAndInsert (fst b), snd b) # es', Inserting)"
        by simp
      then show ?thesis by blast
    qed
  qed
  ultimately show ?thesis
    using run_invD(1-3) [OF inv] by (auto simp: run_inv_def)
qed

lemma step_thread_inv:
  assumes inv: "run_inv c0 s" and st: "step_thread t s = Some s'"
  shows "run_inv c0 s'"
proof -
  from st have t: "t < length (run_threads s)"
    by (simp add: step_thread_def split: if_splits)
  obtain evs ph where th: "run_threads s ! t = (evs, ph)"
    by (cases "run_threads s ! t")
  from st t th obtain e es where evs: "evs = e # es" and ev: "step_event t s e es ph = Some s'"
    by (cases evs) (simp_all add: step_thread_def)
  obtain a x where e: "e = (a, x)" by (cases e)
  show ?thesis
  proof (cases a)
    case (Acquire m)
    with ev e inv_acquire [OF inv t, of m x es ph] th evs show ?thesis
      by (auto split: if_splits)
  next
    case (Release m)
    with ev e inv_release [OF inv t, of m x es ph] th evs show ?thesis
      by (auto split: if_splits)
  next
    case (LookupOrBuildAndInsert k)
    show ?thesis
    proof (cases ph)
      case Looking
      with LookupOrBuildAndInsert ev e inv_hit [OF inv t, of k x es]
        inv_miss [OF inv t, of k x es] th evs show ?thesis
        by (auto split: if_splits)
    next
      case Constructing
      with LookupOrBuildAndInsert ev e inv_construct [OF inv t, of k x es] th evs show ?thesis
        by auto
    next
      case Inserting
      with LookupOrBuildAndInsert ev e inv_insert [OF inv t, of k x es] th evs show ?thesis
        by auto
    qed
  qed
qed

lemma run_schedule_inv:
  "run_inv c0 s \<Longrightarrow> run_schedule schedule s = Some s' \<Longrightarrow> run_inv c0 s'"
proof (induction schedule arbitrary: s)
  case Nil
  then show ?case by simp
next
  case (Cons t ts)
  from Cons.prems(2) obtain s1 where s1: "step_thread t s = Some s1"
    and rest: "run_schedule ts s1 = Some s'"
    by (auto split: option.splits)
  from Cons.IH [OF step_thread_inv [OF Cons.prems(1) s1] rest] show ?case .
qed

lemma guards_mutex_of: "guards k = [[mutex_of k]]"
  by (cases k) (simp_all add: guards_def all_request_operations_def RequestResource_events_def)

lemma thread_events_head:
  "\<exists>k rest. thread_events r = (Acquire (mutex_of k), 0) # (LookupOrBuildAndInsert k, snd r k) # rest \<and>
            mutex_of k \<in> set (mutexes_of (fst r))"
  by (cases "fst r") (simp_all add: thread_events_def RequestResource_events_def mutexes_of_def)

lemma accessing_exclusive:
  assumes inv: "run_inv c0 s" and a: "accessing s t = Some k" and b: "accessing s u = Some k'"
    and m: "mutex_of k = mutex_of k'"
  shows "t = u"
proof -
  from a have t: "t < length (run_threads s)"
    by (simp add: accessing_def split: if_splits)
  from b have u: "u < length (run_threads s)"
    by (simp add: accessing_def split: if_splits)
  from a t obtain key es where "fst (run_threads s ! t) = (LookupOrBuildAndInsert k, key) # es"
    by (auto simp: accessing_def split: list.splits lock_event.splits prod.splits)
  moreover from b u obtain key' es' where "fst (run_threads s ! u) = (LookupOrBuildAndInsert k', key') # es'"
    by (auto simp: accessing_def split: list.splits lock_event.splits prod.splits)
  ultimately show ?thesis
    using access_exclusive [OF inv t u _ _ m] by blast
qed

lemma both_inside:
  assumes "set (mutexes_of (fst a)) \<inter> set (mutexes_of (fst b)) = {}"
  shows "\<exists>s. run_schedule [0, 1] (start [program [a], program [b]] c0) = Some s \<and>
             accessing s 0 \<noteq> None \<and> accessing s 1 \<noteq> None"
proof -
  from thread_events_head [of a] obtain k rest
    where a: "thread_events a = (Acquire (mutex_of k), 0) # (LookupOrBuildAndInsert k, snd a k) # rest"
      and ma: "mutex_of k \<in> set (mutexes_of (fst a))"
    by blast
  from thread_events_head [of b] obtain k' rest'
    where b: "thread_events b = (Acquire (mutex_of k'), 0) # (LookupOrBuildAndInsert k', snd b k') # rest'"
      and mb: "mutex_of k' \<in> set (mutexes_of (fst b))"
    by blast
  from ma mb assms have ne: "mutex_of k' \<noteq> mutex_of k"
    by auto
  show ?thesis
    using ne by (simp add: program_def a b start_def step_thread_def accessing_def)
qed

text \<open>
  C8.  The request operations guard the nine maps with the eight mutexes of the class:
  every kind but the descriptor pool has a mutex of its own, and the descriptor-pool map is
  accessed under the descriptor-set mutex; \<open>RequestDescriptorSet\<close> takes
  \<open>m_descriptorSetMutex\<close> for the pool, releases it, and takes it again for the set.  In
  every run of any number of threads making any requests, under every schedule, no key is
  constructed twice and no key that was in the maps at the start is constructed; two
  different threads are never both inside the lookup-or-construct-and-insert sequences of
  kinds that have the same mutex (one kind, or the descriptor pool and the descriptor
  set); and two requests whose operations take no mutex in common can both be inside their
  sequences at the same time.
\<close>

theorem request_mutexes:
  "guards KindShaderModule = [[m_shaderModuleMutex]] \<and>
   guards KindPipelineLayout = [[m_pipelineLayoutMutex]] \<and>
   guards KindDescriptorSetLayout = [[m_descriptorSetLayoutMutex]] \<and>
   guards KindDescriptorPool = [[m_descriptorSetMutex]] \<and>
   guards KindDescriptorSet = [[m_descriptorSetMutex]] \<and>
   guards KindRenderPass = [[m_renderPassMutex]] \<and>
   guards KindGraphicsPipeline = [[m_graphicsPipelineMutex]] \<and>
   guards KindComputePipeline = [[m_computePipelineMutex]] \<and>
   guards KindFramebuffer = [[m_framebufferMutex]] \<and>
   request_events RequestDescriptorSet =
     [Acquire m_descriptorSetMutex, LookupOrBuildAndInsert KindDescriptorPool, Release m_descriptorSetMutex,
      Acquire m_descriptorSetMutex, LookupOrBuildAndInsert KindDescriptorSet, Release m_descriptorSetMutex] \<and>
   (\<forall>k. guards k = [[mutex_of k]]) \<and>
   (\<forall>requests c0 schedule s.
      run_schedule schedule (start (map program requests) c0) = Some s \<longrightarrow>
        distinct (run_builds s) \<and> set (run_builds s) \<inter> c0 = {} \<and>
        (\<forall>t u k k'. accessing s t = Some k \<and> accessing s u = Some k' \<and> mutex_of k = mutex_of k'
                     \<longrightarrow> t = u)) \<and>
   (\<forall>a b c0. set (mutexes_of (fst a)) \<inter> set (mutexes_of (fst b)) = {} \<longrightarrow>
      (\<exists>s. run_schedule [0, 1] (start [program [a], program [b]] c0) = Some s \<and>
           accessing s 0 \<noteq> None \<and> accessing s 1 \<noteq> None))"
proof -
  have kinds: "\<forall>k. guards k = [[mutex_of k]]"
    using guards_mutex_of by blast
  have runs: "distinct (run_builds s) \<and> set (run_builds s) \<inter> c0 = {} \<and>
        (\<forall>t u k k'. accessing s t = Some k \<and> accessing s u = Some k' \<and> mutex_of k = mutex_of k'
                     \<longrightarrow> t = u)"
    if run: "run_schedule schedule (start (map program requests) c0) = Some s"
    for requests c0 schedule s
  proof -
    have "run_inv c0 (start (map program requests) c0)"
      by (rule run_inv_start) (auto simp: follows_program)
    from run_schedule_inv [OF this run] have inv: "run_inv c0 s" .
    show ?thesis
      using run_invD(1,3) [OF inv] accessing_exclusive [OF inv] by blast
  qed
  have apart: "\<exists>s. run_schedule [0, 1] (start [program [a], program [b]] c0) = Some s \<and>
           accessing s 0 \<noteq> None \<and> accessing s 1 \<noteq> None"
    if "set (mutexes_of (fst a)) \<inter> set (mutexes_of (fst b)) = {}" for a b c0
    using both_inside [OF that] .
  have table: "guards KindShaderModule = [[m_shaderModuleMutex]] \<and>
   guards KindPipelineLayout = [[m_pipelineLayoutMutex]] \<and>
   guards KindDescriptorSetLayout = [[m_descriptorSetLayoutMutex]] \<and>
   guards KindDescriptorPool = [[m_descriptorSetMutex]] \<and>
   guards KindDescriptorSet = [[m_descriptorSetMutex]] \<and>
   guards KindRenderPass = [[m_renderPassMutex]] \<and>
   guards KindGraphicsPipeline = [[m_graphicsPipelineMutex]] \<and>
   guards KindComputePipeline = [[m_computePipelineMutex]] \<and>
   guards KindFramebuffer = [[m_framebufferMutex]] \<and>
   request_events RequestDescriptorSet =
     [Acquire m_descriptorSetMutex, LookupOrBuildAndInsert KindDescriptorPool, Release m_descriptorSetMutex,
      Acquire m_descriptorSetMutex, LookupOrBuildAndInsert KindDescriptorSet, Release m_descriptorSetMutex]"
    by (simp add: guards_def all_request_operations_def RequestResource_events_def)
  from table kinds runs apart show ?thesis
    by (intro conjI allI impI) (simp_all only: , blast+)
qed

theorem request_mutexes_witness:
  "map_option run_builds
     (run_schedule [0, 0, 0, 0, 0, 1, 1, 1] (start (map program example_threads) {})) =
     Some [(KindShaderModule, 5)] \<and>
   (\<exists>s. run_schedule [0, 0, 0, 0, 0, 1, 1, 1] (start (map program example_threads) {}) = Some s \<and>
        distinct (run_builds s) \<and> accessing s 0 = None \<and> accessing s 1 = None) \<and>
   map_option run_builds
     (run_schedule [0, 0, 1] (start (map program example_threads) {})) = None \<and>
   set (mutexes_of RequestShaderModule) \<inter> set (mutexes_of RequestRenderPass) = {} \<and>
   (\<exists>s. run_schedule [0, 1]
          (start [program [(RequestShaderModule, \<lambda>k. 5)], program [(RequestRenderPass, \<lambda>k. 5)]] {}) = Some s \<and>
        accessing s 0 = Some KindShaderModule \<and> accessing s 1 = Some KindRenderPass)"
proof -
  have run: "\<exists>s. run_schedule [0, 0, 0, 0, 0, 1, 1, 1] (start (map program example_threads) {}) = Some s \<and>
      run_builds s = [(KindShaderModule, 5)] \<and> accessing s 0 = None \<and> accessing s 1 = None"
    by (simp add: example_threads_def program_def thread_events_def RequestResource_events_def
        start_def step_thread_def accessing_def)
  then obtain s where s: "run_schedule [0, 0, 0, 0, 0, 1, 1, 1] (start (map program example_threads) {}) = Some s"
    and b: "run_builds s = [(KindShaderModule, 5)]" and a: "accessing s 0 = None" "accessing s 1 = None"
    by blast
  from request_mutexes s have "distinct (run_builds s)"
    by blast
  with s b a have first: "map_option run_builds
     (run_schedule [0, 0, 0, 0, 0, 1, 1, 1] (start (map program example_threads) {})) =
     Some [(KindShaderModule, 5)] \<and>
   (\<exists>s. run_schedule [0, 0, 0, 0, 0, 1, 1, 1] (start (map program example_threads) {}) = Some s \<and>
        distinct (run_builds s) \<and> accessing s 0 = None \<and> accessing s 1 = None)"
    by simp
  have blocked: "map_option run_builds
     (run_schedule [0, 0, 1] (start (map program example_threads) {})) = None"
    by (simp add: example_threads_def program_def thread_events_def RequestResource_events_def
        start_def step_thread_def)
  have apart: "set (mutexes_of RequestShaderModule) \<inter> set (mutexes_of RequestRenderPass) = {}"
    by (simp add: mutexes_of_def RequestResource_events_def)
  have "\<exists>s. run_schedule [0, 1]
          (start [program [(RequestShaderModule, \<lambda>k. 5)], program [(RequestRenderPass, \<lambda>k. 5)]] {}) = Some s \<and>
        accessing s 0 = Some KindShaderModule \<and> accessing s 1 = Some KindRenderPass"
    by (simp add: program_def thread_events_def RequestResource_events_def
        start_def step_thread_def accessing_def)
  with first blocked apart show ?thesis
    by (intro conjI) blast+
qed

text \<open>
  Descriptor-pool requests and descriptor-set requests are not guarded by distinct
  mutexes: the header declares no mutex for the pools, and both maps are accessed under
  \<open>m_descriptorSetMutex\<close>.
\<close>

theorem descriptor_pool_mutex_counterexample:
  "\<not> (set (concat (guards KindDescriptorPool)) \<inter> set (concat (guards KindDescriptorSet)) = {}) \<and>
   guards KindDescriptorPool = guards KindDescriptorSet"
  by (simp add: guards_def all_request_operations_def RequestResource_events_def)

subsection \<open>UpdateDescriptorSets\<close>











lemma seq_view_Nil: "seq_view [] = id"
  by (rule ext) (simp add: seq_view_def)










lemma image_write_map_views [simp]: "image_write (map_views f ds) b e bi = image_write ds b e bi"
  by (simp add: image_write_def map_views_def)





























section \<open>Properties of the descriptor set layout\<close>

lemma add_resources_error:
  "add_resources rs l = Inl e \<Longrightarrow> e = NoConversionPossible"
proof (induction rs arbitrary: l)
  case Nil
  then show ?case by simp
next
  case (Cons r rs)
  show ?case
  proof (cases "no_binding_point r")
    case True
    with Cons show ?thesis by simp
  next
    case False
    show ?thesis
    proof (cases "FindDescriptorType (sr_type r) (sr_mode r = Dynamic)")
      case (Inl e')
      then have "e' = NoConversionPossible"
        by (cases "sr_type r") (auto split: if_splits)
      with Inl False Cons.prems show ?thesis by simp
    next
      case (Inr t)
      with False Cons show ?thesis by (simp add: Let_def)
    qed
  qed
qed

lemma add_resources_lengths:
  "add_resources rs l = Inr l' \<Longrightarrow> length (m_bindings l) = length (m_bindingFlags l) \<Longrightarrow>
     length (m_bindings l') = length (m_bindingFlags l')"
proof (induction rs arbitrary: l)
  case Nil
  then show ?case by simp
next
  case (Cons r rs)
  show ?case
  proof (cases "no_binding_point r")
    case True
    with Cons show ?thesis by simp
  next
    case False
    show ?thesis
    proof (cases "FindDescriptorType (sr_type r) (sr_mode r = Dynamic)")
      case (Inl e')
      with False Cons.prems show ?thesis by simp
    next
      case (Inr t)
      with False Cons.prems(1) have
        "add_resources rs (l\<lparr> m_bindingFlags := m_bindingFlags l @
              [if sr_mode r = UpdateAfterBind then VK_DESCRIPTOR_BINDING_UPDATE_AFTER_BIND_BIT_EXT else 0],
            m_bindings := m_bindings l @ [\<lparr> lb_binding = sr_binding r, lb_descriptorType = t,
                 lb_descriptorCount = sr_array_size r, lb_stageFlags = sr_stages r \<rparr>],
            m_bindingsLookup := emplace (sr_binding r) \<lparr> lb_binding = sr_binding r, lb_descriptorType = t,
                 lb_descriptorCount = sr_array_size r, lb_stageFlags = sr_stages r \<rparr> (m_bindingsLookup l),
            m_bindingFlagsLookup := emplace (sr_binding r)
               (if sr_mode r = UpdateAfterBind then VK_DESCRIPTOR_BINDING_UPDATE_AFTER_BIND_BIT_EXT else 0)
               (m_bindingFlagsLookup l),
            m_resourcesLookup := emplace (sr_name r) (sr_binding r) (m_resourcesLookup l) \<rparr>) = Inr l'"
        by (simp add: Let_def)
      from Cons.IH [OF this] Cons.prems(2) show ?thesis by simp
    qed
  qed
qed

text \<open>
  C5.  Constructing a \<open>DescriptorSetLayout\<close> from a resource set that holds a resource in
  update-after-bind mode and a resource in dynamic mode throws, whatever the driver would
  answer: once the constructor's loop is through, the throw is the conflict error (the loop
  itself can only throw for a resource type that has no descriptor type).  Without a
  resource in update-after-bind mode neither the conflict error nor the flag-count error is
  raised, and construction goes on to the driver call with no binding flags attached.
  Binding flags are handed to the driver only after \<open>ValidateFlags\<close>: a non-empty flag list
  whose length differs from the binding count throws, and in every layout the constructor
  returns the flag count equals the binding count.
\<close>

theorem DescriptorSetLayout_ctor_validation:
  "(find (is_mode UpdateAfterBind) resourceSet \<noteq> None \<and> find (is_mode Dynamic) resourceSet \<noteq> None \<longrightarrow>
      (DescriptorSetLayout_ctor created setIndex shaderModules resourceSet = Inl DynamicWithUpdateAfterBind \<or>
       DescriptorSetLayout_ctor created setIndex shaderModules resourceSet = Inl NoConversionPossible) \<and>
      create_layout_handle created resourceSet l = Inl DynamicWithUpdateAfterBind) \<and>
   (find (is_mode UpdateAfterBind) resourceSet = None \<longrightarrow>
      DescriptorSetLayout_ctor created setIndex shaderModules resourceSet \<noteq> Inl DynamicWithUpdateAfterBind \<and>
      DescriptorSetLayout_ctor created setIndex shaderModules resourceSet \<noteq> Inl InvalidBinding \<and>
      create_layout_handle created resourceSet l =
        (if fst created \<noteq> VK_SUCCESS then Inl (VulkanException (fst created))
         else Inr (l\<lparr> m_handle := snd created \<rparr>,
                   \<lparr> ci_flags = 0, ci_bindings = m_bindings l, ci_pBindingFlags = None \<rparr>))) \<and>
   (find (is_mode UpdateAfterBind) resourceSet \<noteq> None \<and> find (is_mode Dynamic) resourceSet = None \<and>
    m_bindingFlags l \<noteq> [] \<and> length (m_bindingFlags l) \<noteq> length (m_bindings l) \<longrightarrow>
      create_layout_handle created resourceSet l = Inl InvalidBinding) \<and>
   (DescriptorSetLayout_ctor created setIndex shaderModules resourceSet = Inr (l', info) \<longrightarrow>
      length (m_bindingFlags l') = length (m_bindings l') \<and>
      (ci_pBindingFlags info = None \<or> ci_pBindingFlags info = Some (m_bindingFlags l')) \<and>
      ci_bindings info = m_bindings l')"
proof (intro conjI impI)
  let ?l0 = "\<lparr> m_handle = VK_NULL_HANDLE, m_setIndex = setIndex, m_bindings = [],
               m_bindingFlags = [], m_bindingsLookup = [], m_bindingFlagsLookup = [],
               m_resourcesLookup = [], m_shaderModules = shaderModules \<rparr>"
  {
    assume a: "find (is_mode UpdateAfterBind) resourceSet \<noteq> None \<and> find (is_mode Dynamic) resourceSet \<noteq> None"
    then show "create_layout_handle created resourceSet l = Inl DynamicWithUpdateAfterBind"
      by (simp add: create_layout_handle_def)
    show "DescriptorSetLayout_ctor created setIndex shaderModules resourceSet = Inl DynamicWithUpdateAfterBind \<or>
       DescriptorSetLayout_ctor created setIndex shaderModules resourceSet = Inl NoConversionPossible"
    proof (cases "add_resources resourceSet ?l0")
      case (Inl e)
      then show ?thesis using add_resources_error [OF Inl]
        by (simp add: DescriptorSetLayout_ctor_def)
    next
      case (Inr l1)
      then show ?thesis using a
        by (simp add: DescriptorSetLayout_ctor_def create_layout_handle_def)
    qed
  }
  {
    assume a: "find (is_mode UpdateAfterBind) resourceSet = None"
    then show "create_layout_handle created resourceSet l =
        (if fst created \<noteq> VK_SUCCESS then Inl (VulkanException (fst created))
         else Inr (l\<lparr> m_handle := snd created \<rparr>,
                   \<lparr> ci_flags = 0, ci_bindings = m_bindings l, ci_pBindingFlags = None \<rparr>))"
      by (simp add: create_layout_handle_def)
    show "DescriptorSetLayout_ctor created setIndex shaderModules resourceSet \<noteq> Inl DynamicWithUpdateAfterBind"
      using a add_resources_error [of resourceSet ?l0]
      by (auto simp: DescriptorSetLayout_ctor_def create_layout_handle_def split: sum.splits if_splits)
    show "DescriptorSetLayout_ctor created setIndex shaderModules resourceSet \<noteq> Inl InvalidBinding"
      using a add_resources_error [of resourceSet ?l0]
      by (auto simp: DescriptorSetLayout_ctor_def create_layout_handle_def split: sum.splits if_splits)
  }
  {
    assume "find (is_mode UpdateAfterBind) resourceSet \<noteq> None \<and> find (is_mode Dynamic) resourceSet = None \<and>
      m_bindingFlags l \<noteq> [] \<and> length (m_bindingFlags l) \<noteq> length (m_bindings l)"
    then show "create_layout_handle created resourceSet l = Inl InvalidBinding"
      by (auto simp: create_layout_handle_def ValidateFlags_def)
  }
  {
    assume a: "DescriptorSetLayout_ctor created setIndex shaderModules resourceSet = Inr (l', info)"
    then obtain l1 where l1: "add_resources resourceSet ?l0 = Inr l1"
        and c: "create_layout_handle created resourceSet l1 = Inr (l', info)"
      by (auto simp: DescriptorSetLayout_ctor_def split: sum.splits)
    have len: "length (m_bindings l1) = length (m_bindingFlags l1)"
      using add_resources_lengths [OF l1] by simp
    from c have l': "l' = l1\<lparr> m_handle := snd created \<rparr>"
      by (auto simp: create_layout_handle_def Let_def split: if_splits)
    show "length (m_bindingFlags l') = length (m_bindings l')"
      using len l' by simp
    show "ci_pBindingFlags info = None \<or> ci_pBindingFlags info = Some (m_bindingFlags l')"
      using c l' by (auto simp: create_layout_handle_def Let_def split: if_splits)
    show "ci_bindings info = m_bindings l'"
      using c l' by (auto simp: create_layout_handle_def Let_def split: if_splits)
  }
qed


theorem DescriptorSetLayout_ctor_validation_witness:
  "(find (is_mode UpdateAfterBind) conflicting_resources \<noteq> None \<and>
    find (is_mode Dynamic) conflicting_resources \<noteq> None \<and>
    DescriptorSetLayout_ctor (VK_SUCCESS, 50) 0 [] conflicting_resources = Inl DynamicWithUpdateAfterBind) \<and>
   (find (is_mode UpdateAfterBind) static_resources = None \<and>
    DescriptorSetLayout_ctor (VK_SUCCESS, 50) 0 [] static_resources = Inr (example_layout,
       \<lparr> ci_flags = 0, ci_bindings = m_bindings example_layout, ci_pBindingFlags = None \<rparr>) \<and>
    length (m_bindingFlags example_layout) = length (m_bindings example_layout)) \<and>
   (find (is_mode UpdateAfterBind) [example_resource ImageSampler UpdateAfterBind 0 ''tex''] \<noteq> None \<and>
    find (is_mode Dynamic) [example_resource ImageSampler UpdateAfterBind 0 ''tex''] = None \<and>
    m_bindingFlags (example_layout\<lparr> m_bindingFlags := [1, 0] \<rparr>) \<noteq> [] \<and>
    length (m_bindingFlags (example_layout\<lparr> m_bindingFlags := [1, 0] \<rparr>)) \<noteq>
      length (m_bindings (example_layout\<lparr> m_bindingFlags := [1, 0] \<rparr>)) \<and>
    create_layout_handle (VK_SUCCESS, 50) [example_resource ImageSampler UpdateAfterBind 0 ''tex'']
      (example_layout\<lparr> m_bindingFlags := [1, 0] \<rparr>) = Inl InvalidBinding)"
proof -
  have ctor: "DescriptorSetLayout_ctor (VK_SUCCESS, 50) 0 [] static_resources = Inr (example_layout,
       \<lparr> ci_flags = 0, ci_bindings = m_bindings example_layout, ci_pBindingFlags = None \<rparr>)"
    by (simp add: DescriptorSetLayout_ctor_def create_layout_handle_def static_resources_def
          example_resource_def example_layout_def no_binding_point_def is_mode_def emplace_def
          VK_NULL_HANDLE_def Let_def)
  show ?thesis
    using DescriptorSetLayout_ctor_validation [of conflicting_resources "(VK_SUCCESS, 50)" 0 "[]"
            example_layout example_layout
            "\<lparr> ci_flags = 0, ci_bindings = m_bindings example_layout, ci_pBindingFlags = None \<rparr>"]
          DescriptorSetLayout_ctor_validation [of static_resources "(VK_SUCCESS, 50)" 0 "[]"
            example_layout example_layout
            "\<lparr> ci_flags = 0, ci_bindings = m_bindings example_layout, ci_pBindingFlags = None \<rparr>"]
          DescriptorSetLayout_ctor_validation [of "[example_resource ImageSampler UpdateAfterBind 0 ''tex'']"
            "(VK_SUCCESS, 50)" 0 "[]" "example_layout\<lparr> m_bindingFlags := [1, 0] \<rparr>" example_layout
            "\<lparr> ci_flags = 0, ci_bindings = m_bindings example_layout, ci_pBindingFlags = None \<rparr>"]
          ctor
    by (simp add: conflicting_resources_def static_resources_def example_resource_def is_mode_def
          example_layout_def DescriptorSetLayout_ctor_def no_binding_point_def Let_def emplace_def
          create_layout_handle_def)
qed

section \<open>Properties of the descriptor pool\<close>































text \<open>
  C10.  \<open>FreeDescriptorSet\<close> with a handle that is absent from \<open>m_setPoolMapping\<close> returns
  \<open>VK_INCOMPLETE\<close> and the pool as it was: no call reaches the driver, no live count, no
  mapping entry and not the cursor change.
\<close>

theorem FreeDescriptorSet_unknown_handle:
  assumes "m_setPoolMapping p descriptorSet = None"
  shows "FreeDescriptorSet p descriptorSet = Some (VK_INCOMPLETE, p) \<and> VK_INCOMPLETE \<noteq> VK_SUCCESS"
  using assms by (simp add: FreeDescriptorSet_def)


theorem FreeDescriptorSet_unknown_handle_witness:
  "m_setPoolMapping example_pool 9 = None \<and>
   FreeDescriptorSet example_pool 9 = Some (VK_INCOMPLETE, example_pool) \<and>
   m_device (snd (the (FreeDescriptorSet example_pool 9))) = m_device example_pool"
  using FreeDescriptorSet_unknown_handle [of example_pool 9]
  by (simp add: example_pool_def)

section \<open>Properties of the resource record\<close>

lemma transform_at_eq:
  "transform_at table ps =
     (if list_all (\<lambda>p. table p \<noteq> None) ps then Some (map (\<lambda>p. the (table p)) ps) else None)"
  by (induction ps) (auto split: option.splits)

lemma indices_after_call:
  "length (m_shaderModuleIndices (do_call r c)) =
     length (m_shaderModuleIndices r) + (if registers ShaderModule c then 1 else 0)"
  "length (m_pipelineLayoutIndices (do_call r c)) =
     length (m_pipelineLayoutIndices r) + (if registers PipelineLayout c then 1 else 0)"
  "length (m_renderPassIndices (do_call r c)) =
     length (m_renderPassIndices r) + (if registers RenderPass c then 1 else 0)"
  "length (m_graphicsPipelineIndices (do_call r c)) =
     length (m_graphicsPipelineIndices r) + (if registers GraphicsPipeline c then 1 else 0)"
  by (cases c;
      simp add: RegisterShaderModule_def RegisterPipelineLayout_def RegisterRenderPass_def
        RegisterGraphicsPipeline_def SetShaderModule_def SetPipelineLayout_def SetRenderPass_def
        SetGraphicsPipeline_def SetData_def Let_def split: option.splits)+

lemma indices_after_calls:
  "length (m_shaderModuleIndices (foldl do_call r calls)) =
     length (m_shaderModuleIndices r) + length (filter (registers ShaderModule) calls)"
  "length (m_pipelineLayoutIndices (foldl do_call r calls)) =
     length (m_pipelineLayoutIndices r) + length (filter (registers PipelineLayout) calls)"
  "length (m_renderPassIndices (foldl do_call r calls)) =
     length (m_renderPassIndices r) + length (filter (registers RenderPass) calls)"
  "length (m_graphicsPipelineIndices (foldl do_call r calls)) =
     length (m_graphicsPipelineIndices r) + length (filter (registers GraphicsPipeline) calls)"
  by (induction calls arbitrary: r; simp add: indices_after_call)+

lemma indices_do_calls:
  "length (m_shaderModuleIndices (do_calls calls)) = length (filter (registers ShaderModule) calls)"
  "length (m_pipelineLayoutIndices (do_calls calls)) = length (filter (registers PipelineLayout) calls)"
  "length (m_renderPassIndices (do_calls calls)) = length (filter (registers RenderPass) calls)"
  "length (m_graphicsPipelineIndices (do_calls calls)) = length (filter (registers GraphicsPipeline) calls)"
  by (simp_all add: do_calls_def indices_after_calls new_ResourceRecord_def)

lemma entry_of_call:
  assumes "m_stream r = Entries es0" "\<not> sets_data c"
  shows "\<exists>new. m_stream (do_call r c) = Entries (es0 @ new) \<and>
           (returns r c \<longrightarrow>
              (\<forall>t. length (filter (\<lambda>e. entry_tag e = t) new) = (if registers t c then 1 else 0)))"
proof (cases c)
  case (CallRegisterShaderModule stage source entryPoint variant)
  then show ?thesis
    using assms by (intro exI [of _ "[ShaderModuleEntry stage source entryPoint (preamble variant) (processes variant)]"])
      (auto simp: RegisterShaderModule_def Let_def)
next
  case (CallRegisterPipelineLayout shaderModules)
  show ?thesis
  proof (cases "transform_at (m_shaderModuleToIndex r) shaderModules")
    case None
    then show ?thesis
      using assms CallRegisterPipelineLayout
      by (intro exI [of _ "[]"]) (simp add: RegisterPipelineLayout_def Let_def)
  next
    case (Some shaderIndices)
    then show ?thesis
      using assms CallRegisterPipelineLayout
      by (intro exI [of _ "[PipelineLayoutEntry shaderIndices]"])
        (auto simp: RegisterPipelineLayout_def Let_def)
  qed
next
  case (CallRegisterRenderPass attachments loadStoreInfos subpasses)
  then show ?thesis
    using assms
    by (intro exI [of _ "[RenderPassEntry attachments loadStoreInfos
                            (map (\<lambda>item. (input_attachments item, output_attachments item)) subpasses)]"])
      (auto simp: RegisterRenderPass_def Let_def)
next
  case (CallRegisterGraphicsPipeline pipelineCache pipelineState)
  show ?thesis
  proof (cases "m_pipelineLayoutToIndex r (pipeline_layout pipelineState) \<noteq> None \<and>
                m_renderPassToIndex r (render_pass pipelineState) \<noteq> None")
    case True
    then obtain li pi where "m_pipelineLayoutToIndex r (pipeline_layout pipelineState) = Some li"
        "m_renderPassToIndex r (render_pass pipelineState) = Some pi"
      by auto
    then show ?thesis
      using assms CallRegisterGraphicsPipeline
      by (intro exI [of _ "[GraphicsPipelineEntry li pi (state_fields pipelineState)]"])
        (auto simp: RegisterGraphicsPipeline_def Let_def)
  next
    case False
    then show ?thesis
      using assms CallRegisterGraphicsPipeline
      by (intro exI [of _ "[]"]) (auto simp: RegisterGraphicsPipeline_def Let_def split: option.splits)
  qed
next
  case (CallSetData data)
  then show ?thesis using assms by simp
qed (use assms in \<open>simp_all add: SetShaderModule_def SetPipelineLayout_def SetRenderPass_def
        SetGraphicsPipeline_def\<close>)

lemma entries_after_calls:
  assumes "\<not> list_ex sets_data calls" "m_stream r = Entries es0"
  shows "\<exists>new. m_stream (foldl do_call r calls) = Entries (es0 @ new) \<and>
           (all_return r calls \<longrightarrow>
              (\<forall>t. length (filter (\<lambda>e. entry_tag e = t) new) = length (filter (registers t) calls)))"
  using assms
proof (induction calls arbitrary: r es0)
  case Nil
  then show ?case by simp
next
  case (Cons c calls)
  have c: "\<not> sets_data c" and rest: "\<not> list_ex sets_data calls" using Cons.prems(1) by simp_all
  from entry_of_call [OF Cons.prems(2) c]
  obtain new1 where n1: "m_stream (do_call r c) = Entries (es0 @ new1)"
      and c1: "returns r c \<longrightarrow>
                 (\<forall>t. length (filter (\<lambda>e. entry_tag e = t) new1) = (if registers t c then 1 else 0))"
    by blast
  from Cons.IH [OF rest n1]
  obtain new2 where n2: "m_stream (foldl do_call (do_call r c) calls) = Entries ((es0 @ new1) @ new2)"
      and c2: "all_return (do_call r c) calls \<longrightarrow>
                 (\<forall>t. length (filter (\<lambda>e. entry_tag e = t) new2) = length (filter (registers t) calls))"
    by blast
  show ?case
  proof (intro exI [of _ "new1 @ new2"] conjI impI allI)
    show "m_stream (foldl do_call r (c # calls)) = Entries (es0 @ new1 @ new2)"
      using n2 by simp
    fix t assume "all_return r (c # calls)"
    then show "length (filter (\<lambda>e. entry_tag e = t) (new1 @ new2)) =
               length (filter (registers t) (c # calls))"
      using c1 c2 by simp
  qed
qed

text \<open>
  C7.  On a recorder that has served any sequence of calls since it was created, a call to
  a \<open>Register\<close> function that returns gives the number of earlier calls to that same
  function (so the N-th call returns N - 1) and writes exactly one entry, tagged with its
  resource type, at the put position of the stream.  \<open>RegisterShaderModule\<close> and
  \<open>RegisterRenderPass\<close> always return.  The entry of \<open>RegisterPipelineLayout\<close> holds, for each
  shader module pointer, the index the pointer has in \<open>m_shaderModuleToIndex\<close>, and the entry
  of \<open>RegisterGraphicsPipeline\<close> holds the indices its pipeline layout and render pass have
  in their tables; those tables are written by the \<open>Set\<close> functions, which store the index
  given for the pointer given.  When no call before was \<open>SetData\<close>, the stream is the entries
  written so far and the write appends the entry to them; when moreover every call before
  returned, the entries of each resource type are as many as the calls to its \<open>Register\<close>
  function, so that the index returned is the place of the new entry among those of its
  type.
\<close>

theorem Register_sequential_indices:
  "snd (RegisterShaderModule (do_calls calls) stage glslSource entryPoint shaderVariant) =
     Inr (length (filter (registers ShaderModule) calls)) \<and>
   m_stream (fst (RegisterShaderModule (do_calls calls) stage glslSource entryPoint shaderVariant)) =
     write_stream (m_stream (do_calls calls))
       (ShaderModuleEntry stage glslSource entryPoint (preamble shaderVariant) (processes shaderVariant)) \<and>
   snd (RegisterRenderPass (do_calls calls) attachments loadStoreInfos subpasses) =
     Inr (length (filter (registers RenderPass) calls)) \<and>
   m_stream (fst (RegisterRenderPass (do_calls calls) attachments loadStoreInfos subpasses)) =
     write_stream (m_stream (do_calls calls))
       (RenderPassEntry attachments loadStoreInfos
          (map (\<lambda>item. (input_attachments item, output_attachments item)) subpasses)) \<and>
   (snd (RegisterPipelineLayout (do_calls calls) shaderModules) = Inr i \<longrightarrow>
      i = length (filter (registers PipelineLayout) calls) \<and>
      list_all (\<lambda>p. m_shaderModuleToIndex (do_calls calls) p \<noteq> None) shaderModules \<and>
      m_stream (fst (RegisterPipelineLayout (do_calls calls) shaderModules)) =
        write_stream (m_stream (do_calls calls))
          (PipelineLayoutEntry (map (\<lambda>p. the (m_shaderModuleToIndex (do_calls calls) p)) shaderModules))) \<and>
   (snd (RegisterGraphicsPipeline (do_calls calls) pipelineCache pipelineState) = Inr j \<longrightarrow>
      j = length (filter (registers GraphicsPipeline) calls) \<and>
      m_pipelineLayoutToIndex (do_calls calls) (pipeline_layout pipelineState) \<noteq> None \<and>
      m_renderPassToIndex (do_calls calls) (render_pass pipelineState) \<noteq> None \<and>
      m_stream (fst (RegisterGraphicsPipeline (do_calls calls) pipelineCache pipelineState)) =
        write_stream (m_stream (do_calls calls))
          (GraphicsPipelineEntry
             (the (m_pipelineLayoutToIndex (do_calls calls) (pipeline_layout pipelineState)))
             (the (m_renderPassToIndex (do_calls calls) (render_pass pipelineState)))
             (state_fields pipelineState))) \<and>
   m_shaderModuleToIndex (SetShaderModule r index p) p = Some index \<and>
   m_pipelineLayoutToIndex (SetPipelineLayout r index p) p = Some index \<and>
   m_renderPassToIndex (SetRenderPass r index p) p = Some index \<and>
   m_graphicsPipelineToIndex (SetGraphicsPipeline r index p) p = Some index \<and>
   (\<not> list_ex sets_data calls \<longrightarrow>
      (\<exists>es. m_stream (do_calls calls) = Entries es \<and>
            (\<forall>e. write_stream (m_stream (do_calls calls)) e = Entries (es @ [e])) \<and>
            (all_return new_ResourceRecord calls \<longrightarrow>
               (\<forall>t. length (filter (\<lambda>e. entry_tag e = t) es) = length (filter (registers t) calls)))))"
proof (intro conjI impI)
  show "snd (RegisterShaderModule (do_calls calls) stage glslSource entryPoint shaderVariant) =
     Inr (length (filter (registers ShaderModule) calls))"
    by (simp add: RegisterShaderModule_def Let_def indices_do_calls)
  show "snd (RegisterRenderPass (do_calls calls) attachments loadStoreInfos subpasses) =
     Inr (length (filter (registers RenderPass) calls))"
    by (simp add: RegisterRenderPass_def Let_def indices_do_calls)
  show "m_stream (fst (RegisterShaderModule (do_calls calls) stage glslSource entryPoint shaderVariant)) =
     write_stream (m_stream (do_calls calls))
       (ShaderModuleEntry stage glslSource entryPoint (preamble shaderVariant) (processes shaderVariant))"
    by (simp add: RegisterShaderModule_def Let_def)
  show "m_stream (fst (RegisterRenderPass (do_calls calls) attachments loadStoreInfos subpasses)) =
     write_stream (m_stream (do_calls calls))
       (RenderPassEntry attachments loadStoreInfos
          (map (\<lambda>item. (input_attachments item, output_attachments item)) subpasses))"
    by (simp add: RegisterRenderPass_def Let_def)
  {
    assume a: "snd (RegisterPipelineLayout (do_calls calls) shaderModules) = Inr i"
    then obtain indices where t: "transform_at (m_shaderModuleToIndex (do_calls calls)) shaderModules = Some indices"
      by (auto simp: RegisterPipelineLayout_def Let_def split: option.splits)
    show "i = length (filter (registers PipelineLayout) calls)"
      using a t by (simp add: RegisterPipelineLayout_def Let_def indices_do_calls)
    show "list_all (\<lambda>p. m_shaderModuleToIndex (do_calls calls) p \<noteq> None) shaderModules"
      using t by (simp add: transform_at_eq split: if_splits)
    show "m_stream (fst (RegisterPipelineLayout (do_calls calls) shaderModules)) =
        write_stream (m_stream (do_calls calls))
          (PipelineLayoutEntry (map (\<lambda>p. the (m_shaderModuleToIndex (do_calls calls) p)) shaderModules))"
      using t by (simp add: RegisterPipelineLayout_def Let_def transform_at_eq split: if_splits)
  }
  {
    assume a: "snd (RegisterGraphicsPipeline (do_calls calls) pipelineCache pipelineState) = Inr j"
    then obtain li pi where t:
        "m_pipelineLayoutToIndex (do_calls calls) (pipeline_layout pipelineState) = Some li"
        "m_renderPassToIndex (do_calls calls) (render_pass pipelineState) = Some pi"
      by (auto simp: RegisterGraphicsPipeline_def Let_def split: option.splits)
    show "j = length (filter (registers GraphicsPipeline) calls)"
      using a t by (simp add: RegisterGraphicsPipeline_def Let_def indices_do_calls)
    show "m_pipelineLayoutToIndex (do_calls calls) (pipeline_layout pipelineState) \<noteq> None"
      using t by simp
    show "m_renderPassToIndex (do_calls calls) (render_pass pipelineState) \<noteq> None"
      using t by simp
    show "m_stream (fst (RegisterGraphicsPipeline (do_calls calls) pipelineCache pipelineState)) =
        write_stream (m_stream (do_calls calls))
          (GraphicsPipelineEntry
             (the (m_pipelineLayoutToIndex (do_calls calls) (pipeline_layout pipelineState)))
             (the (m_renderPassToIndex (do_calls calls) (render_pass pipelineState)))
             (state_fields pipelineState))"
      using t by (simp add: RegisterGraphicsPipeline_def Let_def)
  }
  {
    assume "\<not> list_ex sets_data calls"
    from entries_after_calls [OF this, of new_ResourceRecord "[]"]
    obtain es where es: "m_stream (do_calls calls) = Entries es"
        and counts: "all_return new_ResourceRecord calls \<longrightarrow>
               (\<forall>t. length (filter (\<lambda>e. entry_tag e = t) es) = length (filter (registers t) calls))"
      by (auto simp: do_calls_def new_ResourceRecord_def)
    show "\<exists>es. m_stream (do_calls calls) = Entries es \<and>
            (\<forall>e. write_stream (m_stream (do_calls calls)) e = Entries (es @ [e])) \<and>
            (all_return new_ResourceRecord calls \<longrightarrow>
               (\<forall>t. length (filter (\<lambda>e. entry_tag e = t) es) = length (filter (registers t) calls)))"
      using es counts by (intro exI [of _ es]) simp
  }
qed (simp_all add: SetShaderModule_def SetPipelineLayout_def SetRenderPass_def SetGraphicsPipeline_def)

theorem Register_sequential_indices_witness:
  "\<not> list_ex sets_data example_calls \<and> all_return new_ResourceRecord example_calls \<and>
   m_stream (do_calls example_calls) =
     Entries [ShaderModuleEntry 1 ''void main() {}'' ''main'' ''#define A'' [''DA''],
              ShaderModuleEntry 16 ''void main() { }'' ''main'' ''#define A'' [''DA''],
              PipelineLayoutEntry [0, 1],
              RenderPassEntry [[37, 1, 16, 0]] [[1, 0]] [([], [0])]] \<and>
   RegisterShaderModule (do_calls example_calls) 32 ''x'' ''main'' example_variant =
     ((do_calls example_calls)
        \<lparr> m_shaderModuleIndices := [0, 1, 2],
          m_stream := write_stream (m_stream (do_calls example_calls))
                        (ShaderModuleEntry 32 ''x'' ''main'' ''#define A'' [''DA'']) \<rparr>,
      Inr 2) \<and>
   snd (RegisterPipelineLayout (do_calls example_calls) [1001, 1000]) = Inr 1 \<and>
   m_stream (fst (RegisterPipelineLayout (do_calls example_calls) [1001, 1000])) =
     write_stream (m_stream (do_calls example_calls)) (PipelineLayoutEntry [1, 0]) \<and>
   snd (RegisterPipelineLayout (do_calls example_calls) [1001, 4242]) = Inl OutOfRange \<and>
   snd (RegisterGraphicsPipeline (do_calls example_calls) 0
          \<lparr> pipeline_layout = 2000, render_pass = 3000, state_fields = example_fields \<rparr>) = Inr 0 \<and>
   m_stream (fst (RegisterGraphicsPipeline (do_calls example_calls) 0
          \<lparr> pipeline_layout = 2000, render_pass = 3000, state_fields = example_fields \<rparr>)) =
     write_stream (m_stream (do_calls example_calls)) (GraphicsPipelineEntry 0 0 example_fields)"
proof -
  have calls: "do_calls example_calls =
     \<lparr> m_stream = Entries
         [ShaderModuleEntry 1 ''void main() {}'' ''main'' ''#define A'' [''DA''],
          ShaderModuleEntry 16 ''void main() { }'' ''main'' ''#define A'' [''DA''],
          PipelineLayoutEntry [0, 1],
          RenderPassEntry [[37, 1, 16, 0]] [[1, 0]] [([], [0])]],
       m_shaderModuleIndices = [0, 1], m_pipelineLayoutIndices = [0],
       m_renderPassIndices = [0], m_graphicsPipelineIndices = [],
       m_shaderModuleToIndex = [1000 \<mapsto> 0, 1001 \<mapsto> 1], m_pipelineLayoutToIndex = [2000 \<mapsto> 0],
       m_renderPassToIndex = [3000 \<mapsto> 0], m_graphicsPipelineToIndex = Map.empty \<rparr>"
    by (simp add: do_calls_def example_calls_def new_ResourceRecord_def RegisterShaderModule_def
          RegisterPipelineLayout_def RegisterRenderPass_def SetShaderModule_def SetPipelineLayout_def
          SetRenderPass_def example_variant_def Let_def)
  have plain: "\<not> list_ex sets_data example_calls"
    by (simp add: example_calls_def)
  have returned_all: "all_return new_ResourceRecord example_calls"
    by (simp add: example_calls_def new_ResourceRecord_def RegisterShaderModule_def
          RegisterPipelineLayout_def RegisterRenderPass_def SetShaderModule_def SetPipelineLayout_def
          SetRenderPass_def Let_def)
  have thrown: "snd (RegisterPipelineLayout (do_calls example_calls) [1001, 4242]) = Inl OutOfRange"
    by (simp add: calls RegisterPipelineLayout_def Let_def)
  have returned: "snd (RegisterPipelineLayout (do_calls example_calls) [1001, 1000]) = Inr 1"
    "snd (RegisterGraphicsPipeline (do_calls example_calls) 0
          \<lparr> pipeline_layout = 2000, render_pass = 3000, state_fields = example_fields \<rparr>) = Inr 0"
    by (simp_all add: calls RegisterPipelineLayout_def RegisterGraphicsPipeline_def Let_def)
  have first: "RegisterShaderModule (do_calls example_calls) 32 ''x'' ''main'' example_variant =
     ((do_calls example_calls)
        \<lparr> m_shaderModuleIndices := [0, 1, 2],
          m_stream := write_stream (m_stream (do_calls example_calls))
                        (ShaderModuleEntry 32 ''x'' ''main'' ''#define A'' [''DA'']) \<rparr>,
      Inr 2)"
    by (simp add: calls RegisterShaderModule_def example_variant_def Let_def)
  have stream: "m_stream (do_calls example_calls) =
     Entries [ShaderModuleEntry 1 ''void main() {}'' ''main'' ''#define A'' [''DA''],
              ShaderModuleEntry 16 ''void main() { }'' ''main'' ''#define A'' [''DA''],
              PipelineLayoutEntry [0, 1],
              RenderPassEntry [[37, 1, 16, 0]] [[1, 0]] [([], [0])]]"
    by (simp add: calls)
  have tables: "the (m_shaderModuleToIndex (do_calls example_calls) 1001) = 1"
    "the (m_shaderModuleToIndex (do_calls example_calls) 1000) = 0"
    "the (m_pipelineLayoutToIndex (do_calls example_calls) 2000) = 0"
    "the (m_renderPassToIndex (do_calls example_calls) 3000) = 0"
    by (simp_all add: calls)
  have pl: "m_stream (fst (RegisterPipelineLayout (do_calls example_calls) [1001, 1000])) =
     write_stream (m_stream (do_calls example_calls)) (PipelineLayoutEntry [1, 0])"
    using Register_sequential_indices [where calls = example_calls and shaderModules = "[1001, 1000]"
            and i = 1] returned(1) tables
    by simp
  have gp: "m_stream (fst (RegisterGraphicsPipeline (do_calls example_calls) 0
          \<lparr> pipeline_layout = 2000, render_pass = 3000, state_fields = example_fields \<rparr>)) =
     write_stream (m_stream (do_calls example_calls)) (GraphicsPipelineEntry 0 0 example_fields)"
    using Register_sequential_indices [where calls = example_calls and j = 0 and pipelineCache = 0
            and pipelineState = "\<lparr> pipeline_layout = 2000, render_pass = 3000, state_fields = example_fields \<rparr>"]
          returned(2) tables
    by simp
  show ?thesis
    using plain returned_all stream first returned thrown pl gp by simp
qed

text \<open>
  After \<open>SetData\<close> a \<open>Register\<close> function does not append: the recorder that was given the
  log of the example calls writes the entry of the next shader module over the start of
  that log, and what \<open>GetData\<close> then returns is not the log followed by the entry.
\<close>

theorem Register_after_SetData_counterexample:
  "GetData (fst (RegisterShaderModule
            (do_calls [CallSetData (GetData (do_calls example_calls))])
            32 ''x'' ''main'' example_variant)) =
     Overwritten [ShaderModuleEntry 32 ''x'' ''main'' ''#define A'' [''DA'']]
       (Entries [ShaderModuleEntry 1 ''void main() {}'' ''main'' ''#define A'' [''DA''],
                 ShaderModuleEntry 16 ''void main() { }'' ''main'' ''#define A'' [''DA''],
                 PipelineLayoutEntry [0, 1],
                 RenderPassEntry [[37, 1, 16, 0]] [[1, 0]] [([], [0])]]) \<and>
   entries_of (GetData (do_calls [CallSetData (GetData (do_calls example_calls))])) =
     Some [ShaderModuleEntry 1 ''void main() {}'' ''main'' ''#define A'' [''DA''],
           ShaderModuleEntry 16 ''void main() { }'' ''main'' ''#define A'' [''DA''],
           PipelineLayoutEntry [0, 1],
           RenderPassEntry [[37, 1, 16, 0]] [[1, 0]] [([], [0])]] \<and>
   entries_of (GetData (fst (RegisterShaderModule
            (do_calls [CallSetData (GetData (do_calls example_calls))])
            32 ''x'' ''main'' example_variant))) = None"
  by (simp add: do_calls_def example_calls_def new_ResourceRecord_def RegisterShaderModule_def
        RegisterPipelineLayout_def RegisterRenderPass_def SetShaderModule_def SetPipelineLayout_def
        SetRenderPass_def example_variant_def GetData_def SetData_def Let_def)

section \<open>Properties of the descriptor set\<close>

lemma map_of_map_snd:
  "map_of (map (\<lambda>el. (fst el, g (snd el))) xs) e = map_option g (map_of xs e)"
  by (induction xs) auto

lemma lookup2_map:
  "lookup2 (map (\<lambda>bt. (fst bt, map (\<lambda>el. (fst el, f (fst bt) (snd el))) (snd bt))) m) b e =
     map_option (f b) (lookup2 m b e)"
  by (induction m) (auto simp: lookup2_def map_of_map_snd)

lemma Prepare_unprepared:
  assumes "m_writeDescriptorSets ds = []"
  shows "m_bufferInfos (fst (Prepare limits ds)) = map (\<lambda>bt. fst (prepare_buffer_binding limits ds bt)) (m_bufferInfos ds)"
    and "m_writeDescriptorSets (fst (Prepare limits ds)) =
           concat (map (\<lambda>bt. fst (snd (prepare_buffer_binding limits ds bt))) (m_bufferInfos ds)) @
           concat (map (\<lambda>bt. fst (prepare_image_binding ds bt)) (m_imageInfos ds))"
    and "snd (Prepare limits ds) =
           concat (map (\<lambda>bt. snd (snd (prepare_buffer_binding limits ds bt))) (m_bufferInfos ds)) @
           concat (map (\<lambda>bt. snd (prepare_image_binding ds bt)) (m_imageInfos ds))"
    and "m_imageInfos (fst (Prepare limits ds)) = m_imageInfos ds"
  using assms by (simp_all add: Prepare_def Let_def comp_def)

lemma fst_prepare_buffer_binding:
  "fst (prepare_buffer_binding limits ds bt) =
     (fst bt, map (\<lambda>el. (fst el, clip_info limits ds (fst bt) (snd el))) (snd bt))"
  by (cases "GetLayoutBinding (m_setLayout ds) (fst bt)")
     (simp_all add: prepare_buffer_binding_def clip_info_def prepare_buffer_element_def Let_def comp_def)

lemma lookup2_Prepare:
  assumes "m_writeDescriptorSets ds = []"
  shows "lookup2 (m_bufferInfos (fst (Prepare limits ds))) b e =
           map_option (clip_info limits ds b) (lookup2 (m_bufferInfos ds) b e)"
  using Prepare_unprepared(1) [OF assms, of limits]
  by (simp add: fst_prepare_buffer_binding lookup2_map)

lemma lookup2_SomeD:
  "lookup2 m b e = Some v \<Longrightarrow> \<exists>arr. (b, arr) \<in> set m \<and> (e, v) \<in> set arr"
  by (auto simp: lookup2_def split: option.splits dest: map_of_SomeD)

lemma buffer_write_produced:
  assumes "m_writeDescriptorSets ds = []" "(b, arr) \<in> set (m_bufferInfos ds)" "(e, info) \<in> set arr"
      "GetLayoutBinding (m_setLayout ds) b = Some bi"
  shows "\<lparr> dstSet = m_setHandle ds, dstBinding = b, dstArrayElement = e, descriptorCount = 1,
           descriptorType = lb_descriptorType bi, pInfo = pBufferInfo b e \<rparr>
         \<in> set (m_writeDescriptorSets (fst (Prepare limits ds)))"
proof -
  have "\<lparr> dstSet = m_setHandle ds, dstBinding = b, dstArrayElement = e, descriptorCount = 1,
           descriptorType = lb_descriptorType bi, pInfo = pBufferInfo b e \<rparr>
        \<in> set (fst (snd (prepare_buffer_binding limits ds (b, arr))))"
    using assms(3,4)
    by (force simp: prepare_buffer_binding_def prepare_buffer_element_def Let_def)
  then show ?thesis
    using assms(1,2) by (force simp: Prepare_unprepared(2))
qed

lemma buffer_log_produced:
  assumes "m_writeDescriptorSets ds = []" "(b, arr) \<in> set (m_bufferInfos ds)" "(e, info) \<in> set arr"
      "GetLayoutBinding (m_setLayout ds) b = Some bi"
      "x \<in> set (snd (clip_buffer_range limits (m_setIndex (m_setLayout ds)) b (lb_descriptorType bi) (bi_range info)))"
  shows "x \<in> set (snd (Prepare limits ds))"
proof -
  have "x \<in> set (snd (snd (prepare_buffer_binding limits ds (b, arr))))"
    using assms(3,4,5)
    by (force simp: prepare_buffer_binding_def prepare_buffer_element_def Let_def)
  then show ?thesis
    using assms(1,2) by (force simp: Prepare_unprepared(3))
qed

lemma absent_buffer_binding:
  assumes "m_writeDescriptorSets ds = []" "(b, arr) \<in> set (m_bufferInfos ds)"
      "GetLayoutBinding (m_setLayout ds) b = None"
  shows "LOGE_no_buffer_binding b \<in> set (snd (Prepare limits ds))"
proof -
  have "LOGE_no_buffer_binding b \<in> set (snd (snd (prepare_buffer_binding limits ds (b, arr))))"
    using assms(3) by (simp add: prepare_buffer_binding_def)
  then show ?thesis
    using assms(1,2) by (force simp: Prepare_unprepared(3))
qed

lemma absent_image_binding:
  assumes "m_writeDescriptorSets ds = []" "(b, arr) \<in> set (m_imageInfos ds)"
      "GetLayoutBinding (m_setLayout ds) b = None"
  shows "LOGE_no_image_binding b \<in> set (snd (Prepare limits ds))"
proof -
  have "LOGE_no_image_binding b \<in> set (snd (prepare_image_binding ds (b, arr)))"
    using assms(3) by (simp add: prepare_image_binding_def)
  then show ?thesis
    using assms(1,2) by (force simp: Prepare_unprepared(3))
qed

lemma no_write_for_absent_binding:
  assumes "m_writeDescriptorSets ds = []" "GetLayoutBinding (m_setLayout ds) b = None"
      "w \<in> set (m_writeDescriptorSets (fst (Prepare limits ds)))"
  shows "dstBinding w \<noteq> b"
proof -
  have 1: "dstBinding w' \<noteq> b"
    if "w' \<in> set (fst (snd (prepare_buffer_binding limits ds bt)))" for w' bt
    using that assms(2)
    by (cases "GetLayoutBinding (m_setLayout ds) (fst bt)")
       (auto simp: prepare_buffer_binding_def prepare_buffer_element_def Let_def)
  have 2: "dstBinding w' \<noteq> b"
    if "w' \<in> set (fst (prepare_image_binding ds bt))" for w' bt
    using that assms(2)
    by (cases "GetLayoutBinding (m_setLayout ds) (fst bt)")
       (auto simp: prepare_image_binding_def Let_def)
  from assms(1,3) consider
      bt where "w \<in> set (fst (snd (prepare_buffer_binding limits ds bt)))"
    | bt where "w \<in> set (fst (prepare_image_binding ds bt))"
    by (auto simp: Prepare_unprepared(2))
  then show ?thesis
    using 1 2 by cases blast+
qed


text \<open>
  C4.  In \<open>Prepare\<close> on a set that has no write-descriptor entries yet (which is how the
  constructor and \<open>Reset\<close> call it), every buffer binding element whose binding the layout
  knows gets its write-descriptor entry; when the binding is a uniform (or dynamic uniform)
  buffer and the requested range exceeds \<open>maxUniformBufferRange\<close>, the stored range becomes
  that limit and the diagnostic is logged, and likewise for storage (or dynamic storage)
  buffers and \<open>maxStorageBufferRange\<close>.  A buffer or image binding the layout does not know
  is logged and gets no entry, while the other bindings are still processed.  The
  constructor returns a set whenever the pool's allocation returns: clamping and skipping
  never make it fail.
\<close>

theorem Prepare_clamps_and_skips:
  "(m_writeDescriptorSets ds = [] \<and> lookup2 (m_bufferInfos ds) b e = Some info \<and>
    GetLayoutBinding (m_setLayout ds) b = Some bi \<longrightarrow>
      \<lparr> dstSet = m_setHandle ds, dstBinding = b, dstArrayElement = e, descriptorCount = 1,
        descriptorType = lb_descriptorType bi, pInfo = pBufferInfo b e \<rparr>
        \<in> set (m_writeDescriptorSets (fst (Prepare limits ds))) \<and>
      ((lb_descriptorType bi = VK_DESCRIPTOR_TYPE_UNIFORM_BUFFER \<or>
        lb_descriptorType bi = VK_DESCRIPTOR_TYPE_UNIFORM_BUFFER_DYNAMIC) \<and>
       bi_range info > maxUniformBufferRange limits \<longrightarrow>
         lookup2 (m_bufferInfos (fst (Prepare limits ds))) b e =
           Some (info\<lparr> bi_range := maxUniformBufferRange limits \<rparr>) \<and>
         LOGE_uniform_buffer_range_limit (m_setIndex (m_setLayout ds)) b (bi_range info)
             (maxUniformBufferRange limits) \<in> set (snd (Prepare limits ds))) \<and>
      ((lb_descriptorType bi = VK_DESCRIPTOR_TYPE_STORAGE_BUFFER \<or>
        lb_descriptorType bi = VK_DESCRIPTOR_TYPE_STORAGE_BUFFER_DYNAMIC) \<and>
       bi_range info > maxStorageBufferRange limits \<longrightarrow>
         lookup2 (m_bufferInfos (fst (Prepare limits ds))) b e =
           Some (info\<lparr> bi_range := maxStorageBufferRange limits \<rparr>) \<and>
         LOGE_storage_buffer_range_limit (m_setIndex (m_setLayout ds)) b (bi_range info)
             (maxStorageBufferRange limits) \<in> set (snd (Prepare limits ds)))) \<and>
   (m_writeDescriptorSets ds = [] \<and> (b', arr) \<in> set (m_bufferInfos ds) \<and>
    GetLayoutBinding (m_setLayout ds) b' = None \<longrightarrow>
      LOGE_no_buffer_binding b' \<in> set (snd (Prepare limits ds)) \<and>
      list_all (\<lambda>w. dstBinding w \<noteq> b') (m_writeDescriptorSets (fst (Prepare limits ds)))) \<and>
   (m_writeDescriptorSets ds = [] \<and> (b', arr') \<in> set (m_imageInfos ds) \<and>
    GetLayoutBinding (m_setLayout ds) b' = None \<longrightarrow>
      LOGE_no_image_binding b' \<in> set (snd (Prepare limits ds)) \<and>
      list_all (\<lambda>w. dstBinding w \<noteq> b') (m_writeDescriptorSets (fst (Prepare limits ds)))) \<and>
   DescriptorSet_ctor limits d descriptorSetLayout descriptorPool bufferInfos imageInfos =
     map_option
       (\<lambda>r. (fst (Prepare limits
                     \<lparr> m_setLayout = descriptorSetLayout, m_bufferInfos = bufferInfos,
                       m_imageInfos = imageInfos, m_setHandle = fst r,
                       m_writeDescriptorSets = [], m_updatedBindings = Map.empty \<rparr>),
              snd r,
              snd (Prepare limits
                     \<lparr> m_setLayout = descriptorSetLayout, m_bufferInfos = bufferInfos,
                       m_imageInfos = imageInfos, m_setHandle = fst r,
                       m_writeDescriptorSets = [], m_updatedBindings = Map.empty \<rparr>)))
       (AllocateDescriptorSet d descriptorPool)"
proof (intro conjI impI)
  {
    assume a: "m_writeDescriptorSets ds = [] \<and> lookup2 (m_bufferInfos ds) b e = Some info \<and>
      GetLayoutBinding (m_setLayout ds) b = Some bi"
    then have "lookup2 (m_bufferInfos ds) b e = Some info" by simp
    from lookup2_SomeD [OF this]
    obtain arr0 where arr0: "(b, arr0) \<in> set (m_bufferInfos ds)" "(e, info) \<in> set arr0"
      by auto
    show "\<lparr> dstSet = m_setHandle ds, dstBinding = b, dstArrayElement = e, descriptorCount = 1,
        descriptorType = lb_descriptorType bi, pInfo = pBufferInfo b e \<rparr>
        \<in> set (m_writeDescriptorSets (fst (Prepare limits ds)))"
      using a arr0 by (intro buffer_write_produced) simp_all
    {
      assume u: "(lb_descriptorType bi = VK_DESCRIPTOR_TYPE_UNIFORM_BUFFER \<or>
          lb_descriptorType bi = VK_DESCRIPTOR_TYPE_UNIFORM_BUFFER_DYNAMIC) \<and>
         bi_range info > maxUniformBufferRange limits"
      then have c: "clip_buffer_range limits (m_setIndex (m_setLayout ds)) b (lb_descriptorType bi) (bi_range info) =
          (maxUniformBufferRange limits,
           [LOGE_uniform_buffer_range_limit (m_setIndex (m_setLayout ds)) b (bi_range info)
              (maxUniformBufferRange limits)])"
        by (simp add: clip_buffer_range_def Let_def)
      show "lookup2 (m_bufferInfos (fst (Prepare limits ds))) b e =
             Some (info\<lparr> bi_range := maxUniformBufferRange limits \<rparr>)"
        using a c by (simp add: lookup2_Prepare clip_info_def)
      show "LOGE_uniform_buffer_range_limit (m_setIndex (m_setLayout ds)) b (bi_range info)
             (maxUniformBufferRange limits) \<in> set (snd (Prepare limits ds))"
      proof (rule buffer_log_produced [where bi = bi and info = info and arr = arr0])
        show "m_writeDescriptorSets ds = []" using a by simp
        show "(b, arr0) \<in> set (m_bufferInfos ds)" by (rule arr0(1))
        show "(e, info) \<in> set arr0" by (rule arr0(2))
        show "GetLayoutBinding (m_setLayout ds) b = Some bi" using a by simp
        show "LOGE_uniform_buffer_range_limit (m_setIndex (m_setLayout ds)) b (bi_range info)
             (maxUniformBufferRange limits) \<in> set (snd (clip_buffer_range limits (m_setIndex (m_setLayout ds)) b
                     (lb_descriptorType bi) (bi_range info)))"
          by (simp add: c)
      qed
    }
    {
      assume u: "(lb_descriptorType bi = VK_DESCRIPTOR_TYPE_STORAGE_BUFFER \<or>
          lb_descriptorType bi = VK_DESCRIPTOR_TYPE_STORAGE_BUFFER_DYNAMIC) \<and>
         bi_range info > maxStorageBufferRange limits"
      then have c: "clip_buffer_range limits (m_setIndex (m_setLayout ds)) b (lb_descriptorType bi) (bi_range info) =
          (maxStorageBufferRange limits,
           [LOGE_storage_buffer_range_limit (m_setIndex (m_setLayout ds)) b (bi_range info)
              (maxStorageBufferRange limits)])"
        by (auto simp add: clip_buffer_range_def Let_def)
      show "lookup2 (m_bufferInfos (fst (Prepare limits ds))) b e =
             Some (info\<lparr> bi_range := maxStorageBufferRange limits \<rparr>)"
        using a c by (simp add: lookup2_Prepare clip_info_def)
      show "LOGE_storage_buffer_range_limit (m_setIndex (m_setLayout ds)) b (bi_range info)
             (maxStorageBufferRange limits) \<in> set (snd (Prepare limits ds))"
      proof (rule buffer_log_produced [where bi = bi and info = info and arr = arr0])
        show "m_writeDescriptorSets ds = []" using a by simp
        show "(b, arr0) \<in> set (m_bufferInfos ds)" by (rule arr0(1))
        show "(e, info) \<in> set arr0" by (rule arr0(2))
        show "GetLayoutBinding (m_setLayout ds) b = Some bi" using a by simp
        show "LOGE_storage_buffer_range_limit (m_setIndex (m_setLayout ds)) b (bi_range info)
             (maxStorageBufferRange limits) \<in> set (snd (clip_buffer_range limits (m_setIndex (m_setLayout ds)) b
                     (lb_descriptorType bi) (bi_range info)))"
          by (simp add: c)
      qed
    }
  }
  {
    assume a: "m_writeDescriptorSets ds = [] \<and> (b', arr) \<in> set (m_bufferInfos ds) \<and>
      GetLayoutBinding (m_setLayout ds) b' = None"
    then show "LOGE_no_buffer_binding b' \<in> set (snd (Prepare limits ds))"
      by (intro absent_buffer_binding [where arr = arr]) simp_all
    show "list_all (\<lambda>w. dstBinding w \<noteq> b') (m_writeDescriptorSets (fst (Prepare limits ds)))"
      using a no_write_for_absent_binding [of ds b' _ limits] by (auto simp: list_all_iff)
  }
  {
    assume a: "m_writeDescriptorSets ds = [] \<and> (b', arr') \<in> set (m_imageInfos ds) \<and>
      GetLayoutBinding (m_setLayout ds) b' = None"
    then show "LOGE_no_image_binding b' \<in> set (snd (Prepare limits ds))"
      by (intro absent_image_binding [where arr = arr']) simp_all
    show "list_all (\<lambda>w. dstBinding w \<noteq> b') (m_writeDescriptorSets (fst (Prepare limits ds)))"
      using a no_write_for_absent_binding [of ds b' _ limits] by (auto simp: list_all_iff)
  }
  show "DescriptorSet_ctor limits d descriptorSetLayout descriptorPool bufferInfos imageInfos =
     map_option
       (\<lambda>r. (fst (Prepare limits
                     \<lparr> m_setLayout = descriptorSetLayout, m_bufferInfos = bufferInfos,
                       m_imageInfos = imageInfos, m_setHandle = fst r,
                       m_writeDescriptorSets = [], m_updatedBindings = Map.empty \<rparr>),
              snd r,
              snd (Prepare limits
                     \<lparr> m_setLayout = descriptorSetLayout, m_bufferInfos = bufferInfos,
                       m_imageInfos = imageInfos, m_setHandle = fst r,
                       m_writeDescriptorSets = [], m_updatedBindings = Map.empty \<rparr>)))
       (AllocateDescriptorSet d descriptorPool)"
    by (auto simp: DescriptorSet_ctor_def Let_def split: option.splits)
qed


theorem Prepare_clamps_and_skips_witness:
  "m_writeDescriptorSets unprepared_set = [] \<and>
   lookup2 (m_bufferInfos unprepared_set) 0 0 = Some \<lparr> bi_buffer = 21, bi_offset = 0, bi_range = 70000 \<rparr> \<and>
   map_option lb_descriptorType (GetLayoutBinding (m_setLayout unprepared_set) 0) =
     Some VK_DESCRIPTOR_TYPE_UNIFORM_BUFFER \<and>
   bi_range \<lparr> bi_buffer = 21, bi_offset = 0, bi_range = 70000 \<rparr> > maxUniformBufferRange example_limits \<and>
   lookup2 (m_bufferInfos (fst (Prepare example_limits unprepared_set))) 0 0 =
     Some \<lparr> bi_buffer = 21, bi_offset = 0, bi_range = 65536 \<rparr> \<and>
   LOGE_uniform_buffer_range_limit 0 0 70000 65536 \<in> set (snd (Prepare example_limits unprepared_set)) \<and>
   \<lparr> dstSet = 1, dstBinding = 0, dstArrayElement = 0, descriptorCount = 1,
     descriptorType = VK_DESCRIPTOR_TYPE_UNIFORM_BUFFER, pInfo = pBufferInfo 0 0 \<rparr>
     \<in> set (m_writeDescriptorSets (fst (Prepare example_limits unprepared_set))) \<and>
   lookup2 (m_bufferInfos unprepared_set) 1 0 = Some \<lparr> bi_buffer = 22, bi_offset = 0, bi_range = 200000000 \<rparr> \<and>
   map_option lb_descriptorType (GetLayoutBinding (m_setLayout unprepared_set) 1) =
     Some VK_DESCRIPTOR_TYPE_STORAGE_BUFFER \<and>
   lookup2 (m_bufferInfos (fst (Prepare example_limits unprepared_set))) 1 0 =
     Some \<lparr> bi_buffer = 22, bi_offset = 0, bi_range = 134217728 \<rparr> \<and>
   LOGE_storage_buffer_range_limit 0 1 200000000 134217728 \<in> set (snd (Prepare example_limits unprepared_set)) \<and>
   (7, [(0, \<lparr> bi_buffer = 23, bi_offset = 0, bi_range = 16 \<rparr>)]) \<in> set (m_bufferInfos unprepared_set) \<and>
   GetLayoutBinding (m_setLayout unprepared_set) 7 = None \<and>
   LOGE_no_buffer_binding 7 \<in> set (snd (Prepare example_limits unprepared_set)) \<and>
   (9, [(0, \<lparr> ii_sampler = 31, ii_imageView = 13, ii_imageLayout = 5 \<rparr>)]) \<in> set (m_imageInfos unprepared_set) \<and>
   GetLayoutBinding (m_setLayout unprepared_set) 9 = None \<and>
   LOGE_no_image_binding 9 \<in> set (snd (Prepare example_limits unprepared_set)) \<and>
   list_all (\<lambda>w. dstBinding w \<noteq> 7 \<and> dstBinding w \<noteq> 9)
     (m_writeDescriptorSets (fst (Prepare example_limits unprepared_set))) \<and>
   map_option (\<lambda>r. (m_setHandle (fst r), length (m_writeDescriptorSets (fst r)), snd (snd r)))
     (DescriptorSet_ctor example_limits (hd example_replies) example_set_layout
        (DescriptorPool_ctor example_set_layout 2) example_buffer_infos example_image_infos) =
     Some (1, 4,
           [LOGE_uniform_buffer_range_limit 0 0 70000 65536,
            LOGE_storage_buffer_range_limit 0 1 200000000 134217728,
            LOGE_no_buffer_binding 7, LOGE_no_image_binding 9])"
proof -
  have alloc: "map_option fst (AllocateDescriptorSet (hd example_replies) (DescriptorPool_ctor example_set_layout 2)) = Some 1"
    by (simp add: AllocateDescriptorSet_def FindAvailablePool.simps DescriptorPool_ctor_def
          example_replies_def Let_def)
  have prep: "Prepare example_limits unprepared_set =
     (unprepared_set
        \<lparr> m_bufferInfos :=
            [(0, [(0, \<lparr> bi_buffer = 21, bi_offset = 0, bi_range = 65536 \<rparr>)]),
             (1, [(0, \<lparr> bi_buffer = 22, bi_offset = 0, bi_range = 134217728 \<rparr>)]),
             (7, [(0, \<lparr> bi_buffer = 23, bi_offset = 0, bi_range = 16 \<rparr>)])],
          m_writeDescriptorSets :=
            [\<lparr> dstSet = 1, dstBinding = 0, dstArrayElement = 0, descriptorCount = 1,
               descriptorType = VK_DESCRIPTOR_TYPE_UNIFORM_BUFFER, pInfo = pBufferInfo 0 0 \<rparr>,
             \<lparr> dstSet = 1, dstBinding = 1, dstArrayElement = 0, descriptorCount = 1,
               descriptorType = VK_DESCRIPTOR_TYPE_STORAGE_BUFFER, pInfo = pBufferInfo 1 0 \<rparr>,
             \<lparr> dstSet = 1, dstBinding = 2, dstArrayElement = 0, descriptorCount = 1,
               descriptorType = VK_DESCRIPTOR_TYPE_COMBINED_IMAGE_SAMPLER, pInfo = pImageInfo 2 0 \<rparr>,
             \<lparr> dstSet = 1, dstBinding = 2, dstArrayElement = 1, descriptorCount = 1,
               descriptorType = VK_DESCRIPTOR_TYPE_COMBINED_IMAGE_SAMPLER, pInfo = pImageInfo 2 1 \<rparr>] \<rparr>,
      [LOGE_uniform_buffer_range_limit 0 0 70000 65536,
       LOGE_storage_buffer_range_limit 0 1 200000000 134217728,
       LOGE_no_buffer_binding 7, LOGE_no_image_binding 9])"
    by (simp add: Prepare_def unprepared_set_def example_buffer_infos_def example_image_infos_def
          example_set_layout_def example_limits_def prepare_buffer_binding_def
          prepare_image_binding_def prepare_buffer_element_def clip_buffer_range_def
          GetLayoutBinding_def Let_def)
  show ?thesis
    using Prepare_clamps_and_skips [where ds = unprepared_set and b = 0 and e = 0
            and info = "\<lparr> bi_buffer = 21, bi_offset = 0, bi_range = 70000 \<rparr>"
            and bi = "\<lparr> lb_binding = 0, lb_descriptorType = VK_DESCRIPTOR_TYPE_UNIFORM_BUFFER,
               lb_descriptorCount = 1, lb_stageFlags = 1 \<rparr>"
            and limits = example_limits and b' = 7 and d = "hd example_replies"
            and descriptorSetLayout = example_set_layout
            and descriptorPool = "DescriptorPool_ctor example_set_layout 2"
            and bufferInfos = example_buffer_infos and imageInfos = example_image_infos]
          alloc prep
    by (auto simp add: unprepared_set_def example_buffer_infos_def example_image_infos_def
          example_set_layout_def example_limits_def GetLayoutBinding_def lookup2_def)
qed

lemma needs_write_iff:
  "needs_write h ds w \<longleftrightarrow>
     (m_updatedBindings ds (dstBinding w) = None \<or>
      m_updatedBindings ds (dstBinding w) \<noteq> Some (h (entry_of ds w)))"
  by (auto simp: needs_write_def split: option.splits)

lemma needs_write_fun:
  "needs_write h ds =
     (\<lambda>w. m_updatedBindings ds (dstBinding w) = None \<or>
          m_updatedBindings ds (dstBinding w) \<noteq> Some (h (entry_of ds w)))"
  by (rule ext) (rule needs_write_iff)

lemma Update_sent:
  "snd (Update h ds bs) =
     (if sent_by_Update h ds bs = [] then [] else [map (entry_of ds) (sent_by_Update h ds bs)])"
  by (simp add: Update_def sent_by_Update_def needs_write_fun Let_def)

lemma Update_recorded:
  "fst (Update h ds bs) =
     ds\<lparr> m_updatedBindings :=
           fold (\<lambda>w m. m(dstBinding w \<mapsto> h (entry_of ds w))) (sent_by_Update h ds bs) (m_updatedBindings ds) \<rparr>"
  by (simp add: Update_def sent_by_Update_def needs_write_fun Let_def)

lemma fold_record_distinct:
  "distinct (map k ops) \<Longrightarrow>
     fold (\<lambda>w m. m(k w \<mapsto> v w)) ops m0 b =
       (case find (\<lambda>w. k w = b) ops of Some w \<Rightarrow> Some (v w) | None \<Rightarrow> m0 b)"
proof (induction ops arbitrary: m0)
  case Nil
  then show ?case by simp
next
  case (Cons x xs)
  have "k x = b \<Longrightarrow> find (\<lambda>w. k w = b) xs = None"
    using Cons.prems by (auto simp: find_None_iff image_iff)
  then show ?case using Cons by (auto split: option.splits)
qed

lemma entry_of_Update [simp]: "entry_of (fst (Update h ds bs)) w = entry_of ds w"
  by (cases "pInfo w") (simp_all add: entry_of_def Update_recorded)

lemma writes_Update [simp]: "m_writeDescriptorSets (fst (Update h ds bs)) = m_writeDescriptorSets ds"
  by (simp add: Update_recorded)

lemma distinct_sent:
  "distinct (map dstBinding (m_writeDescriptorSets ds)) \<Longrightarrow> distinct (map dstBinding (sent_by_Update h ds bs))"
  by (simp add: sent_by_Update_def distinct_map_filter)

lemma recorded_after_Update:
  assumes "distinct (map dstBinding (m_writeDescriptorSets ds))"
  shows "m_updatedBindings (fst (Update h ds bs)) b =
     (case find (\<lambda>w. dstBinding w = b) (sent_by_Update h ds bs) of
        Some w \<Rightarrow> Some (h (entry_of ds w)) | None \<Rightarrow> m_updatedBindings ds b)"
  by (simp add: Update_recorded fold_record_distinct [OF distinct_sent [OF assms]])

lemma find_distinct_member:
  "distinct (map k xs) \<Longrightarrow> w \<in> set xs \<Longrightarrow> find (\<lambda>x. k x = k w) xs = Some w"
  by (induction xs) (auto simp: rev_image_eqI)

lemma applied_after_full_Update:
  assumes d: "distinct (map dstBinding (m_writeDescriptorSets ds))"
      and w: "w \<in> set (m_writeDescriptorSets ds)"
  shows "m_updatedBindings (fst (Update h ds [])) (dstBinding w) = Some (h (entry_of ds w))"
proof (cases "w \<in> set (sent_by_Update h ds [])")
  case True
  then have "find (\<lambda>x. dstBinding x = dstBinding w) (sent_by_Update h ds []) = Some w"
    using find_distinct_member [OF distinct_sent [OF d]] by blast
  then show ?thesis by (simp add: recorded_after_Update [OF d])
next
  case False
  then have applied: "m_updatedBindings ds (dstBinding w) = Some (h (entry_of ds w))"
    using w by (auto simp: sent_by_Update_def)
  have "find (\<lambda>x. dstBinding x = dstBinding w) (sent_by_Update h ds []) = None"
  proof (rule ccontr)
    assume "find (\<lambda>x. dstBinding x = dstBinding w) (sent_by_Update h ds []) \<noteq> None"
    then obtain x where x: "x \<in> set (sent_by_Update h ds [])" "dstBinding x = dstBinding w"
      by (auto simp: find_None_iff)
    then have "x \<in> set (m_writeDescriptorSets ds)" by (simp add: sent_by_Update_def)
    with d w x(2) have "x = w" by (auto simp: distinct_map inj_on_def)
    with x(1) False show False by simp
  qed
  then show ?thesis using applied by (simp add: recorded_after_Update [OF d])
qed


lemma filter_eq_single:
  "distinct xs \<Longrightarrow> w0 \<in> set xs \<Longrightarrow> (\<And>w. w \<in> set xs \<Longrightarrow> P w \<longleftrightarrow> w = w0) \<Longrightarrow> filter P xs = [w0]"
proof (induction xs)
  case Nil
  then show ?case by simp
next
  case (Cons x xs)
  show ?case
  proof (cases "x = w0")
    case True
    then have "filter P xs = []"
      using Cons.prems by (auto simp: filter_empty_conv)
    then show ?thesis using True Cons.prems(3) by simp
  next
    case False
    then show ?thesis using Cons by auto
  qed
qed

lemma array_set_eq:
  "array_set =
     unprepared_set
        \<lparr> m_bufferInfos :=
            [(0, [(0, \<lparr> bi_buffer = 21, bi_offset = 0, bi_range = 65536 \<rparr>)]),
             (1, [(0, \<lparr> bi_buffer = 22, bi_offset = 0, bi_range = 134217728 \<rparr>)]),
             (7, [(0, \<lparr> bi_buffer = 23, bi_offset = 0, bi_range = 16 \<rparr>)])],
          m_writeDescriptorSets :=
            [\<lparr> dstSet = 1, dstBinding = 0, dstArrayElement = 0, descriptorCount = 1,
               descriptorType = VK_DESCRIPTOR_TYPE_UNIFORM_BUFFER, pInfo = pBufferInfo 0 0 \<rparr>,
             \<lparr> dstSet = 1, dstBinding = 1, dstArrayElement = 0, descriptorCount = 1,
               descriptorType = VK_DESCRIPTOR_TYPE_STORAGE_BUFFER, pInfo = pBufferInfo 1 0 \<rparr>,
             \<lparr> dstSet = 1, dstBinding = 2, dstArrayElement = 0, descriptorCount = 1,
               descriptorType = VK_DESCRIPTOR_TYPE_COMBINED_IMAGE_SAMPLER, pInfo = pImageInfo 2 0 \<rparr>,
             \<lparr> dstSet = 1, dstBinding = 2, dstArrayElement = 1, descriptorCount = 1,
               descriptorType = VK_DESCRIPTOR_TYPE_COMBINED_IMAGE_SAMPLER, pInfo = pImageInfo 2 1 \<rparr>] \<rparr>"
  by (simp add: array_set_def Prepare_def unprepared_set_def example_buffer_infos_def example_image_infos_def
          example_set_layout_def example_limits_def prepare_buffer_binding_def
          prepare_image_binding_def prepare_buffer_element_def clip_buffer_range_def
          GetLayoutBinding_def Let_def)

lemma plain_set_eq:
  "plain_set =
     unprepared_set
        \<lparr> m_imageInfos := [(2, [(0, \<lparr> ii_sampler = 31, ii_imageView = 11, ii_imageLayout = 5 \<rparr>)])],
          m_bufferInfos :=
            [(0, [(0, \<lparr> bi_buffer = 21, bi_offset = 0, bi_range = 65536 \<rparr>)]),
             (1, [(0, \<lparr> bi_buffer = 22, bi_offset = 0, bi_range = 134217728 \<rparr>)]),
             (7, [(0, \<lparr> bi_buffer = 23, bi_offset = 0, bi_range = 16 \<rparr>)])],
          m_writeDescriptorSets :=
            [\<lparr> dstSet = 1, dstBinding = 0, dstArrayElement = 0, descriptorCount = 1,
               descriptorType = VK_DESCRIPTOR_TYPE_UNIFORM_BUFFER, pInfo = pBufferInfo 0 0 \<rparr>,
             \<lparr> dstSet = 1, dstBinding = 1, dstArrayElement = 0, descriptorCount = 1,
               descriptorType = VK_DESCRIPTOR_TYPE_STORAGE_BUFFER, pInfo = pBufferInfo 1 0 \<rparr>,
             \<lparr> dstSet = 1, dstBinding = 2, dstArrayElement = 0, descriptorCount = 1,
               descriptorType = VK_DESCRIPTOR_TYPE_COMBINED_IMAGE_SAMPLER, pInfo = pImageInfo 2 0 \<rparr>] \<rparr>"
  by (simp add: plain_set_def Prepare_def unprepared_set_def example_buffer_infos_def
          example_set_layout_def example_limits_def prepare_buffer_binding_def
          prepare_image_binding_def prepare_buffer_element_def clip_buffer_range_def
          GetLayoutBinding_def Let_def)

text \<open>
  C3.  What \<open>Update(bindingsToUpdate)\<close> does: it makes one batched call with exactly the
  candidate entries (all entries when \<open>bindingsToUpdate\<close> is empty, otherwise those whose
  binding is listed) whose binding has no applied hash or a different one, and no call when
  there is none.  The applied hashes are kept in \<open>m_updatedBindings\<close> under the binding
  number alone.  Only when no two write-descriptor entries of the set share a binding
  number is the hash of every sent entry then the applied hash of its binding, does a
  second \<open>Update()\<close> right after an \<open>Update()\<close> make no call, and does a change of
  bound data that changes the hash of exactly one entry make the next \<open>Update()\<close> send
  one call with only that entry.
\<close>

theorem Update_sends_stale_entries:
  "snd (Update hash_param ds bindingsToUpdate) =
     (if sent_by_Update hash_param ds bindingsToUpdate = [] then []
      else [map (entry_of ds) (sent_by_Update hash_param ds bindingsToUpdate)]) \<and>
   (distinct (map dstBinding (m_writeDescriptorSets ds)) \<longrightarrow>
      list_all (\<lambda>w. m_updatedBindings (fst (Update hash_param ds bindingsToUpdate)) (dstBinding w) =
                      Some (hash_param (entry_of ds w)))
               (sent_by_Update hash_param ds bindingsToUpdate) \<and>
      snd (Update hash_param (fst (Update hash_param ds [])) []) = [] \<and>
      (w0 \<in> set (m_writeDescriptorSets ds) \<and>
       m_writeDescriptorSets ds2 = m_writeDescriptorSets ds \<and>
       m_updatedBindings ds2 = m_updatedBindings (fst (Update hash_param ds [])) \<and>
       hash_param (entry_of ds2 w0) \<noteq> hash_param (entry_of ds w0) \<and>
       list_all (\<lambda>w. w = w0 \<or> hash_param (entry_of ds2 w) = hash_param (entry_of ds w))
                (m_writeDescriptorSets ds) \<longrightarrow>
         snd (Update hash_param ds2 []) = [[entry_of ds2 w0]]))"
proof (intro conjI impI)
  show "snd (Update hash_param ds bindingsToUpdate) =
     (if sent_by_Update hash_param ds bindingsToUpdate = [] then []
      else [map (entry_of ds) (sent_by_Update hash_param ds bindingsToUpdate)])"
    by (rule Update_sent)
next
  assume d: "distinct (map dstBinding (m_writeDescriptorSets ds))"
  show "list_all (\<lambda>w. m_updatedBindings (fst (Update hash_param ds bindingsToUpdate)) (dstBinding w) =
                      Some (hash_param (entry_of ds w)))
               (sent_by_Update hash_param ds bindingsToUpdate)"
    using find_distinct_member [OF distinct_sent [OF d, of hash_param bindingsToUpdate]]
    by (simp add: list_all_iff recorded_after_Update [OF d])
next
  assume d: "distinct (map dstBinding (m_writeDescriptorSets ds))"
  have "sent_by_Update hash_param (fst (Update hash_param ds [])) [] = []"
    using applied_after_full_Update [OF d, of _ hash_param]
    by (simp add: sent_by_Update_def filter_empty_conv)
  then show "snd (Update hash_param (fst (Update hash_param ds [])) []) = []"
    by (simp add: Update_sent)
next
  assume d: "distinct (map dstBinding (m_writeDescriptorSets ds))"
  assume a: "w0 \<in> set (m_writeDescriptorSets ds) \<and>
       m_writeDescriptorSets ds2 = m_writeDescriptorSets ds \<and>
       m_updatedBindings ds2 = m_updatedBindings (fst (Update hash_param ds [])) \<and>
       hash_param (entry_of ds2 w0) \<noteq> hash_param (entry_of ds w0) \<and>
       list_all (\<lambda>w. w = w0 \<or> hash_param (entry_of ds2 w) = hash_param (entry_of ds w))
                (m_writeDescriptorSets ds)"
  have dw: "distinct (m_writeDescriptorSets ds)"
    using d by (simp add: distinct_map)
  have "sent_by_Update hash_param ds2 [] = [w0]"
    unfolding sent_by_Update_def
  proof (rule filter_eq_single)
    show "distinct (m_writeDescriptorSets ds2)" using a dw by simp
    show "w0 \<in> set (m_writeDescriptorSets ds2)" using a by simp
    fix w assume "w \<in> set (m_writeDescriptorSets ds2)"
    then have w: "w \<in> set (m_writeDescriptorSets ds)" using a by simp
    have applied: "m_updatedBindings ds2 (dstBinding w) = Some (hash_param (entry_of ds w))"
      using a applied_after_full_Update [OF d w, of hash_param] by simp
    have changed: "hash_param (entry_of ds2 w0) \<noteq> hash_param (entry_of ds w0)"
      using a by simp
    have same: "hash_param (entry_of ds2 w) = hash_param (entry_of ds w)" if "w \<noteq> w0"
      using a w that by (auto simp: list_all_iff)
    show "(([] :: nat list) = [] \<or> dstBinding w \<in> set []) \<and>
           (m_updatedBindings ds2 (dstBinding w) = None \<or>
            m_updatedBindings ds2 (dstBinding w) \<noteq> Some (hash_param (entry_of ds2 w))) \<longleftrightarrow> w = w0"
    proof (cases "w = w0")
      case True
      then show ?thesis using applied changed by simp
    next
      case False
      then show ?thesis using applied same by simp
    qed
  qed
  then show "snd (Update hash_param ds2 []) = [[entry_of ds2 w0]]"
    by (simp add: Update_sent)
qed

theorem Update_sends_stale_entries_witness:
  "distinct (map dstBinding (m_writeDescriptorSets plain_set)) \<and>
   map (map fst) (snd (Update content_hash plain_set [])) = [m_writeDescriptorSets plain_set] \<and>
   snd (Update content_hash (fst (Update content_hash plain_set [])) []) = [] \<and>
   content_hash (entry_of changed_set (hd (m_writeDescriptorSets plain_set))) \<noteq>
     content_hash (entry_of plain_set (hd (m_writeDescriptorSets plain_set))) \<and>
   snd (Update content_hash changed_set []) =
     [[(\<lparr> dstSet = 1, dstBinding = 0, dstArrayElement = 0, descriptorCount = 1,
          descriptorType = VK_DESCRIPTOR_TYPE_UNIFORM_BUFFER, pInfo = pBufferInfo 0 0 \<rparr>,
        Some (BufferInfo \<lparr> bi_buffer = 99, bi_offset = 0, bi_range = 65536 \<rparr>))]]"
proof -
  have d: "distinct (map dstBinding (m_writeDescriptorSets plain_set))"
    by (simp add: plain_set_eq)
  have first: "map (map fst) (snd (Update content_hash plain_set [])) = [m_writeDescriptorSets plain_set]"
    by (simp add: plain_set_eq Update_def needs_write_def unprepared_set_def entry_of_def)
  have w0: "hd (m_writeDescriptorSets plain_set) \<in> set (m_writeDescriptorSets plain_set)"
    by (simp add: plain_set_eq)
  have same_writes: "m_writeDescriptorSets changed_set = m_writeDescriptorSets plain_set"
    by (simp add: changed_set_def Update_def Let_def)
  have same_applied: "m_updatedBindings changed_set = m_updatedBindings (fst (Update content_hash plain_set []))"
    by (simp add: changed_set_def)
  have infos: "m_bufferInfos changed_set =
           [(0, [(0, \<lparr> bi_buffer = 99, bi_offset = 0, bi_range = 65536 \<rparr>)]),
            (1, [(0, \<lparr> bi_buffer = 22, bi_offset = 0, bi_range = 134217728 \<rparr>)]),
            (7, [(0, \<lparr> bi_buffer = 23, bi_offset = 0, bi_range = 16 \<rparr>)])]"
      "m_imageInfos changed_set = m_imageInfos plain_set"
    by (simp_all add: changed_set_def Update_def Let_def)
  have changed: "content_hash (entry_of changed_set (hd (m_writeDescriptorSets plain_set))) \<noteq>
     content_hash (entry_of plain_set (hd (m_writeDescriptorSets plain_set)))"
    by (simp add: entry_of_def infos plain_set_eq unprepared_set_def lookup2_def content_hash_def
          hash_fields_def descriptor_type_number_def)
  have others: "list_all (\<lambda>w. w = hd (m_writeDescriptorSets plain_set) \<or>
                    content_hash (entry_of changed_set w) = content_hash (entry_of plain_set w))
                (m_writeDescriptorSets plain_set)"
    by (simp add: entry_of_def infos plain_set_eq unprepared_set_def lookup2_def)
  have entry: "entry_of changed_set (hd (m_writeDescriptorSets plain_set)) =
     (\<lparr> dstSet = 1, dstBinding = 0, dstArrayElement = 0, descriptorCount = 1,
          descriptorType = VK_DESCRIPTOR_TYPE_UNIFORM_BUFFER, pInfo = pBufferInfo 0 0 \<rparr>,
        Some (BufferInfo \<lparr> bi_buffer = 99, bi_offset = 0, bi_range = 65536 \<rparr>))"
    by (simp add: entry_of_def infos plain_set_eq unprepared_set_def lookup2_def)
  show ?thesis
    using Update_sends_stale_entries [where hash_param = content_hash and ds = plain_set
            and bindingsToUpdate = "[]" and ?ds2.0 = changed_set
            and ?w0.0 = "hd (m_writeDescriptorSets plain_set)"]
          d first w0 same_writes same_applied changed others entry
    by simp
qed

text \<open>
  The class "keeps track of what bindings were written to prevent a double write", and
  \<open>Update\<close> stores the hash of what it sends "to prevent overwriting by future calls to
  update()".  A binding with two array elements has two write-descriptor entries, and
  \<open>m_updatedBindings\<close> keeps only the hash of the last one: on the prepared set
  \<open>array_set\<close>, whose binding 2 has the elements 0 and 1, the second of two \<open>Update()\<close>
  calls with nothing changed in between writes element 0 of binding 2 a second time.
\<close>

theorem Update_twice_counterexample:
  "snd (Update content_hash (fst (Update content_hash array_set [])) []) \<noteq> [] \<and>
   snd (Update content_hash (fst (Update content_hash array_set [])) []) =
     [[(\<lparr> dstSet = 1, dstBinding = 2, dstArrayElement = 0, descriptorCount = 1,
          descriptorType = VK_DESCRIPTOR_TYPE_COMBINED_IMAGE_SAMPLER, pInfo = pImageInfo 2 0 \<rparr>,
        Some (ImageInfo \<lparr> ii_sampler = 31, ii_imageView = 11, ii_imageLayout = 5 \<rparr>))]]"
  by (simp add: array_set_eq Update_def needs_write_def entry_of_def lookup2_def content_hash_def
        hash_fields_def descriptor_type_number_def unprepared_set_def example_image_infos_def
        example_buffer_infos_def Let_def)

section \<open>Record and replay\<close>

lemma request_resource_hit:
  "map_of resources key = Some x \<Longrightarrow>
   request_resource recorder resources key build record_helper = Inr (recorder, resources, key)"
  by (simp add: request_resource_def)

lemma request_resource_miss:
  "map_of resources key = None \<Longrightarrow>
   request_resource recorder resources key (Inr obj) record_helper =
     (case record_helper recorder key of
        Inl e \<Rightarrow> Inl e
      | Inr recorder1 \<Rightarrow> Inr (recorder1, resources @ [(key, obj)], key))"
  by (simp add: request_resource_def emplace_def split: sum.splits)

lemma table_agreesD:
  "table_agrees table indices objects \<Longrightarrow> table p = Some i \<Longrightarrow> i < length objects \<and> objects ! i = p"
  unfolding table_agrees_def by blast

lemma table_agrees_push:
  assumes "table_agrees table indices objects"
  shows "table_agrees (table(p \<mapsto> length indices)) (indices @ [length indices]) (objects @ [p])"
  using assms by (auto simp: table_agrees_def nth_append)

lemma known_objects_push:
  assumes "known_objects table objects"
  shows "known_objects (table(p \<mapsto> i)) (objects @ [p])"
  using assms by (auto simp: known_objects_def)

lemma shader_module_step:
  assumes inv: "replay_inv live st"
    and req: "ResourceCache_RequestShaderModule h live stage src variant = Inr (live', p)"
  shows "\<exists>new st'. m_stream (m_recorder live') = foldl write_stream (m_stream (m_recorder live)) new \<and>
           play_entries h st new = Inr st' \<and> replay_inv live' st'"
proof (cases "map_of (shader_modules (m_state live)) (hash_shader_module h stage src ''main'' variant)")
  case (Some obj)
  then have "live' = live"
    using req by (simp add: ResourceCache_RequestShaderModule_def request_resource_hit)
  then show ?thesis
    using inv by (intro exI [of _ "[]"] exI [of _ st]) simp
next
  case None
  let ?k = "hash_shader_module h stage src ''main'' variant"
  let ?e = "ShaderModuleEntry stage src ''main'' (preamble variant) (processes variant)"
  have same: "same_recorded live (fst st)" using inv by (simp add: replay_inv_def)
  then have None': "map_of (shader_modules (m_state (fst st))) ?k = None"
    using None by (simp add: same_recorded_def)
  have v: "\<lparr> preamble = preamble variant, processes = processes variant \<rparr> = variant" by simp
  have live': "m_stream (m_recorder live') = write_stream (m_stream (m_recorder live)) ?e"
      "shader_modules (m_state live') = shader_modules (m_state live) @ [(?k, BuiltShaderModule stage src ''main'' variant)]"
      "m_shaderModuleToIndex (m_recorder live') =
         (m_shaderModuleToIndex (m_recorder live))(?k \<mapsto> length (m_shaderModuleIndices (m_recorder live)))"
      "m_shaderModuleIndices (m_recorder live') =
         m_shaderModuleIndices (m_recorder live) @ [length (m_shaderModuleIndices (m_recorder live))]"
      "pipeline_layouts (m_state live') = pipeline_layouts (m_state live)"
      "render_passes (m_state live') = render_passes (m_state live)"
      "graphics_pipelines (m_state live') = graphics_pipelines (m_state live)"
      "m_pipelineCache live' = m_pipelineCache live"
      "m_pipelineLayoutToIndex (m_recorder live') = m_pipelineLayoutToIndex (m_recorder live)"
      "m_pipelineLayoutIndices (m_recorder live') = m_pipelineLayoutIndices (m_recorder live)"
      "m_renderPassToIndex (m_recorder live') = m_renderPassToIndex (m_recorder live)"
      "m_renderPassIndices (m_recorder live') = m_renderPassIndices (m_recorder live)"
    using req None
    by (auto simp: ResourceCache_RequestShaderModule_def request_resource_miss record_index_def
          RegisterShaderModule_def SetShaderModule_def Let_def)
  obtain warm' where warm: "ResourceCache_RequestShaderModule h (fst st) stage src variant = Inr (warm', ?k)"
      and warm': "shader_modules (m_state warm') = shader_modules (m_state (fst st)) @ [(?k, BuiltShaderModule stage src ''main'' variant)]"
      "\<exists>i. m_shaderModuleToIndex (m_recorder warm') = (m_shaderModuleToIndex (m_recorder (fst st)))(?k \<mapsto> i)"
      "pipeline_layouts (m_state warm') = pipeline_layouts (m_state (fst st))"
      "render_passes (m_state warm') = render_passes (m_state (fst st))"
      "graphics_pipelines (m_state warm') = graphics_pipelines (m_state (fst st))"
      "m_pipelineCache warm' = m_pipelineCache (fst st)"
      "descriptor_set_layouts (m_state warm') = descriptor_set_layouts (m_state (fst st))"
      "descriptor_pools (m_state warm') = descriptor_pools (m_state (fst st))"
      "descriptor_sets (m_state warm') = descriptor_sets (m_state (fst st))"
      "compute_pipelines (m_state warm') = compute_pipelines (m_state (fst st))"
      "framebuffers (m_state warm') = framebuffers (m_state (fst st))"
      "m_pipelineLayoutToIndex (m_recorder warm') = m_pipelineLayoutToIndex (m_recorder (fst st))"
      "m_renderPassToIndex (m_recorder warm') = m_renderPassToIndex (m_recorder (fst st))"
    using None'
    by (auto simp: ResourceCache_RequestShaderModule_def request_resource_miss record_index_def
          RegisterShaderModule_def SetShaderModule_def Let_def)
  let ?st' = "(warm', (snd st)\<lparr> replayed_shader_modules := replayed_shader_modules (snd st) @ [?k] \<rparr>)"
  have play: "play_entries h st [?e] = Inr ?st'"
    by (simp add: v warm)
  have "replay_inv live' ?st'"
    using inv warm'(2)
    by (auto simp: replay_inv_def same_recorded_def live' warm'(1,3-) table_agrees_push known_objects_push)
  then show ?thesis using live'(1) play by (intro exI [of _ "[?e]"] exI [of _ ?st']) simp
qed

lemma subpasses_round_trip:
  "map (\<lambda>item. \<lparr> input_attachments = fst item, output_attachments = snd item \<rparr>)
     (map (\<lambda>item. (input_attachments item, output_attachments item)) subpasses) = subpasses"
  by (induction subpasses) simp_all

lemma render_pass_step:
  assumes inv: "replay_inv live st"
    and req: "ResourceCache_RequestRenderPass h live attachments loadStoreInfos subpasses = Inr (live', p)"
  shows "\<exists>new st'. m_stream (m_recorder live') = foldl write_stream (m_stream (m_recorder live)) new \<and>
           play_entries h st new = Inr st' \<and> replay_inv live' st'"
proof (cases "map_of (render_passes (m_state live)) (hash_render_pass h attachments loadStoreInfos subpasses)")
  case (Some obj)
  then have "live' = live"
    using req by (simp add: ResourceCache_RequestRenderPass_def request_resource_hit)
  then show ?thesis
    using inv by (intro exI [of _ "[]"] exI [of _ st]) simp
next
  case None
  let ?k = "hash_render_pass h attachments loadStoreInfos subpasses"
  let ?obj = "BuiltRenderPass attachments loadStoreInfos subpasses"
  let ?e = "RenderPassEntry attachments loadStoreInfos
              (map (\<lambda>item. (input_attachments item, output_attachments item)) subpasses)"
  have same: "same_recorded live (fst st)" using inv by (simp add: replay_inv_def)
  then have None': "map_of (render_passes (m_state (fst st))) ?k = None"
    using None by (simp add: same_recorded_def)
  have live': "m_stream (m_recorder live') = write_stream (m_stream (m_recorder live)) ?e"
      "render_passes (m_state live') = render_passes (m_state live) @ [(?k, ?obj)]"
      "m_renderPassToIndex (m_recorder live') =
         (m_renderPassToIndex (m_recorder live))(?k \<mapsto> length (m_renderPassIndices (m_recorder live)))"
      "m_renderPassIndices (m_recorder live') =
         m_renderPassIndices (m_recorder live) @ [length (m_renderPassIndices (m_recorder live))]"
      "pipeline_layouts (m_state live') = pipeline_layouts (m_state live)"
      "shader_modules (m_state live') = shader_modules (m_state live)"
      "graphics_pipelines (m_state live') = graphics_pipelines (m_state live)"
      "m_pipelineCache live' = m_pipelineCache live"
      "m_pipelineLayoutToIndex (m_recorder live') = m_pipelineLayoutToIndex (m_recorder live)"
      "m_pipelineLayoutIndices (m_recorder live') = m_pipelineLayoutIndices (m_recorder live)"
      "m_shaderModuleToIndex (m_recorder live') = m_shaderModuleToIndex (m_recorder live)"
      "m_shaderModuleIndices (m_recorder live') = m_shaderModuleIndices (m_recorder live)"
    using req None
    by (auto simp: ResourceCache_RequestRenderPass_def request_resource_miss record_index_def
          RegisterRenderPass_def SetRenderPass_def Let_def)
  obtain warm' where warm: "ResourceCache_RequestRenderPass h (fst st) attachments loadStoreInfos subpasses = Inr (warm', ?k)"
      and warm': "render_passes (m_state warm') = render_passes (m_state (fst st)) @ [(?k, ?obj)]"
      "\<exists>i. m_renderPassToIndex (m_recorder warm') = (m_renderPassToIndex (m_recorder (fst st)))(?k \<mapsto> i)"
      "pipeline_layouts (m_state warm') = pipeline_layouts (m_state (fst st))"
      "shader_modules (m_state warm') = shader_modules (m_state (fst st))"
      "graphics_pipelines (m_state warm') = graphics_pipelines (m_state (fst st))"
      "m_pipelineCache warm' = m_pipelineCache (fst st)"
      "descriptor_set_layouts (m_state warm') = descriptor_set_layouts (m_state (fst st))"
      "descriptor_pools (m_state warm') = descriptor_pools (m_state (fst st))"
      "descriptor_sets (m_state warm') = descriptor_sets (m_state (fst st))"
      "compute_pipelines (m_state warm') = compute_pipelines (m_state (fst st))"
      "framebuffers (m_state warm') = framebuffers (m_state (fst st))"
      "m_pipelineLayoutToIndex (m_recorder warm') = m_pipelineLayoutToIndex (m_recorder (fst st))"
      "m_shaderModuleToIndex (m_recorder warm') = m_shaderModuleToIndex (m_recorder (fst st))"
    using None'
    by (auto simp: ResourceCache_RequestRenderPass_def request_resource_miss record_index_def
          RegisterRenderPass_def SetRenderPass_def Let_def)
  let ?st' = "(warm', (snd st)\<lparr> replayed_render_passes := replayed_render_passes (snd st) @ [?k] \<rparr>)"
  have play: "play_entries h st [?e] = Inr ?st'"
    unfolding play_entries.simps play_entry.simps subpasses_round_trip warm by simp
  have "replay_inv live' ?st'"
    using inv warm'(2)
    by (auto simp: replay_inv_def same_recorded_def live' warm'(1,3-) table_agrees_push known_objects_push)
  then show ?thesis using live'(1) play by (intro exI [of _ "[?e]"] exI [of _ ?st']) simp
qed

lemma transform_at_agrees:
  assumes "table_agrees table indices objects" "transform_at table ps = Some js"
  shows "list_all (\<lambda>i. i < length objects) js \<and> map (\<lambda>i. objects ! i) js = ps"
  using assms(2)
proof (induction ps arbitrary: js)
  case Nil
  then show ?case by simp
next
  case (Cons p ps)
  then obtain i rest where i: "table p = Some i" and rest: "transform_at table ps = Some rest"
      and js: "js = i # rest"
    by (auto split: option.splits)
  have "i < length objects \<and> objects ! i = p"
    using assms(1) i by (rule table_agreesD)
  then show ?case using Cons.IH [OF rest] js by simp
qed

lemma transform_at_known:
  assumes "\<forall>p \<in> set ps. table p \<noteq> None"
  shows "\<exists>js. transform_at table ps = Some js"
  using assms by (induction ps) auto

lemma pipeline_layout_step:
  assumes inv: "replay_inv live st"
    and req: "ResourceCache_RequestPipelineLayout h live shaderModules = Inr (live', p)"
  shows "\<exists>new st'. m_stream (m_recorder live') = foldl write_stream (m_stream (m_recorder live)) new \<and>
           play_entries h st new = Inr st' \<and> replay_inv live' st'"
proof (cases "map_of (pipeline_layouts (m_state live)) (hash_pipeline_layout h shaderModules)")
  case (Some obj)
  then have "live' = live"
    using req by (simp add: ResourceCache_RequestPipelineLayout_def request_resource_hit)
  then show ?thesis
    using inv by (intro exI [of _ "[]"] exI [of _ st]) simp
next
  case None
  let ?k = "hash_pipeline_layout h shaderModules"
  let ?obj = "BuiltPipelineLayout shaderModules"
  have same: "same_recorded live (fst st)" using inv by (simp add: replay_inv_def)
  then have None': "map_of (pipeline_layouts (m_state (fst st))) ?k = None"
    using None by (simp add: same_recorded_def)
  obtain js where js: "transform_at (m_shaderModuleToIndex (m_recorder live)) shaderModules = Some js"
    using req None
    by (auto simp: ResourceCache_RequestPipelineLayout_def request_resource_miss record_index_def
          RegisterPipelineLayout_def Let_def split: option.splits)
  let ?e = "PipelineLayoutEntry js"
  have agrees: "table_agrees (m_shaderModuleToIndex (m_recorder live))
                  (m_shaderModuleIndices (m_recorder live)) (replayed_shader_modules (snd st))"
    using inv by (simp add: replay_inv_def)
  from transform_at_agrees [OF agrees js]
  have bound: "list_all (\<lambda>i. i < length (replayed_shader_modules (snd st))) js"
      and restored: "map (\<lambda>i. replayed_shader_modules (snd st) ! i) js = shaderModules"
    by simp_all
  have "set shaderModules \<subseteq> set (replayed_shader_modules (snd st))"
    using bound unfolding restored [symmetric] by (auto simp: list_all_iff)
  moreover have "known_objects (m_shaderModuleToIndex (m_recorder (fst st))) (replayed_shader_modules (snd st))"
    using inv by (simp add: replay_inv_def)
  ultimately have "\<forall>p \<in> set shaderModules. m_shaderModuleToIndex (m_recorder (fst st)) p \<noteq> None"
    by (auto simp: known_objects_def)
  from transform_at_known [OF this]
  obtain js' where js': "transform_at (m_shaderModuleToIndex (m_recorder (fst st))) shaderModules = Some js'"
    by blast
  have live': "m_stream (m_recorder live') = write_stream (m_stream (m_recorder live)) ?e"
      "pipeline_layouts (m_state live') = pipeline_layouts (m_state live) @ [(?k, ?obj)]"
      "m_pipelineLayoutToIndex (m_recorder live') =
         (m_pipelineLayoutToIndex (m_recorder live))(?k \<mapsto> length (m_pipelineLayoutIndices (m_recorder live)))"
      "m_pipelineLayoutIndices (m_recorder live') =
         m_pipelineLayoutIndices (m_recorder live) @ [length (m_pipelineLayoutIndices (m_recorder live))]"
      "render_passes (m_state live') = render_passes (m_state live)"
      "shader_modules (m_state live') = shader_modules (m_state live)"
      "graphics_pipelines (m_state live') = graphics_pipelines (m_state live)"
      "m_pipelineCache live' = m_pipelineCache live"
      "m_renderPassToIndex (m_recorder live') = m_renderPassToIndex (m_recorder live)"
      "m_renderPassIndices (m_recorder live') = m_renderPassIndices (m_recorder live)"
      "m_shaderModuleToIndex (m_recorder live') = m_shaderModuleToIndex (m_recorder live)"
      "m_shaderModuleIndices (m_recorder live') = m_shaderModuleIndices (m_recorder live)"
    using req None js
    by (auto simp: ResourceCache_RequestPipelineLayout_def request_resource_miss record_index_def
          RegisterPipelineLayout_def SetPipelineLayout_def Let_def)
  obtain warm' where warm: "ResourceCache_RequestPipelineLayout h (fst st) shaderModules = Inr (warm', ?k)"
      and warm': "pipeline_layouts (m_state warm') = pipeline_layouts (m_state (fst st)) @ [(?k, ?obj)]"
      "\<exists>i. m_pipelineLayoutToIndex (m_recorder warm') = (m_pipelineLayoutToIndex (m_recorder (fst st)))(?k \<mapsto> i)"
      "render_passes (m_state warm') = render_passes (m_state (fst st))"
      "shader_modules (m_state warm') = shader_modules (m_state (fst st))"
      "graphics_pipelines (m_state warm') = graphics_pipelines (m_state (fst st))"
      "m_pipelineCache warm' = m_pipelineCache (fst st)"
      "descriptor_set_layouts (m_state warm') = descriptor_set_layouts (m_state (fst st))"
      "descriptor_pools (m_state warm') = descriptor_pools (m_state (fst st))"
      "descriptor_sets (m_state warm') = descriptor_sets (m_state (fst st))"
      "compute_pipelines (m_state warm') = compute_pipelines (m_state (fst st))"
      "framebuffers (m_state warm') = framebuffers (m_state (fst st))"
      "m_renderPassToIndex (m_recorder warm') = m_renderPassToIndex (m_recorder (fst st))"
      "m_shaderModuleToIndex (m_recorder warm') = m_shaderModuleToIndex (m_recorder (fst st))"
    using None' js'
    by (auto simp: ResourceCache_RequestPipelineLayout_def request_resource_miss record_index_def
          RegisterPipelineLayout_def SetPipelineLayout_def Let_def)
  let ?st' = "(warm', (snd st)\<lparr> replayed_pipeline_layouts := replayed_pipeline_layouts (snd st) @ [?k] \<rparr>)"
  have play: "play_entries h st [?e] = Inr ?st'"
    by (simp add: bound restored warm)
  have "replay_inv live' ?st'"
    using inv warm'(2)
    by (auto simp: replay_inv_def same_recorded_def live' warm'(1,3-) table_agrees_push known_objects_push)
  then show ?thesis using live'(1) play by (intro exI [of _ "[?e]"] exI [of _ ?st']) simp
qed

lemma graphics_pipeline_step:
  assumes inv: "replay_inv live st"
    and req: "ResourceCache_RequestGraphicsPipeline h live pipelineState = Inr (live', p)"
  shows "\<exists>new st'. m_stream (m_recorder live') = foldl write_stream (m_stream (m_recorder live)) new \<and>
           play_entries h st new = Inr st' \<and> replay_inv live' st'"
proof (cases "map_of (graphics_pipelines (m_state live))
                (hash_graphics_pipeline h (m_pipelineCache live) pipelineState)")
  case (Some obj)
  then have "live' = live"
    using req by (simp add: ResourceCache_RequestGraphicsPipeline_def request_resource_hit)
  then show ?thesis
    using inv by (intro exI [of _ "[]"] exI [of _ st]) simp
next
  case None
  let ?k = "hash_graphics_pipeline h (m_pipelineCache live) pipelineState"
  let ?obj = "BuiltGraphicsPipeline (m_pipelineCache live) pipelineState"
  have same: "same_recorded live (fst st)" using inv by (simp add: replay_inv_def)
  then have cache: "m_pipelineCache (fst st) = m_pipelineCache live"
    by (simp add: same_recorded_def)
  have None': "map_of (graphics_pipelines (m_state (fst st))) ?k = None"
    using None same by (simp add: same_recorded_def)
  obtain li pi where li: "m_pipelineLayoutToIndex (m_recorder live) (pipeline_layout pipelineState) = Some li"
      and pi: "m_renderPassToIndex (m_recorder live) (render_pass pipelineState) = Some pi"
    using req None
    by (auto simp: ResourceCache_RequestGraphicsPipeline_def request_resource_miss record_index_def
          RegisterGraphicsPipeline_def Let_def split: option.splits)
  let ?e = "GraphicsPipelineEntry li pi (state_fields pipelineState)"
  have "table_agrees (m_pipelineLayoutToIndex (m_recorder live))
          (m_pipelineLayoutIndices (m_recorder live)) (replayed_pipeline_layouts (snd st))"
    using inv by (simp add: replay_inv_def)
  from table_agreesD [OF this li]
  have li_ok: "li < length (replayed_pipeline_layouts (snd st))"
      "replayed_pipeline_layouts (snd st) ! li = pipeline_layout pipelineState"
    by simp_all
  have "table_agrees (m_renderPassToIndex (m_recorder live))
          (m_renderPassIndices (m_recorder live)) (replayed_render_passes (snd st))"
    using inv by (simp add: replay_inv_def)
  from table_agreesD [OF this pi]
  have pi_ok: "pi < length (replayed_render_passes (snd st))"
      "replayed_render_passes (snd st) ! pi = render_pass pipelineState"
    by simp_all
  have "pipeline_layout pipelineState \<in> set (replayed_pipeline_layouts (snd st))"
    using li_ok nth_mem by metis
  then have wl: "m_pipelineLayoutToIndex (m_recorder (fst st)) (pipeline_layout pipelineState) \<noteq> None"
    using inv by (simp add: replay_inv_def known_objects_def)
  have "render_pass pipelineState \<in> set (replayed_render_passes (snd st))"
    using pi_ok nth_mem by metis
  then have wp: "m_renderPassToIndex (m_recorder (fst st)) (render_pass pipelineState) \<noteq> None"
    using inv by (simp add: replay_inv_def known_objects_def)
  have state: "\<lparr> pipeline_layout = replayed_pipeline_layouts (snd st) ! li,
                  render_pass = replayed_render_passes (snd st) ! pi,
                  state_fields = state_fields pipelineState \<rparr> = pipelineState"
    by (simp add: li_ok pi_ok)
  have live': "m_stream (m_recorder live') = write_stream (m_stream (m_recorder live)) ?e"
      "graphics_pipelines (m_state live') = graphics_pipelines (m_state live) @ [(?k, ?obj)]"
      "pipeline_layouts (m_state live') = pipeline_layouts (m_state live)"
      "render_passes (m_state live') = render_passes (m_state live)"
      "shader_modules (m_state live') = shader_modules (m_state live)"
      "m_pipelineCache live' = m_pipelineCache live"
      "m_pipelineLayoutToIndex (m_recorder live') = m_pipelineLayoutToIndex (m_recorder live)"
      "m_pipelineLayoutIndices (m_recorder live') = m_pipelineLayoutIndices (m_recorder live)"
      "m_renderPassToIndex (m_recorder live') = m_renderPassToIndex (m_recorder live)"
      "m_renderPassIndices (m_recorder live') = m_renderPassIndices (m_recorder live)"
      "m_shaderModuleToIndex (m_recorder live') = m_shaderModuleToIndex (m_recorder live)"
      "m_shaderModuleIndices (m_recorder live') = m_shaderModuleIndices (m_recorder live)"
    using req None li pi
    by (auto simp: ResourceCache_RequestGraphicsPipeline_def request_resource_miss record_index_def
          RegisterGraphicsPipeline_def SetGraphicsPipeline_def Let_def)
  obtain warm' where warm: "ResourceCache_RequestGraphicsPipeline h (fst st) pipelineState = Inr (warm', ?k)"
      and warm': "graphics_pipelines (m_state warm') = graphics_pipelines (m_state (fst st)) @ [(?k, ?obj)]"
      "pipeline_layouts (m_state warm') = pipeline_layouts (m_state (fst st))"
      "render_passes (m_state warm') = render_passes (m_state (fst st))"
      "shader_modules (m_state warm') = shader_modules (m_state (fst st))"
      "m_pipelineCache warm' = m_pipelineCache (fst st)"
      "descriptor_set_layouts (m_state warm') = descriptor_set_layouts (m_state (fst st))"
      "descriptor_pools (m_state warm') = descriptor_pools (m_state (fst st))"
      "descriptor_sets (m_state warm') = descriptor_sets (m_state (fst st))"
      "compute_pipelines (m_state warm') = compute_pipelines (m_state (fst st))"
      "framebuffers (m_state warm') = framebuffers (m_state (fst st))"
      "m_pipelineLayoutToIndex (m_recorder warm') = m_pipelineLayoutToIndex (m_recorder (fst st))"
      "m_renderPassToIndex (m_recorder warm') = m_renderPassToIndex (m_recorder (fst st))"
      "m_shaderModuleToIndex (m_recorder warm') = m_shaderModuleToIndex (m_recorder (fst st))"
    using None' wl wp
    by (auto simp: ResourceCache_RequestGraphicsPipeline_def request_resource_miss record_index_def
          RegisterGraphicsPipeline_def SetGraphicsPipeline_def Let_def cache)
  let ?st' = "(warm', (snd st)\<lparr> replayed_graphics_pipelines := replayed_graphics_pipelines (snd st) @ [?k] \<rparr>)"
  have play: "play_entries h st [?e] = Inr ?st'"
    using li_ok(1) pi_ok(1) by (simp add: state warm)
  have "replay_inv live' ?st'"
    using inv
    by (auto simp: replay_inv_def same_recorded_def live' warm')
  then show ?thesis using live'(1) play by (intro exI [of _ "[?e]"] exI [of _ ?st']) simp
qed

lemma replay_inv_recorded_part:
  "recorded_part live' = recorded_part live \<Longrightarrow> replay_inv live' st = replay_inv live st"
  by (simp add: recorded_part_def replay_inv_def same_recorded_def)

lemma request_resource_no_record:
  "request_resource recorder resources key build no_record = Inr res \<Longrightarrow> fst res = recorder"
  by (auto simp: request_resource_def no_record_def split: option.splits sum.splits)

lemma descriptor_set_layout_unrecorded:
  "ResourceCache_RequestDescriptorSetLayout h live created setIndex shaderModules setResources = Inr (live', p) \<Longrightarrow>
   recorded_part live' = recorded_part live"
  by (auto simp: ResourceCache_RequestDescriptorSetLayout_def recorded_part_def
        dest: request_resource_no_record split: sum.splits)

lemma compute_pipeline_unrecorded:
  "ResourceCache_RequestComputePipeline h live pipelineState = Inr (live', p) \<Longrightarrow>
   recorded_part live' = recorded_part live"
  by (auto simp: ResourceCache_RequestComputePipeline_def recorded_part_def
        dest: request_resource_no_record split: sum.splits)

lemma framebuffer_unrecorded:
  "ResourceCache_RequestFramebuffer h live renderTarget renderPass = Inr (live', p) \<Longrightarrow>
   recorded_part live' = recorded_part live"
  by (auto simp: ResourceCache_RequestFramebuffer_def recorded_part_def
        dest: request_resource_no_record split: sum.splits)

lemma descriptor_set_unrecorded:
  "ResourceCache_RequestDescriptorSet h live limits d descriptorSetLayout bufferInfos imageInfos = Inr (live', p) \<Longrightarrow>
   recorded_part live' = recorded_part live"
  by (auto simp: ResourceCache_RequestDescriptorSet_def recorded_part_def Let_def
        dest!: request_resource_no_record split: sum.splits option.splits)

lemma unrecorded_step:
  assumes inv: "replay_inv live st" and part: "recorded_part live' = recorded_part live"
  shows "\<exists>new st'. m_stream (m_recorder live') = foldl write_stream (m_stream (m_recorder live)) new \<and>
           play_entries h st new = Inr st' \<and> replay_inv live' st'"
proof -
  have "m_recorder live' = m_recorder live" using part by (simp add: recorded_part_def)
  moreover have "replay_inv live' st" using inv replay_inv_recorded_part [OF part] by simp
  ultimately show ?thesis by (intro exI [of _ "[]"] exI [of _ st]) simp
qed

lemma request_step:
  assumes inv: "replay_inv live st" and req: "do_request h live r = Inr (live', p)"
  shows "\<exists>new st'. m_stream (m_recorder live') = foldl write_stream (m_stream (m_recorder live)) new \<and>
           play_entries h st new = Inr st' \<and> replay_inv live' st'"
proof (cases r)
  case (ShaderModuleRequest stage glslSource shaderVariant)
  then show ?thesis using shader_module_step [OF inv] req by simp
next
  case (PipelineLayoutRequest shaderModules)
  then show ?thesis using pipeline_layout_step [OF inv] req by simp
next
  case (DescriptorSetLayoutRequest created setIndex shaderModules setResources)
  then show ?thesis using unrecorded_step [OF inv descriptor_set_layout_unrecorded] req by simp
next
  case (GraphicsPipelineRequest pipelineState)
  then show ?thesis using graphics_pipeline_step [OF inv] req by simp
next
  case (ComputePipelineRequest pipelineState)
  then show ?thesis using unrecorded_step [OF inv compute_pipeline_unrecorded] req by simp
next
  case (DescriptorSetRequest limits d descriptorSetLayout bufferInfos imageInfos)
  then show ?thesis using unrecorded_step [OF inv descriptor_set_unrecorded] req by simp
next
  case (RenderPassRequest attachments loadStoreInfos subpasses)
  then show ?thesis using render_pass_step [OF inv] req by simp
next
  case (FramebufferRequest renderTarget renderPass)
  then show ?thesis using unrecorded_step [OF inv framebuffer_unrecorded] req by simp
qed

lemma play_entries_append:
  "play_entries h st (xs @ ys) =
     (case play_entries h st xs of Inl e \<Rightarrow> Inl e | Inr st1 \<Rightarrow> play_entries h st1 ys)"
  by (induction xs arbitrary: st) (auto split: sum.splits)

lemma requests_replay:
  assumes "replay_inv live st" "do_requests h live rs = Inr live'"
  shows "\<exists>new st'. m_stream (m_recorder live') = foldl write_stream (m_stream (m_recorder live)) new \<and>
           play_entries h st new = Inr st' \<and> replay_inv live' st'"
  using assms
proof (induction rs arbitrary: live st)
  case Nil
  then show ?case by (intro exI [of _ "[]"] exI [of _ st]) simp
next
  case (Cons r rs)
  then obtain live1 p where r: "do_request h live r = Inr (live1, p)"
      and rest: "do_requests h live1 rs = Inr live'"
    by (auto split: sum.splits)
  from request_step [OF Cons.prems(1) r]
  obtain new1 st1 where s1: "m_stream (m_recorder live1) = foldl write_stream (m_stream (m_recorder live)) new1"
      "play_entries h st new1 = Inr st1" "replay_inv live1 st1"
    by blast
  from Cons.IH [OF s1(3) rest]
  obtain new2 st2 where s2: "m_stream (m_recorder live') = foldl write_stream (m_stream (m_recorder live1)) new2"
      "play_entries h st1 new2 = Inr st2" "replay_inv live' st2"
    by blast
  have "m_stream (m_recorder live') = foldl write_stream (m_stream (m_recorder live)) (new1 @ new2)"
    using s1(1) s2(1) by simp
  moreover have "play_entries h st (new1 @ new2) = Inr st2"
    using s1(2) s2(2) by (simp add: play_entries_append)
  ultimately show ?case using s2(3) by blast
qed

lemma write_entries:
  "foldl write_stream (Entries es) new = Entries (es @ new)"
  by (induction new arbitrary: es) simp_all

lemma replay_inv_new:
  "replay_inv (SetPipelineCache new_ResourceCache pipelineCache)
     ((SetPipelineCache new_ResourceCache pipelineCache)
        \<lparr> m_recorder := SetData (m_recorder (SetPipelineCache new_ResourceCache pipelineCache)) data \<rparr>,
      new_ResourceReplay)"
  by (simp add: replay_inv_def same_recorded_def table_agrees_def known_objects_def
        new_ResourceCache_def new_ResourceReplay_def new_ResourceRecord_def empty_state_def SetData_def
        SetPipelineCache_def)

text \<open>
  C1.  A new cache is given a pipeline cache handle and populated by a run of request
  operations that all return; it is serialized, and the log is replayed by \<open>Warmup\<close> into
  a new cache that was given the same handle: the replay returns, and the warmed cache has
  exactly the keys of the live cache for the four kinds the recorder registers (shader
  module, pipeline layout, render pass, graphics pipeline) and no key of the other five
  kinds (descriptor-set layout, descriptor pool, descriptor set, compute pipeline,
  framebuffer), whatever the live cache holds of them.
\<close>

theorem Warmup_round_trip:
  assumes "do_requests h (SetPipelineCache new_ResourceCache pipelineCache) requests = Inr live"
  shows "\<exists>warm. Warmup h (SetPipelineCache new_ResourceCache pipelineCache) (Serialize live) =
                  Some (Inr warm) \<and>
           (\<forall>kind. cache_keys (m_state warm) kind =
                     (if kind \<in> recorded_kinds then cache_keys (m_state live) kind else {}))"
proof -
  let ?c0 = "SetPipelineCache new_ResourceCache pipelineCache"
  let ?c1 = "?c0\<lparr> m_recorder := SetData (m_recorder ?c0) (Serialize live) \<rparr>"
  from requests_replay [OF replay_inv_new assms]
  obtain new st' where new: "m_stream (m_recorder live) = foldl write_stream (m_stream (m_recorder ?c0)) new"
      and play: "play_entries h (?c1, new_ResourceReplay) new = Inr st'"
      and inv: "replay_inv live st'"
    by blast
  have "m_stream (m_recorder ?c0) = Entries []"
    by (simp add: SetPipelineCache_def new_ResourceCache_def new_ResourceRecord_def)
  then have "Serialize live = Entries new"
    using new by (simp add: Serialize_def GetData_def write_entries)
  then have warm: "Warmup h ?c0 (Serialize live) = Some (Inr (fst st'))"
    using play by (simp add: Warmup_def Let_def GetData_def SetData_def)
  have same: "same_recorded live (fst st')" using inv by (simp add: replay_inv_def)
  have "cache_keys (m_state (fst st')) kind =
          (if kind \<in> recorded_kinds then cache_keys (m_state live) kind else {})" for kind
    using same by (cases kind) (simp_all add: same_recorded_def recorded_kinds_def)
  then show ?thesis using warm by blast
qed

lemma example_run:
  "map_sum (\<lambda>e. e)
     (\<lambda>live. (map fst (shader_modules (m_state live)), map fst (pipeline_layouts (m_state live)),
              map fst (render_passes (m_state live)), map fst (graphics_pipelines (m_state live)),
              map fst (framebuffers (m_state live))))
     (do_requests example_hasher (SetPipelineCache new_ResourceCache 7) example_requests) =
   Inr ([28, 44], [72], [3], [82], [14])"
  by (simp add: example_requests_def example_hasher_def example_variant_def new_ResourceCache_def
        empty_state_def new_ResourceRecord_def ResourceCache_RequestShaderModule_def
        ResourceCache_RequestPipelineLayout_def ResourceCache_RequestRenderPass_def
        ResourceCache_RequestGraphicsPipeline_def ResourceCache_RequestFramebuffer_def
        request_resource_def record_index_def no_record_def emplace_def
        RegisterShaderModule_def RegisterPipelineLayout_def RegisterRenderPass_def
        RegisterGraphicsPipeline_def SetShaderModule_def SetPipelineLayout_def SetRenderPass_def
        SetGraphicsPipeline_def Let_def SetPipelineCache_def)

theorem Warmup_round_trip_witness:
  "map_sum (\<lambda>e. e)
     (\<lambda>live. (map fst (shader_modules (m_state live)), map fst (pipeline_layouts (m_state live)),
              map fst (render_passes (m_state live)), map fst (graphics_pipelines (m_state live)),
              map fst (framebuffers (m_state live)),
              map_option (map_sum (\<lambda>e. e)
                (\<lambda>warm. map (cache_keys (m_state warm))
                          [KindShaderModule, KindPipelineLayout, KindRenderPass,
                           KindGraphicsPipeline, KindFramebuffer]))
                (Warmup example_hasher (SetPipelineCache new_ResourceCache 7) (Serialize live))))
     (do_requests example_hasher (SetPipelineCache new_ResourceCache 7) example_requests) =
   Inr ([28, 44], [72], [3], [82], [14], Some (Inr [{28, 44}, {72}, {3}, {82}, {}]))"
proof (cases "do_requests example_hasher (SetPipelineCache new_ResourceCache 7) example_requests")
  case (Inl e)
  then show ?thesis using example_run by simp
next
  case (Inr live)
  from Warmup_round_trip [OF Inr]
  obtain warm where warm: "Warmup example_hasher (SetPipelineCache new_ResourceCache 7) (Serialize live) =
                             Some (Inr warm)"
      and keys: "\<forall>kind. cache_keys (m_state warm) kind =
                   (if kind \<in> recorded_kinds then cache_keys (m_state live) kind else {})"
    by blast
  have live: "map fst (shader_modules (m_state live)) = [28, 44]"
      "map fst (pipeline_layouts (m_state live)) = [72]"
      "map fst (render_passes (m_state live)) = [3]"
      "map fst (graphics_pipelines (m_state live)) = [82]"
      "map fst (framebuffers (m_state live)) = [14]"
    using example_run by (simp_all add: Inr)
  have sets: "fst ` set (shader_modules (m_state live)) = {28, 44}"
      "fst ` set (pipeline_layouts (m_state live)) = {72}"
      "fst ` set (render_passes (m_state live)) = {3}"
      "fst ` set (graphics_pipelines (m_state live)) = {82}"
    using live(1-4) by (simp_all flip: set_map)
  have warm_keys: "cache_keys (m_state warm) KindShaderModule = {28, 44}"
      "cache_keys (m_state warm) KindPipelineLayout = {72}"
      "cache_keys (m_state warm) KindRenderPass = {3}"
      "cache_keys (m_state warm) KindGraphicsPipeline = {82}"
      "cache_keys (m_state warm) KindFramebuffer = {}"
    using keys [rule_format, of KindShaderModule] keys [rule_format, of KindPipelineLayout]
      keys [rule_format, of KindRenderPass] keys [rule_format, of KindGraphicsPipeline]
      keys [rule_format, of KindFramebuffer]
    by (simp_all add: sets recorded_kinds_def)
  have "map (cache_keys (m_state warm))
          [KindShaderModule, KindPipelineLayout, KindRenderPass, KindGraphicsPipeline, KindFramebuffer] =
        [{28, 44}, {72}, {3}, {82}, {}]"
    unfolding list.map warm_keys ..
  then show ?thesis
    by (simp only: Inr warm live map_sum.simps option.map)
qed

text \<open>
  A framebuffer requested from a new cache is cached under its key and writes nothing to
  the log: the log is empty, and the cache warmed from it has no framebuffer.  And the
  pipeline cache handle is hashed into the key of a graphics pipeline and is not in its
  entry: the graphics pipeline of the example requests, built in a cache that was given the
  handle 7, has the key 82, and a new cache warmed from the log, its handle left
  \<open>VK_NULL_HANDLE\<close>, has it under the key 75.
\<close>

theorem Warmup_counterexample:
  "map_sum (\<lambda>e. e)
     (\<lambda>live. (Serialize live, cache_keys (m_state live) KindFramebuffer,
              map_option (map_sum (\<lambda>e. e) (\<lambda>warm. cache_keys (m_state warm) KindFramebuffer))
                (Warmup example_hasher new_ResourceCache (Serialize live))))
     (do_requests example_hasher new_ResourceCache [FramebufferRequest [5, 6] 3]) =
   Inr (Entries [], {14}, Some (Inr {})) \<and>
   map_sum (\<lambda>e. e)
     (\<lambda>live. (cache_keys (m_state live) KindGraphicsPipeline,
              map_option (map_sum (\<lambda>e. e) (\<lambda>warm. cache_keys (m_state warm) KindGraphicsPipeline))
                (Warmup example_hasher new_ResourceCache (Serialize live))))
     (do_requests example_hasher (SetPipelineCache new_ResourceCache 7) example_requests) =
   Inr ({82}, Some (Inr {75}))"
  by (simp add: example_requests_def example_hasher_def example_variant_def new_ResourceCache_def
        empty_state_def new_ResourceRecord_def new_ResourceReplay_def
        ResourceCache_RequestShaderModule_def
        ResourceCache_RequestPipelineLayout_def ResourceCache_RequestRenderPass_def
        ResourceCache_RequestGraphicsPipeline_def ResourceCache_RequestFramebuffer_def
        request_resource_def record_index_def no_record_def emplace_def
        RegisterShaderModule_def RegisterPipelineLayout_def RegisterRenderPass_def
        RegisterGraphicsPipeline_def SetShaderModule_def SetPipelineLayout_def SetRenderPass_def
        SetGraphicsPipeline_def Let_def SetPipelineCache_def VK_NULL_HANDLE_def
        Serialize_def GetData_def SetData_def Warmup_def)

end
